theory Spec2Isabelle
  imports Complex_Main "HOL-Library.AList" "HOL-Library.Multiset"
begin

section \<open>JavaScript numbers\<close>

text \<open>
  The tile organizer computes with JavaScript numbers. They are modelled as exact
  rationals extended by \<open>Infinity\<close>, \<open>-Infinity\<close> and \<open>NaN\<close>: the special values are
  kept, because the code starts its minimum search from \<open>Infinity\<close> and divides by a
  tile size that can be zero. Rounding of IEEE doubles and the sign of zero are
  abstracted away (every zero is \<open>+0\<close>), as the specification, which speaks of real
  numbers, does.
\<close>

datatype jsnum = Fin rat | PInf | NInf | NaN

fun inf_of_sign :: "rat \<Rightarrow> jsnum" where
  "inf_of_sign s = (if s = 0 then NaN else if 0 < s then PInf else NInf)"

fun js_sign :: "jsnum \<Rightarrow> rat" where
  "js_sign (Fin a) = sgn a"
| "js_sign PInf = 1"
| "js_sign NInf = - 1"
| "js_sign NaN = 0"

fun js_neg :: "jsnum \<Rightarrow> jsnum" where
  "js_neg (Fin a) = Fin (- a)"
| "js_neg PInf = NInf"
| "js_neg NInf = PInf"
| "js_neg NaN = NaN"

fun js_add :: "jsnum \<Rightarrow> jsnum \<Rightarrow> jsnum" where
  "js_add NaN b = NaN"
| "js_add a NaN = NaN"
| "js_add (Fin a) (Fin b) = Fin (a + b)"
| "js_add PInf NInf = NaN"
| "js_add NInf PInf = NaN"
| "js_add PInf b = PInf"
| "js_add NInf b = NInf"
| "js_add a PInf = PInf"
| "js_add a NInf = NInf"

definition js_sub :: "jsnum \<Rightarrow> jsnum \<Rightarrow> jsnum" where
  "js_sub a b = js_add a (js_neg b)"

fun js_mul :: "jsnum \<Rightarrow> jsnum \<Rightarrow> jsnum" where
  "js_mul NaN b = NaN"
| "js_mul a NaN = NaN"
| "js_mul (Fin a) (Fin b) = Fin (a * b)"
| "js_mul a b = inf_of_sign (js_sign a * js_sign b)"

fun js_div :: "jsnum \<Rightarrow> jsnum \<Rightarrow> jsnum" where
  "js_div NaN b = NaN"
| "js_div a NaN = NaN"
| "js_div (Fin a) (Fin b) = (if b = 0 then inf_of_sign (sgn a) else Fin (a / b))"
| "js_div (Fin a) b = Fin 0"
| "js_div a (Fin b) = inf_of_sign (js_sign a * (if b = 0 then 1 else sgn b))"
| "js_div a b = NaN"

text \<open>Comparisons are false as soon as one side is \<open>NaN\<close>.\<close>

fun js_le :: "jsnum \<Rightarrow> jsnum \<Rightarrow> bool" where
  "js_le NaN b = False"
| "js_le a NaN = False"
| "js_le (Fin a) (Fin b) = (a \<le> b)"
| "js_le NInf b = True"
| "js_le a PInf = True"
| "js_le a b = False"

fun js_lt :: "jsnum \<Rightarrow> jsnum \<Rightarrow> bool" where
  "js_lt NaN b = False"
| "js_lt a NaN = False"
| "js_lt (Fin a) (Fin b) = (a < b)"
| "js_lt PInf b = False"
| "js_lt a NInf = False"
| "js_lt a b = True"

definition js_ge :: "jsnum \<Rightarrow> jsnum \<Rightarrow> bool" where
  "js_ge a b = js_le b a"

text \<open>\<open>Math.min\<close> and \<open>Math.max\<close> return \<open>NaN\<close> when an argument is \<open>NaN\<close>.\<close>

fun Math_min :: "jsnum \<Rightarrow> jsnum \<Rightarrow> jsnum" where
  "Math_min NaN b = NaN"
| "Math_min a NaN = NaN"
| "Math_min (Fin a) (Fin b) = Fin (min a b)"
| "Math_min NInf b = NInf"
| "Math_min a NInf = NInf"
| "Math_min PInf b = b"
| "Math_min a PInf = a"

fun Math_max :: "jsnum \<Rightarrow> jsnum \<Rightarrow> jsnum" where
  "Math_max NaN b = NaN"
| "Math_max a NaN = NaN"
| "Math_max (Fin a) (Fin b) = Fin (max a b)"
| "Math_max PInf b = PInf"
| "Math_max a PInf = PInf"
| "Math_max NInf b = b"
| "Math_max a NInf = a"

fun Math_floor :: "jsnum \<Rightarrow> jsnum" where
  "Math_floor (Fin a) = Fin (of_int \<lfloor>a\<rfloor>)"
| "Math_floor a = a"

fun Math_ceil :: "jsnum \<Rightarrow> jsnum" where
  "Math_ceil (Fin a) = Fin (of_int \<lceil>a\<rceil>)"
| "Math_ceil a = a"

fun is_Fin :: "jsnum \<Rightarrow> bool" where
  "is_Fin (Fin a) = True"
| "is_Fin a = False"

fun the_Fin :: "jsnum \<Rightarrow> rat" where
  "the_Fin (Fin a) = a"
| "the_Fin a = 0"


section \<open>Data model\<close>

text \<open>
  A \<open>File\<close> of the folder picker: its \<open>name\<close> (the base name, which two files of
  different sub-folders can share) and a handle on its content.
\<close>

record jsfile =
  name :: string
  blob :: nat

text \<open>
  What the core reads of a decoded PLY geometry: its bounding box
  (\<open>geometry.boundingBox.min.x\<close> ...). The PLY loader is an external collaborator: a
  function from files to decoded geometries, \<open>None\<close> when the loader calls its error
  callback.
\<close>

record geometry =
  bbox_min_x :: jsnum
  bbox_min_y :: jsnum
  bbox_min_z :: jsnum
  bbox_max_x :: jsnum
  bbox_max_y :: jsnum
  bbox_max_z :: jsnum

type_synonym plyloader = "jsfile \<Rightarrow> geometry option"

text \<open>The object \<open>extractCoordinatesFromFile\<close> resolves with.\<close>

record coords =
  centerX :: jsnum
  centerY :: jsnum
  centerZ :: jsnum
  extentX :: jsnum
  extentY :: jsnum
  extentZ :: jsnum
  c_minX :: jsnum
  c_maxX :: jsnum
  c_minY :: jsnum
  c_maxY :: jsnum
  c_minZ :: jsnum
  c_maxZ :: jsnum

text \<open>
  A tile key is the string \<open>`${tileX},${tileY}`\<close>. Two such strings are equal exactly
  when both numbers are (\<open>NaN\<close> prints as \<open>NaN\<close>, so it is equal to itself as a key), so
  the key is modelled as the pair of numbers.
\<close>

type_synonym tilekey = "jsnum \<times> jsnum"

definition tileKey :: "jsnum \<Rightarrow> jsnum \<Rightarrow> tilekey" where
  "tileKey tx ty = (tx, ty)"

text \<open>An element of a tile's array in \<open>allTileFiles\<close>; \<open>tf_file\<close> is its field \<open>file\<close>.\<close>

record tileFile =
  tf_file :: jsfile
  originalCoords :: coords
  tileX :: jsnum
  tileY :: jsnum

text \<open>
  A \<open>THREE.Points\<close> object. Objects have identity: \<open>pid\<close> is the allocation
  number of the object, \<open>source\<close> the file whose geometry it shows.
\<close>

record points =
  pid :: nat
  source :: jsfile

datatype object3d = AmbientLight | DirectionalLight | PointsObj points

text \<open>
  What the code reports: \<open>alert\<close>, \<open>console.error\<close> and \<open>console.warn\<close> calls, by
  call site and with the value interpolated into the message. \<open>console.log\<close> and the
  status line are not modelled.
\<close>

datatype event =
    AlertNoPlyFiles
  | AlertLoadFirst
  | ErrorAnalyzing string
  | ErrorLoading string
  | WarnOnlyFiles nat
  | WarnNoCoordinates string

fun is_console_error :: "event \<Rightarrow> bool" where
  "is_console_error (ErrorAnalyzing n) = True"
| "is_console_error (ErrorLoading n) = True"
| "is_console_error e = False"

fun is_console_warn :: "event \<Rightarrow> bool" where
  "is_console_warn (WarnOnlyFiles n) = True"
| "is_console_warn (WarnNoCoordinates n) = True"
| "is_console_warn e = False"

fun is_alert :: "event \<Rightarrow> bool" where
  "is_alert AlertNoPlyFiles = True"
| "is_alert AlertLoadFirst = True"
| "is_alert e = False"

text \<open>
  The fields of \<open>PointCloudVisualizer\<close> that the tile logic reads or writes. A
  JavaScript \<open>Map\<close> iterates in insertion order and \<open>set\<close> on a present key keeps its
  place: an association list with \<open>AList.update\<close>. \<open>scene\<close> is the list of the scene's
  children, \<open>nextId\<close> the number of \<open>Points\<close> objects allocated so far, \<open>events\<close> the
  reports made so far. The camera, the controls and \<open>tileGrid\<close> (only ever cleared)
  are left out.
\<close>

record state =
  plyFiles :: "jsfile list"
  fileCoordinates :: "(string \<times> coords) list"
  allTileFiles :: "(tilekey \<times> tileFile list) list"
  initialTileFiles :: "(tilekey \<times> tileFile list) list"
  initialTilesLoaded :: bool
  currentTile :: tilekey
  tileSize :: jsnum
  minX :: jsnum
  maxX :: jsnum
  minY :: jsnum
  maxY :: jsnum
  loadedPointClouds :: "(string \<times> points) list"
  currentPointClouds :: "points list"
  scene :: "object3d list"
  nextId :: nat
  events :: "event list"

text \<open>The state the constructor and \<open>init\<close> leave.\<close>

definition constructor :: state where
  "constructor =
     \<lparr> plyFiles = [], fileCoordinates = [], allTileFiles = [], initialTileFiles = [],
       initialTilesLoaded = False, currentTile = (Fin 0, Fin 0), tileSize = Fin 50,
       minX = Fin 0, maxX = Fin 0, minY = Fin 0, maxY = Fin 0,
       loadedPointClouds = [], currentPointClouds = [],
       scene = [AmbientLight, DirectionalLight], nextId = 0, events = [] \<rparr>"


section \<open>Analysis and organization, dense variant\<close>

definition extractCoordinatesFromFile :: "plyloader \<Rightarrow> jsfile \<Rightarrow> coords option" where
  "extractCoordinatesFromFile ply f =
     (case ply f of
        None \<Rightarrow> None
      | Some bbox \<Rightarrow>
          Some \<lparr> centerX = js_div (js_add (bbox_max_x bbox) (bbox_min_x bbox)) (Fin 2),
                 centerY = js_div (js_add (bbox_max_y bbox) (bbox_min_y bbox)) (Fin 2),
                 centerZ = js_div (js_add (bbox_max_z bbox) (bbox_min_z bbox)) (Fin 2),
                 extentX = js_sub (bbox_max_x bbox) (bbox_min_x bbox),
                 extentY = js_sub (bbox_max_y bbox) (bbox_min_y bbox),
                 extentZ = js_sub (bbox_max_z bbox) (bbox_min_z bbox),
                 c_minX = bbox_min_x bbox, c_maxX = bbox_max_x bbox,
                 c_minY = bbox_min_y bbox, c_maxY = bbox_max_y bbox,
                 c_minZ = bbox_min_z bbox, c_maxZ = bbox_max_z bbox \<rparr>)"

text \<open>One turn of the loop of \<open>analyzeAllFiles\<close>: the \<open>catch\<close> reports and goes on.\<close>

definition analyzeFile :: "plyloader \<Rightarrow> jsfile \<Rightarrow> state \<Rightarrow> state" where
  "analyzeFile ply f s =
     (case extractCoordinatesFromFile ply f of
        Some coordinates \<Rightarrow>
          s\<lparr>fileCoordinates := AList.update (name f) coordinates (fileCoordinates s)\<rparr>
      | None \<Rightarrow> s\<lparr>events := events s @ [ErrorAnalyzing (name f)]\<rparr>)"

definition analyzeAllFiles :: "plyloader \<Rightarrow> state \<Rightarrow> state" where
  "analyzeAllFiles ply s = fold (analyzeFile ply) (plyFiles s) (s\<lparr>fileCoordinates := []\<rparr>)"

text \<open>The first loop of \<open>calculateGridOrganization\<close>, on \<open>(minX, maxX, minY, maxY)\<close>.\<close>

fun bounds_step :: "coords \<Rightarrow> jsnum \<times> jsnum \<times> jsnum \<times> jsnum \<Rightarrow> jsnum \<times> jsnum \<times> jsnum \<times> jsnum" where
  "bounds_step c (mnX, mxX, mnY, mxY) =
     (Math_min mnX (c_minX c), Math_max mxX (c_maxX c),
      Math_min mnY (c_minY c), Math_max mxY (c_maxY c))"

text \<open>The second loop, on \<open>(totalExtentX, totalExtentY, fileCount)\<close>.\<close>

fun extent_step :: "coords \<Rightarrow> jsnum \<times> jsnum \<times> jsnum \<Rightarrow> jsnum \<times> jsnum \<times> jsnum" where
  "extent_step c (totalExtentX, totalExtentY, fileCount) =
     (js_add totalExtentX (extentX c), js_add totalExtentY (extentY c),
      js_add fileCount (Fin 1))"

text \<open>\<open>Math.ceil((this.maxX - this.minX) / this.tileSize)\<close> and its \<open>Y\<close> twin.\<close>

definition totalTilesX :: "state \<Rightarrow> jsnum" where
  "totalTilesX s = Math_ceil (js_div (js_sub (maxX s) (minX s)) (tileSize s))"

definition totalTilesY :: "state \<Rightarrow> jsnum" where
  "totalTilesY s = Math_ceil (js_div (js_sub (maxY s) (minY s)) (tileSize s))"

text \<open>
  One turn of the loop of \<open>organizeFilesIntoTiles\<close>, on \<open>allTileFiles\<close>: the entry
  \<open>[filename, coords]\<close> of \<open>fileCoordinates\<close> is pushed on the array of its tile.
\<close>

definition organizeEntry ::
  "state \<Rightarrow> string \<times> coords \<Rightarrow> (tilekey \<times> tileFile list) list \<Rightarrow> (tilekey \<times> tileFile list) list"
where
  "organizeEntry s e tiles =
     (let filename = fst e; coords = snd e;
          tX = Math_floor (js_div (js_sub (centerX coords) (minX s)) (tileSize s));
          tY = Math_floor (js_div (js_sub (centerY coords) (minY s)) (tileSize s));
          key = tileKey tX tY
      in case find (\<lambda>f. name f = filename) (plyFiles s) of
           None \<Rightarrow> tiles
         | Some fl \<Rightarrow>
             AList.map_entry key
               (\<lambda>arr. arr @ [\<lparr>tf_file = fl, originalCoords = coords, tileX = tX, tileY = tY\<rparr>])
               (if map_of tiles key = None then AList.update key [] tiles else tiles))"

definition organizeFilesIntoTiles :: "state \<Rightarrow> state" where
  "organizeFilesIntoTiles s =
     (let s1 = s\<lparr>allTileFiles := fold (organizeEntry s) (fileCoordinates s) []\<rparr>
      in s1\<lparr>currentTile :=
              (Math_floor (js_div (totalTilesX s1) (Fin 2)),
               Math_floor (js_div (totalTilesY s1) (Fin 2)))\<rparr>)"

text \<open>
  \<open>calculateGridOrganization\<close> with the multiplier as a parameter: the dense variant
  multiplies by \<open>1.2\<close>, the fixed variant by \<open>2.0\<close>, and they organize differently.
\<close>

definition calculateGrid :: "rat \<Rightarrow> (state \<Rightarrow> state) \<Rightarrow> state \<Rightarrow> state" where
  "calculateGrid k organize s =
     (if length (fileCoordinates s) = 0 then s
      else
        let cs = map snd (fileCoordinates s);
            (mnX, mxX, mnY, mxY) = fold bounds_step cs (PInf, NInf, PInf, NInf);
            (totalExtentX, totalExtentY, fileCount) = fold extent_step cs (Fin 0, Fin 0, Fin 0);
            avgExtentX = js_div totalExtentX fileCount;
            avgExtentY = js_div totalExtentY fileCount
        in organize
             (s\<lparr>minX := mnX, maxX := mxX, minY := mnY, maxY := mxY,
                tileSize := js_mul (Math_max avgExtentX avgExtentY) (Fin k)\<rparr>))"

definition calculateGridOrganization :: "state \<Rightarrow> state" where
  "calculateGridOrganization = calculateGrid (6 / 5) organizeFilesIntoTiles"


section \<open>Loading and unloading point clouds\<close>

text \<open>
  An asynchronous function either resolves or rejects; both leave a state behind. The
  functions below run one call to its end: calls are not interleaved.
\<close>

datatype completion = Resolved | Rejected

text \<open>\<open>map.get(key) || []\<close>: an array, even an empty one, is truthy.\<close>

definition get_or_empty :: "('k \<times> 'v list) list \<Rightarrow> 'k \<Rightarrow> 'v list" where
  "get_or_empty m k = (case map_of m k of None \<Rightarrow> [] | Some arr \<Rightarrow> arr)"

text \<open>
  \<open>scene.remove(object)\<close> splices the object out of the children at its
  \<open>indexOf\<close>; \<open>scene.add\<close> of a new object pushes it.
\<close>

definition scene_remove :: "points \<Rightarrow> object3d list \<Rightarrow> object3d list" where
  "scene_remove p children = remove1 (PointsObj p) children"

definition clearCurrentPointClouds :: "state \<Rightarrow> state" where
  "clearCurrentPointClouds s =
     s\<lparr>scene := fold scene_remove (currentPointClouds s) (scene s),
       currentPointClouds := []\<rparr>"

definition clearAllPointClouds :: "state \<Rightarrow> state" where
  "clearAllPointClouds s = (clearCurrentPointClouds s)\<lparr>loadedPointClouds := []\<rparr>"

text \<open>
  \<open>loadFileForTile\<close>: the loader's success callback builds a new \<open>Points\<close> object and
  records it in \<open>loadedPointClouds\<close>, \<open>currentPointClouds\<close> and the scene; its error
  callback reports and rejects. The fixed variant differs only in where it places the
  object in the scene's space, which is not modelled.
\<close>

definition loadFileForTile :: "plyloader \<Rightarrow> tileFile \<Rightarrow> state \<Rightarrow> completion \<times> state" where
  "loadFileForTile ply tf s =
     (case ply (tf_file tf) of
        Some geometry \<Rightarrow>
          (let pts = \<lparr>pid = nextId s, source = tf_file tf\<rparr>
           in (Resolved,
               s\<lparr>loadedPointClouds := AList.update (name (tf_file tf)) pts (loadedPointClouds s),
                 currentPointClouds := currentPointClouds s @ [pts],
                 scene := scene s @ [PointsObj pts],
                 nextId := Suc (nextId s)\<rparr>))
      | None \<Rightarrow> (Rejected, s\<lparr>events := events s @ [ErrorLoading (name (tf_file tf))]\<rparr>))"

text \<open>
  \<open>for (const tileFile of filesToLoad) await this.loadFileForTile(tileFile)\<close>: a
  rejected load throws out of the loop.
\<close>

fun loadFiles :: "plyloader \<Rightarrow> tileFile list \<Rightarrow> state \<Rightarrow> completion \<times> state" where
  "loadFiles ply [] s = (Resolved, s)"
| "loadFiles ply (tf # tfs) s =
     (case loadFileForTile ply tf s of
        (Resolved, s') \<Rightarrow> loadFiles ply tfs s'
      | (Rejected, s') \<Rightarrow> (Rejected, s'))"

definition loadCurrentTile :: "plyloader \<Rightarrow> state \<Rightarrow> completion \<times> state" where
  "loadCurrentTile ply s =
     (let s1 = clearCurrentPointClouds s;
          key = tileKey (fst (currentTile s1)) (snd (currentTile s1));
          filesToLoad =
            (if initialTilesLoaded s1 then get_or_empty (allTileFiles s1) key
             else get_or_empty (initialTileFiles s1) key)
      in loadFiles ply filesToLoad s1)"

text \<open>The body of the two loops of \<open>loadInitialTiles\<close>, for the tile \<open>(x, y)\<close>.\<close>

definition loadInitialTile :: "plyloader \<Rightarrow> jsnum \<Rightarrow> jsnum \<Rightarrow> state \<Rightarrow> completion \<times> state" where
  "loadInitialTile ply x y s =
     (let key = tileKey x y
      in case get_or_empty (allTileFiles s) key of
           [] \<Rightarrow> (Resolved, s)
         | firstFile # rest \<Rightarrow>
             loadFileForTile ply firstFile
               (s\<lparr>initialTileFiles := AList.update key [firstFile] (initialTileFiles s)\<rparr>))"

text \<open>
  \<open>for (let y = centerY - 1; y <= centerY + 1; y++)\<close> and the same loop on \<open>x\<close>
  around it (\<open>cX\<close>, \<open>cY\<close> are \<open>centerX\<close>, \<open>centerY\<close>). On a finite centre each makes three turns; on \<open>NaN\<close> none; on an infinite
  centre the loop never ends, which is the value \<open>None\<close>.
\<close>

partial_function (option) loadInitialTiles_y ::
  "plyloader \<Rightarrow> jsnum \<Rightarrow> jsnum \<Rightarrow> jsnum \<Rightarrow> state \<Rightarrow> (completion \<times> state) option"
where
  "loadInitialTiles_y ply x y cY s =
     (if js_le y (js_add cY (Fin 1)) then
        (case loadInitialTile ply x y s of
           (Resolved, s') \<Rightarrow> loadInitialTiles_y ply x (js_add y (Fin 1)) cY s'
         | (Rejected, s') \<Rightarrow> Some (Rejected, s'))
      else Some (Resolved, s))"

partial_function (option) loadInitialTiles_x ::
  "plyloader \<Rightarrow> jsnum \<Rightarrow> jsnum \<Rightarrow> jsnum \<Rightarrow> state \<Rightarrow> (completion \<times> state) option"
where
  "loadInitialTiles_x ply x cX cY s =
     (if js_le x (js_add cX (Fin 1)) then
        (case loadInitialTiles_y ply x (js_sub cY (Fin 1)) cY s of
           None \<Rightarrow> None
         | Some (Resolved, s') \<Rightarrow> loadInitialTiles_x ply (js_add x (Fin 1)) cX cY s'
         | Some (Rejected, s') \<Rightarrow> Some (Rejected, s'))
      else Some (Resolved, s))"

declare loadInitialTiles_y.simps [code]
declare loadInitialTiles_x.simps [code]

definition loadInitialTiles :: "plyloader \<Rightarrow> state \<Rightarrow> (completion \<times> state) option" where
  "loadInitialTiles ply s =
     (let s1 = (clearCurrentPointClouds s)\<lparr>initialTileFiles := []\<rparr>;
          centerX = fst (currentTile s1);
          centerY = snd (currentTile s1)
      in case loadInitialTiles_x ply (js_sub centerX (Fin 1)) centerX centerY s1 of
           None \<Rightarrow> None
         | Some (Resolved, s') \<Rightarrow> Some (Resolved, s'\<lparr>initialTilesLoaded := True\<rparr>)
         | Some (Rejected, s') \<Rightarrow> Some (Rejected, s'))"


section \<open>Folder selection and navigation, dense variant\<close>

text \<open>\<open>toLowerCase\<close> on the ASCII letters, and \<open>endsWith\<close>.\<close>

definition toLowerCase :: "string \<Rightarrow> string" where
  "toLowerCase str =
     map (\<lambda>c. if 65 \<le> (of_char c :: nat) \<and> (of_char c :: nat) \<le> 90
              then char_of ((of_char c :: nat) + 32) else c) str"

definition endsWith :: "string \<Rightarrow> string \<Rightarrow> bool" where
  "endsWith str suf = (length suf \<le> length str \<and> drop (length str - length suf) str = suf)"

text \<open>
  \<open>handleFolderSelection\<close> on the files of the selected folder. The loader is asked
  twice for a tiled file, once by the analysis (\<open>ply\<close>) and once by the load (\<open>ply'\<close>);
  the two answers are not assumed to agree.
\<close>

definition handleFolderSelection ::
  "plyloader \<Rightarrow> plyloader \<Rightarrow> jsfile list \<Rightarrow> state \<Rightarrow> (completion \<times> state) option"
where
  "handleFolderSelection ply ply' target_files s =
     (let files = filter (\<lambda>f. endsWith (toLowerCase (name f)) ''.ply'') target_files
      in if length files = 0 then Some (Resolved, s\<lparr>events := events s @ [AlertNoPlyFiles]\<rparr>)
         else loadInitialTiles ply'
                (calculateGridOrganization
                  (analyzeAllFiles ply (s\<lparr>plyFiles := files, initialTilesLoaded := False\<rparr>))))"

definition isValidTilePosition :: "state \<Rightarrow> jsnum \<Rightarrow> jsnum \<Rightarrow> bool" where
  "isValidTilePosition s tX tY =
     (js_ge tX (Fin 0) \<and> js_lt tX (totalTilesX s) \<and> js_ge tY (Fin 0) \<and> js_lt tY (totalTilesY s))"

text \<open>The \<open>switch\<close> of \<open>navigate\<close>: the tile a direction leads to.\<close>

definition destination :: "string \<Rightarrow> tilekey \<Rightarrow> tilekey" where
  "destination direction t =
     (if direction = ''left'' then (js_sub (fst t) (Fin 1), snd t)
      else if direction = ''right'' then (js_add (fst t) (Fin 1), snd t)
      else if direction = ''up'' then (fst t, js_add (snd t) (Fin 1))
      else if direction = ''down'' then (fst t, js_sub (snd t) (Fin 1))
      else t)"

text \<open>
  \<open>navigate\<close> does not await \<open>loadCurrentTile\<close>; the state is the one left when the
  load it started has come to its end, resolved or rejected.
\<close>

definition navigate :: "plyloader \<Rightarrow> string \<Rightarrow> state \<Rightarrow> state" where
  "navigate ply direction s =
     (if length (allTileFiles s) = 0 then s\<lparr>events := events s @ [AlertLoadFirst]\<rparr>
      else
        let newTileX = fst (destination direction (currentTile s));
            newTileY = snd (destination direction (currentTile s));
            newTileKey = tileKey newTileX newTileY
        in if map_of (allTileFiles s) newTileKey \<noteq> None \<or> isValidTilePosition s newTileX newTileY
           then snd (loadCurrentTile ply (s\<lparr>currentTile := (newTileX, newTileY)\<rparr>))
           else s)"


section \<open>The fixed 3x3 variant\<close>

text \<open>
  The second version of the class has the same fields, analysis and unloading. It
  differs in the multiplier of the tile size, in \<open>organizeFilesIntoTiles\<close>,
  \<open>loadInitialTiles\<close>, \<open>loadCurrentTile\<close> and \<open>navigate\<close>; these carry the suffix
  \<open>_fixed\<close>.
\<close>

text \<open>The first pair of loops: all nine tiles are set to the empty array.\<close>

definition initTiles_fixed :: "(tilekey \<times> tileFile list) list" where
  "initTiles_fixed =
     fold (\<lambda>x. fold (\<lambda>y. AList.update (tileKey (Fin (of_nat x)) (Fin (of_nat y))) []) [0..<3])
       [0..<3] []"

text \<open>
  The body of the second pair of loops, on \<open>fileIndex\<close> and the state:
  \<open>filesToUse[fileIndex]\<close> is read under the guard \<open>fileIndex < filesToUse.length\<close>.
\<close>

definition assignTile_fixed :: "jsfile list \<Rightarrow> nat \<Rightarrow> nat \<Rightarrow> nat \<times> state \<Rightarrow> nat \<times> state" where
  "assignTile_fixed filesToUse x y acc =
     (let fileIndex = fst acc; s = snd acc
      in if fileIndex < length filesToUse then
           (let fl = filesToUse ! fileIndex;
                key = tileKey (Fin (of_nat x)) (Fin (of_nat y))
            in (Suc fileIndex,
                (case map_of (fileCoordinates s) (name fl) of
                   Some coords \<Rightarrow>
                     s\<lparr>allTileFiles :=
                         AList.update key
                           [\<lparr>tf_file = fl, originalCoords = coords,
                             tileX = Fin (of_nat x), tileY = Fin (of_nat y)\<rparr>]
                           (allTileFiles s)\<rparr>
                 | None \<Rightarrow> s\<lparr>events := events s @ [WarnNoCoordinates (name fl)]\<rparr>)))
         else (fileIndex, s))"

definition organizeFilesIntoTiles_fixed :: "state \<Rightarrow> state" where
  "organizeFilesIntoTiles_fixed s =
     (let s1 = s\<lparr>allTileFiles := initTiles_fixed\<rparr>;
          filesToUse = take 9 (plyFiles s1);
          s2 = (if length filesToUse < 9
                then s1\<lparr>events := events s1 @ [WarnOnlyFiles (length filesToUse)]\<rparr> else s1);
          s3 = snd (fold (\<lambda>x. fold (\<lambda>y. assignTile_fixed filesToUse x y) [0..<3]) [0..<3] (0, s2))
      in s3\<lparr>currentTile := (Fin 1, Fin 1)\<rparr>)"

definition calculateGridOrganization_fixed :: "state \<Rightarrow> state" where
  "calculateGridOrganization_fixed = calculateGrid 2 organizeFilesIntoTiles_fixed"

text \<open>\<open>if (tileFiles && tileFiles.length > 0)\<close> holds of a present, non-empty array.\<close>

definition loadInitialTiles_fixed :: "plyloader \<Rightarrow> state \<Rightarrow> completion \<times> state" where
  "loadInitialTiles_fixed ply s =
     (let s1 = (clearCurrentPointClouds s)\<lparr>initialTileFiles := []\<rparr>;
          key = tileKey (fst (currentTile s1)) (snd (currentTile s1));
          r = (case map_of (allTileFiles s1) key of
                 Some (tf # rest) \<Rightarrow>
                   loadFileForTile ply tf
                     (s1\<lparr>initialTileFiles := AList.update key [tf] (initialTileFiles s1)\<rparr>)
               | _ \<Rightarrow> (Resolved, s1))
      in case r of
           (Resolved, s') \<Rightarrow> (Resolved, s'\<lparr>initialTilesLoaded := True\<rparr>)
         | (Rejected, s') \<Rightarrow> (Rejected, s'))"

definition loadCurrentTile_fixed :: "plyloader \<Rightarrow> state \<Rightarrow> completion \<times> state" where
  "loadCurrentTile_fixed ply s =
     (let s1 = clearCurrentPointClouds s;
          key = tileKey (fst (currentTile s1)) (snd (currentTile s1))
      in loadFiles ply (get_or_empty (allTileFiles s1) key) s1)"

definition handleFolderSelection_fixed ::
  "plyloader \<Rightarrow> plyloader \<Rightarrow> jsfile list \<Rightarrow> state \<Rightarrow> completion \<times> state"
where
  "handleFolderSelection_fixed ply ply' target_files s =
     (let files = filter (\<lambda>f. endsWith (toLowerCase (name f)) ''.ply'') target_files
      in if length files = 0 then (Resolved, s\<lparr>events := events s @ [AlertNoPlyFiles]\<rparr>)
         else loadInitialTiles_fixed ply'
                (calculateGridOrganization_fixed
                  (analyzeAllFiles ply (s\<lparr>plyFiles := files, initialTilesLoaded := False\<rparr>))))"

definition navigate_fixed :: "plyloader \<Rightarrow> string \<Rightarrow> state \<Rightarrow> state" where
  "navigate_fixed ply direction s =
     (if length (allTileFiles s) = 0 then s\<lparr>events := events s @ [AlertLoadFirst]\<rparr>
      else
        let newTileX = fst (destination direction (currentTile s));
            newTileY = snd (destination direction (currentTile s))
        in if js_ge newTileX (Fin 0) \<and> js_lt newTileX (Fin 3) \<and>
              js_ge newTileY (Fin 0) \<and> js_lt newTileY (Fin 3)
           then
             (let tileFiles = get_or_empty (allTileFiles s) (tileKey newTileX newTileY)
              in if length tileFiles > 0
                 then snd (loadCurrentTile_fixed ply (s\<lparr>currentTile := (newTileX, newTileY)\<rparr>))
                 else s)
           else s)"


section \<open>Reachable states\<close>

text \<open>
  The states of a session: the constructor's, and those a folder selection that comes
  to its end, or a click on a navigation button, makes of a reachable state.
\<close>

inductive reachable :: "state \<Rightarrow> bool" where
  reach_constructor: "reachable constructor"
| reach_folder:
    "reachable s \<Longrightarrow> handleFolderSelection ply ply' target_files s = Some (c, s') \<Longrightarrow> reachable s'"
| reach_navigate: "reachable s \<Longrightarrow> reachable (navigate ply direction s)"

inductive reachable_fixed :: "state \<Rightarrow> bool" where
  reachf_constructor: "reachable_fixed constructor"
| reachf_folder:
    "reachable_fixed s \<Longrightarrow> handleFolderSelection_fixed ply ply' target_files s = (c, s') \<Longrightarrow>
     reachable_fixed s'"
| reachf_navigate: "reachable_fixed s \<Longrightarrow> reachable_fixed (navigate_fixed ply direction s)"


section \<open>Notions used in the statements\<close>

text \<open>All the elements of all the arrays of a tile map, in the map's order.\<close>

definition tileEntries :: "(tilekey \<times> tileFile list) list \<Rightarrow> tileFile list" where
  "tileEntries tiles = concat (map snd tiles)"

text \<open>
  The element that one turn of the loop of \<open>organizeFilesIntoTiles\<close> pushes for an
  entry of \<open>fileCoordinates\<close>, if \<open>plyFiles.find\<close> finds a file of that name.
\<close>

definition entryFor :: "state \<Rightarrow> string \<times> coords \<Rightarrow> tileFile option" where
  "entryFor s e =
     (case find (\<lambda>f. name f = fst e) (plyFiles s) of
        None \<Rightarrow> None
      | Some fl \<Rightarrow>
          Some \<lparr>tf_file = fl, originalCoords = snd e,
                tileX = Math_floor (js_div (js_sub (centerX (snd e)) (minX s)) (tileSize s)),
                tileY = Math_floor (js_div (js_sub (centerY (snd e)) (minY s)) (tileSize s))\<rparr>)"

text \<open>A decoded geometry whose bounding box is made of finite numbers.\<close>

definition finite_geometry :: "geometry \<Rightarrow> bool" where
  "finite_geometry g =
     (is_Fin (bbox_min_x g) \<and> is_Fin (bbox_min_y g) \<and> is_Fin (bbox_min_z g) \<and>
      is_Fin (bbox_max_x g) \<and> is_Fin (bbox_max_y g) \<and> is_Fin (bbox_max_z g))"

definition finite_coords :: "coords \<Rightarrow> bool" where
  "finite_coords c =
     (is_Fin (centerX c) \<and> is_Fin (centerY c) \<and> is_Fin (extentX c) \<and> is_Fin (extentY c) \<and>
      is_Fin (c_minX c) \<and> is_Fin (c_maxX c) \<and> is_Fin (c_minY c) \<and> is_Fin (c_maxY c))"


text \<open>
  What the loop of \<open>analyzeAllFiles\<close> makes of \<open>fileCoordinates\<close>: a file whose
  extraction succeeds sets the entry of its name.
\<close>

definition analyzed :: "plyloader \<Rightarrow> jsfile list \<Rightarrow> (string \<times> coords) list \<Rightarrow> (string \<times> coords) list" where
  "analyzed ply fs m =
     fold (\<lambda>f m. case extractCoordinatesFromFile ply f of
                    Some c \<Rightarrow> AList.update (name f) c m | None \<Rightarrow> m) fs m"

text \<open>
  The push of \<open>organizeFilesIntoTiles\<close>: \<open>if (!has(key)) set(key, [])\<close>, then
  \<open>get(key).push(tf)\<close>.
\<close>

definition pushTile ::
  "tilekey \<Rightarrow> tileFile \<Rightarrow> (tilekey \<times> tileFile list) list \<Rightarrow> (tilekey \<times> tileFile list) list"
where
  "pushTile key tf tiles =
     AList.map_entry key (\<lambda>arr. arr @ [tf])
       (if map_of tiles key = None then AList.update key [] tiles else tiles)"

text \<open>Every array of the map is non-empty and holds elements of its own key.\<close>

definition keyed :: "(tilekey \<times> tileFile list) list \<Rightarrow> bool" where
  "keyed tiles \<longleftrightarrow>
     (\<forall>k arr. map_of tiles k = Some arr \<longrightarrow>
        arr \<noteq> [] \<and> (\<forall>tf\<in>set arr. k = tileKey (tileX tf) (tileY tf)))"

text \<open>A bounding box whose minimum is not above its maximum, on the two tiled axes.\<close>

definition ordered_box :: "geometry \<Rightarrow> bool" where
  "ordered_box g = (js_le (bbox_min_x g) (bbox_max_x g) \<and> js_le (bbox_min_y g) (bbox_max_y g))"


section \<open>Example inputs\<close>

text \<open>
  Two files and a loader. \<open>a.ply\<close> spans \<open>[0, 10] x [0, 10]\<close>; \<open>b.ply\<close> is flat in
  \<open>x\<close>: it spans \<open>[12, 12] x [0, 10]\<close>. Every other file fails to decode.
\<close>

definition box2 :: "rat \<Rightarrow> rat \<Rightarrow> rat \<Rightarrow> rat \<Rightarrow> geometry" where
  "box2 x0 x1 y0 y1 =
     \<lparr>bbox_min_x = Fin x0, bbox_min_y = Fin y0, bbox_min_z = Fin 0,
      bbox_max_x = Fin x1, bbox_max_y = Fin y1, bbox_max_z = Fin 0\<rparr>"

definition cloudA :: jsfile where
  "cloudA = \<lparr>name = ''a.ply'', blob = 0\<rparr>"

definition cloudB :: jsfile where
  "cloudB = \<lparr>name = ''b.ply'', blob = 1\<rparr>"

definition cloudC :: jsfile where
  "cloudC = \<lparr>name = ''c.ply'', blob = 2\<rparr>"

definition loaderAB :: plyloader where
  "loaderAB f =
     (if name f = ''a.ply'' then Some (box2 0 10 0 10)
      else if name f = ''b.ply'' then Some (box2 12 12 0 10)
      else None)"

text \<open>
  The state \<open>calculateGridOrganization\<close> hands to \<open>organizeFilesIntoTiles\<close>: the bounds
  and the tile size are set from \<open>fileCoordinates\<close>.
\<close>

definition gridFrame :: "rat \<Rightarrow> state \<Rightarrow> state" where
  "gridFrame k s =
     s\<lparr>minX := fold (\<lambda>c m. Math_min m (c_minX c)) (map snd (fileCoordinates s)) PInf,
       maxX := fold (\<lambda>c m. Math_max m (c_maxX c)) (map snd (fileCoordinates s)) NInf,
       minY := fold (\<lambda>c m. Math_min m (c_minY c)) (map snd (fileCoordinates s)) PInf,
       maxY := fold (\<lambda>c m. Math_max m (c_maxY c)) (map snd (fileCoordinates s)) NInf,
       tileSize :=
         js_mul
           (Math_max
              (js_div (fold (\<lambda>c t. js_add t (extentX c)) (map snd (fileCoordinates s)) (Fin 0))
                      (fold (\<lambda>c n. js_add n (Fin 1)) (map snd (fileCoordinates s)) (Fin 0)))
              (js_div (fold (\<lambda>c t. js_add t (extentY c)) (map snd (fileCoordinates s)) (Fin 0))
                      (fold (\<lambda>c n. js_add n (Fin 1)) (map snd (fileCoordinates s)) (Fin 0))))
           (Fin k)\<rparr>"

text \<open>
  A second loader: \<open>a.ply\<close> as before, and \<open>c.ply\<close> spanning \<open>[2, 8] x [2, 8]\<close>, so
  that both have their centre at \<open>(5, 5)\<close>. A third loader decodes \<open>c.ply\<close> only.
\<close>

definition loaderAC :: plyloader where
  "loaderAC f =
     (if name f = ''a.ply'' then Some (box2 0 10 0 10)
      else if name f = ''c.ply'' then Some (box2 2 8 2 8)
      else None)"

definition loaderC :: plyloader where
  "loaderC f = (if name f = ''c.ply'' then Some (box2 2 8 2 8) else None)"

text \<open>The state after the dense analysis and organization of \<open>a.ply\<close> and \<open>b.ply\<close>.\<close>

definition denseAB :: state where
  "denseAB =
     calculateGridOrganization (analyzeAllFiles loaderAB (constructor\<lparr>plyFiles := [cloudA, cloudB]\<rparr>))"


section \<open>Invariants of a session\<close>

text \<open>
  The point clouds of the scene are the current ones, in order, after the two lights;
  they are distinct objects, allocated before \<open>nextId\<close>.
\<close>

definition scene_ok :: "state \<Rightarrow> bool" where
  "scene_ok s \<longleftrightarrow>
     scene s = [AmbientLight, DirectionalLight] @ map PointsObj (currentPointClouds s) \<and>
     distinct (map pid (currentPointClouds s)) \<and>
     (\<forall>p\<in>set (currentPointClouds s). pid p < nextId s)"

text \<open>
  An entry of \<open>initialTileFiles\<close> is the array of the first element of the same tile of
  \<open>allTileFiles\<close>.
\<close>

definition initial_ok :: "state \<Rightarrow> bool" where
  "initial_ok s \<longleftrightarrow>
     (\<forall>k fs. map_of (initialTileFiles s) k = Some fs \<longrightarrow>
        (\<exists>tf rest. map_of (allTileFiles s) k = Some (tf # rest) \<and> fs = [tf]))"

text \<open>The tile on which \<open>organizeFilesIntoTiles\<close> starts, from the bounds of a state.\<close>

definition initialTile :: "state \<Rightarrow> tilekey" where
  "initialTile s =
     (Math_floor (js_div (totalTilesX s) (Fin 2)), Math_floor (js_div (totalTilesY s) (Fin 2)))"

text \<open>
  Where the dense navigator can be: on the organizer's initial tile, inside the grid, or
  on a tile that has an array in \<open>allTileFiles\<close>.
\<close>

definition position_ok :: "state \<Rightarrow> bool" where
  "position_ok s \<longleftrightarrow>
     currentTile s = initialTile s \<or>
     isValidTilePosition s (fst (currentTile s)) (snd (currentTile s)) \<or>
     map_of (allTileFiles s) (currentTile s) \<noteq> None"

text \<open>The bounds of the fixed grid, as the fixed \<open>navigate\<close> tests them.\<close>

definition in_3x3 :: "tilekey \<Rightarrow> bool" where
  "in_3x3 t \<longleftrightarrow>
     js_ge (fst t) (Fin 0) \<and> js_lt (fst t) (Fin 3) \<and> js_ge (snd t) (Fin 0) \<and> js_lt (snd t) (Fin 3)"

text \<open>The fields no load touches.\<close>

definition same_grid :: "state \<Rightarrow> state \<Rightarrow> bool" where
  "same_grid s s' \<longleftrightarrow>
     plyFiles s' = plyFiles s \<and> fileCoordinates s' = fileCoordinates s \<and>
     allTileFiles s' = allTileFiles s \<and> currentTile s' = currentTile s \<and>
     tileSize s' = tileSize s \<and> minX s' = minX s \<and> maxX s' = maxX s \<and>
     minY s' = minY s \<and> maxY s' = maxY s"

text \<open>What every step of a load keeps, from the state before to the state after.\<close>

definition keeps :: "state \<Rightarrow> state \<Rightarrow> bool" where
  "keeps s s' \<longleftrightarrow>
     same_grid s s' \<and> initialTilesLoaded s' = initialTilesLoaded s \<and>
     (scene_ok s \<longrightarrow> scene_ok s') \<and> (initial_ok s \<longrightarrow> initial_ok s') \<and>
     fst ` set (loadedPointClouds s) \<subseteq> fst ` set (loadedPointClouds s')"


section \<open>Example sessions\<close>

text \<open>The dense session after the folder of \<open>a.ply\<close> and \<open>b.ply\<close> has been selected.\<close>

definition folderAB :: state where
  "folderAB =
     (case handleFolderSelection loaderAB loaderAB [cloudA, cloudB] constructor of
        Some (c, s) \<Rightarrow> s
      | None \<Rightarrow> constructor)"

text \<open>
  The dense session after the folder of \<open>a.ply\<close> and \<open>c.ply\<close> has been selected with
  the second loader: a grid of two by two tiles, both files in tile \<open>(0, 0)\<close>, the
  current tile \<open>(1, 1)\<close>.
\<close>

definition folderAC :: state where
  "folderAC =
     (case handleFolderSelection loaderAC loaderAC [cloudA, cloudC] constructor of
        Some (c, s) \<Rightarrow> s
      | None \<Rightarrow> constructor)"

text \<open>
  The first dense session after a second folder, holding \<open>c.ply\<close> alone, has been
  selected.
\<close>

definition folderAB_then_C :: state where
  "folderAB_then_C =
     (case handleFolderSelection loaderAC loaderAC [cloudC] folderAB of
        Some (c, s) \<Rightarrow> s
      | None \<Rightarrow> constructor)"

text \<open>
  The dense session after the selection of a folder whose only file, \<open>c.ply\<close>, fails to
  decode, and a file that is not a point cloud.
\<close>

definition folderC_failed :: state where
  "folderC_failed =
     (case handleFolderSelection loaderAB loaderAB [cloudC] constructor of
        Some (c, s) \<Rightarrow> s
      | None \<Rightarrow> constructor)"

definition readme :: jsfile where
  "readme = \<lparr>name = ''README.txt'', blob = 3\<rparr>"

text \<open>The fixed session after the same selection, and after one move to the left.\<close>

definition fixedAB :: state where
  "fixedAB = snd (handleFolderSelection_fixed loaderAB loaderAB [cloudA, cloudB] constructor)"

definition fixedAB_left :: state where
  "fixedAB_left = navigate_fixed loaderAB ''left'' fixedAB"


text \<open>
  The two nested loops of the fixed variant of \<open>organizeFilesIntoTiles\<close> visit the
  cells \<open>(x, y)\<close> with \<open>x\<close> in the outer and \<open>y\<close> in the inner loop. \<open>cells3\<close> is that
  sequence of cells, \<open>cellKey\<close> the key of a cell, and \<open>assignCell\<close> the body of the
  second pair of loops at one cell.
\<close>

definition cells3 :: "(nat \<times> nat) list" where
  "cells3 = List.product [0..<3] [0..<3]"

definition cellKey :: "nat \<times> nat \<Rightarrow> tilekey" where
  "cellKey c = tileKey (Fin (of_nat (fst c))) (Fin (of_nat (snd c)))"

definition assignCell :: "jsfile list \<Rightarrow> nat \<times> nat \<Rightarrow> nat \<times> state \<Rightarrow> nat \<times> state" where
  "assignCell fs c = assignTile_fixed fs (fst c) (snd c)"

text \<open>A folder in which the extraction of the first file fails: \<open>c.ply\<close>, then \<open>a.ply\<close>.\<close>

definition analyzedCA :: state where
  "analyzedCA = analyzeAllFiles loaderAB (constructor\<lparr>plyFiles := [cloudC, cloudA]\<rparr>)"

definition fixedCA :: state where
  "fixedCA = snd (handleFolderSelection_fixed loaderAB loaderAB [cloudC, cloudA] constructor)"
section \<open>Arithmetic of the loops\<close>

lemma js_sub_Fin [simp]: "js_sub (Fin a) (Fin b) = Fin (a - b)"
  by (simp add: js_sub_def)

lemma is_Fin_conv: "is_Fin a \<longleftrightarrow> (\<exists>q. a = Fin q)"
  by (cases a) auto

lemma Fin_the_Fin [simp]: "is_Fin a \<Longrightarrow> Fin (the_Fin a) = a"
  by (cases a) auto

lemma fold_bounds_step:
  "fold bounds_step cs (a, b, c, d) =
     (fold (\<lambda>c m. Math_min m (c_minX c)) cs a, fold (\<lambda>c m. Math_max m (c_maxX c)) cs b,
      fold (\<lambda>c m. Math_min m (c_minY c)) cs c, fold (\<lambda>c m. Math_max m (c_maxY c)) cs d)"
  by (induction cs arbitrary: a b c d) auto

lemma fold_extent_step:
  "fold extent_step cs (a, b, n) =
     (fold (\<lambda>c t. js_add t (extentX c)) cs a, fold (\<lambda>c t. js_add t (extentY c)) cs b,
      fold (\<lambda>c k. js_add k (Fin 1)) cs n)"
  by (induction cs arbitrary: a b n) auto

lemma fold_min_Fin:
  "\<forall>c\<in>set cs. is_Fin (f c) \<Longrightarrow>
   fold (\<lambda>c m. Math_min m (f c)) cs (Fin a) = Fin (Min (insert a ((the_Fin \<circ> f) ` set cs)))"
proof (induction cs arbitrary: a)
  case Nil
  then show ?case by simp
next
  case (Cons c cs)
  then obtain q where q: "f c = Fin q" by (auto simp: is_Fin_conv)
  have "Min (insert (min a q) ((the_Fin \<circ> f) ` set cs)) = Min (insert a (insert q ((the_Fin \<circ> f) ` set cs)))"
    by (cases "set cs = {}") (simp_all add: min.assoc)
  with Cons q show ?case by (simp del: Min_insert)
qed

lemma fold_min_PInf:
  assumes "\<forall>c\<in>set cs. is_Fin (f c)" "cs \<noteq> []"
  shows "fold (\<lambda>c m. Math_min m (f c)) cs PInf = Fin (Min ((the_Fin \<circ> f) ` set cs))"
proof (cases cs)
  case Nil
  with assms show ?thesis by simp
next
  case (Cons c cs')
  with assms obtain q where q: "f c = Fin q" by (auto simp: is_Fin_conv)
  from assms Cons have "\<forall>c\<in>set cs'. is_Fin (f c)" by simp
  from fold_min_Fin [OF this, of q] Cons q show ?thesis by simp
qed

lemma fold_max_Fin:
  "\<forall>c\<in>set cs. is_Fin (f c) \<Longrightarrow>
   fold (\<lambda>c m. Math_max m (f c)) cs (Fin a) = Fin (Max (insert a ((the_Fin \<circ> f) ` set cs)))"
proof (induction cs arbitrary: a)
  case Nil
  then show ?case by simp
next
  case (Cons c cs)
  then obtain q where q: "f c = Fin q" by (auto simp: is_Fin_conv)
  have "Max (insert (max a q) ((the_Fin \<circ> f) ` set cs)) = Max (insert a (insert q ((the_Fin \<circ> f) ` set cs)))"
    by (cases "set cs = {}") (simp_all add: max.assoc)
  with Cons q show ?case by (simp del: Max_insert)
qed

lemma fold_max_NInf:
  assumes "\<forall>c\<in>set cs. is_Fin (f c)" "cs \<noteq> []"
  shows "fold (\<lambda>c m. Math_max m (f c)) cs NInf = Fin (Max ((the_Fin \<circ> f) ` set cs))"
proof (cases cs)
  case Nil
  with assms show ?thesis by simp
next
  case (Cons c cs')
  with assms obtain q where q: "f c = Fin q" by (auto simp: is_Fin_conv)
  from assms Cons have "\<forall>c\<in>set cs'. is_Fin (f c)" by simp
  from fold_max_Fin [OF this, of q] Cons q show ?thesis by simp
qed

lemma fold_add_Fin:
  "\<forall>c\<in>set cs. is_Fin (f c) \<Longrightarrow>
   fold (\<lambda>c t. js_add t (f c)) cs (Fin a) = Fin (a + sum_list (map (the_Fin \<circ> f) cs))"
proof (induction cs arbitrary: a)
  case Nil
  then show ?case by simp
next
  case (Cons c cs)
  then obtain q where q: "f c = Fin q" by (auto simp: is_Fin_conv)
  with Cons show ?case by (simp add: add.assoc)
qed

lemma fold_count_Fin:
  "fold (\<lambda>c k. js_add k (Fin 1)) cs (Fin a) = Fin (a + of_nat (length cs))"
  by (induction cs arbitrary: a) (auto simp: add.assoc add.commute)


section \<open>Analysis\<close>

lemma extract_None: "extractCoordinatesFromFile ply f = None \<longleftrightarrow> ply f = None"
  by (simp add: extractCoordinatesFromFile_def split: option.splits)

lemma extract_Some: "extractCoordinatesFromFile ply f = Some c \<Longrightarrow> ply f \<noteq> None"
  by (simp add: extractCoordinatesFromFile_def split: option.splits)

lemma fold_analyzeFile:
  "fold (analyzeFile ply) fs s =
     s\<lparr>fileCoordinates := analyzed ply fs (fileCoordinates s),
       events := events s @ map (\<lambda>f. ErrorAnalyzing (name f)) (filter (\<lambda>f. ply f = None) fs)\<rparr>"
proof (induction fs arbitrary: s)
  case Nil
  then show ?case by (simp add: analyzed_def)
next
  case (Cons f fs)
  show ?case
  proof (cases "extractCoordinatesFromFile ply f")
    case None
    then have pf: "ply f = None" by (simp add: extract_None)
    have "analyzeFile ply f s = s\<lparr>events := events s @ [ErrorAnalyzing (name f)]\<rparr>"
      using None by (simp add: analyzeFile_def)
    with None pf show ?thesis by (simp add: Cons.IH analyzed_def)
  next
    case (Some c)
    then have pf: "ply f \<noteq> None" by (rule extract_Some)
    have "analyzeFile ply f s =
            s\<lparr>fileCoordinates := AList.update (name f) c (fileCoordinates s)\<rparr>"
      using Some by (simp add: analyzeFile_def)
    with Some pf show ?thesis by (simp add: Cons.IH analyzed_def)
  qed
qed

lemma analyzeAllFiles_eq:
  "analyzeAllFiles ply s =
     s\<lparr>fileCoordinates := analyzed ply (plyFiles s) [],
       events := events s @ map (\<lambda>f. ErrorAnalyzing (name f)) (filter (\<lambda>f. ply f = None) (plyFiles s))\<rparr>"
  by (simp add: analyzeAllFiles_def fold_analyzeFile)

lemma analyzed_keys:
  "fst ` set (analyzed ply fs m) = fst ` set m \<union> {name f |f. f \<in> set fs \<and> ply f \<noteq> None}"
proof (induction fs arbitrary: m)
  case Nil
  then show ?case by (simp add: analyzed_def)
next
  case (Cons f fs)
  have step: "analyzed ply (f # fs) m =
      analyzed ply fs (case extractCoordinatesFromFile ply f of
                         Some c \<Rightarrow> AList.update (name f) c m | None \<Rightarrow> m)"
    by (simp add: analyzed_def)
  show ?case
  proof (cases "extractCoordinatesFromFile ply f")
    case None
    then have "ply f = None" by (simp add: extract_None)
    with None show ?thesis unfolding step by (auto simp: Cons.IH)
  next
    case (Some c)
    then have "ply f \<noteq> None" by (rule extract_Some)
    with Some show ?thesis unfolding step by (auto simp: Cons.IH AList.dom_update)
  qed
qed

lemma analyzed_distinct:
  "distinct (map fst m) \<Longrightarrow> distinct (map fst (analyzed ply fs m))"
proof (induction fs arbitrary: m)
  case Nil
  then show ?case by (simp add: analyzed_def)
next
  case (Cons f fs)
  have step: "analyzed ply (f # fs) m =
      analyzed ply fs (case extractCoordinatesFromFile ply f of
                         Some c \<Rightarrow> AList.update (name f) c m | None \<Rightarrow> m)"
    by (simp add: analyzed_def)
  from Cons.prems show ?case unfolding step
    by (intro Cons.IH) (simp add: AList.distinct_update split: option.splits)
qed

lemma analyzed_values:
  "(n, c) \<in> set (analyzed ply fs m) \<Longrightarrow>
   (n, c) \<in> set m \<or> (\<exists>f\<in>set fs. name f = n \<and> extractCoordinatesFromFile ply f = Some c)"
proof (induction fs arbitrary: m)
  case Nil
  then show ?case by (simp add: analyzed_def)
next
  case (Cons f fs)
  have step: "analyzed ply (f # fs) m =
      analyzed ply fs (case extractCoordinatesFromFile ply f of
                         Some c \<Rightarrow> AList.update (name f) c m | None \<Rightarrow> m)"
    by (simp add: analyzed_def)
  have upd: "(n, c) \<in> set (AList.update k v m) \<Longrightarrow> (n, c) \<in> set m \<or> (n = k \<and> c = v)" for k v
    by (induction m) (auto split: if_splits)
  from Cons.prems [unfolded step] Cons.IH show ?case
    by (fastforce split: option.splits dest: upd)
qed

lemma analyzed_lookup:
  assumes "distinct (map name fs)" "f \<in> set fs" "extractCoordinatesFromFile ply f = Some c"
  shows "map_of (analyzed ply fs m) (name f) = Some c"
  using assms
proof (induction fs arbitrary: m)
  case Nil
  then show ?case by simp
next
  case (Cons g fs)
  have step: "analyzed ply (g # fs) m =
      analyzed ply fs (case extractCoordinatesFromFile ply g of
                         Some c \<Rightarrow> AList.update (name g) c m | None \<Rightarrow> m)"
    by (simp add: analyzed_def)
  have keep: "name f \<notin> name ` set fs \<Longrightarrow> map_of (analyzed ply fs m') (name f) = map_of m' (name f)" for m'
  proof (induction fs arbitrary: m')
    case Nil
    then show ?case by (simp add: analyzed_def)
  next
    case (Cons h hs)
    have "analyzed ply (h # hs) m' =
      analyzed ply hs (case extractCoordinatesFromFile ply h of
                         Some c \<Rightarrow> AList.update (name h) c m' | None \<Rightarrow> m')"
      by (simp add: analyzed_def)
    with Cons show ?case by (auto simp: AList.update_conv' split: option.splits)
  qed
  show ?case
  proof (cases "f = g")
    case True
    with Cons.prems have "name f \<notin> name ` set fs" by auto
    from keep [OF this] True Cons.prems show ?thesis unfolding step
      by (simp add: AList.update_conv')
  next
    case False
    with Cons.prems have "f \<in> set fs" "distinct (map name fs)" by auto
    from Cons.IH [OF this(2) this(1) Cons.prems(3)] show ?thesis unfolding step .
  qed
qed

section \<open>Organization, dense variant\<close>

lemma organizeEntry_eq:
  "organizeEntry s e tiles =
     (case entryFor s e of
        None \<Rightarrow> tiles
      | Some tf \<Rightarrow> pushTile (tileKey (tileX tf) (tileY tf)) tf tiles)"
proof (cases "find (\<lambda>f. name f = fst e) (plyFiles s)")
  case None
  then show ?thesis by (simp add: organizeEntry_def entryFor_def Let_def)
next
  case (Some fl)
  then show ?thesis by (simp add: organizeEntry_def entryFor_def pushTile_def Let_def)
qed

lemma entryFor_Some:
  assumes "entryFor s e = Some tf"
  shows "name (tf_file tf) = fst e" and "tf_file tf \<in> set (plyFiles s)"
    and "originalCoords tf = snd e"
    and "tileX tf = Math_floor (js_div (js_sub (centerX (snd e)) (minX s)) (tileSize s))"
    and "tileY tf = Math_floor (js_div (js_sub (centerY (snd e)) (minY s)) (tileSize s))"
    and "find (\<lambda>f. name f = fst e) (plyFiles s) = Some (tf_file tf)"
  using assms by (auto simp: entryFor_def find_Some_iff in_set_conv_nth split: option.splits)

lemma entryFor_found:
  "fst e \<in> name ` set (plyFiles s) \<Longrightarrow> \<exists>tf. entryFor s e = Some tf"
  by (cases "find (\<lambda>f. name f = fst e) (plyFiles s)")
     (auto simp: entryFor_def find_None_iff)

lemma map_of_map_entry_get:
  "map_of (AList.map_entry k f xs) = (map_of xs)(k := map_option f (map_of xs k))"
  by (induction xs) (auto simp: fun_eq_iff)

lemma map_of_pushTile:
  "map_of (pushTile k tf tiles) = (map_of tiles)(k \<mapsto> get_or_empty tiles k @ [tf])"
  by (auto simp: pushTile_def map_of_map_entry_get AList.update_conv' get_or_empty_def fun_eq_iff
           split: option.splits)

lemma distinct_pushTile:
  "distinct (map fst tiles) \<Longrightarrow> distinct (map fst (pushTile k tf tiles))"
  by (simp add: pushTile_def AList.distinct_map_entry AList.distinct_update)

lemma keys_pushTile: "fst ` set (pushTile k tf tiles) = insert k (fst ` set tiles)"
  by (auto simp: pushTile_def AList.dom_map_entry AList.dom_update map_of_eq_None_iff)

lemma mset_map_entry:
  "k \<in> fst ` set tiles \<Longrightarrow>
   mset (tileEntries (AList.map_entry k (\<lambda>arr. arr @ [tf]) tiles)) =
   add_mset tf (mset (tileEntries tiles))"
  by (induction tiles) (auto simp: tileEntries_def)

lemma tileEntries_update_new:
  "k \<notin> fst ` set tiles \<Longrightarrow> tileEntries (AList.update k [] tiles) = tileEntries tiles"
  by (induction tiles) (auto simp: tileEntries_def)

lemma mset_pushTile:
  "mset (tileEntries (pushTile k tf tiles)) = add_mset tf (mset (tileEntries tiles))"
proof (cases "map_of tiles k")
  case None
  then have notin: "k \<notin> fst ` set tiles" by (simp add: map_of_eq_None_iff)
  have "k \<in> fst ` set (AList.update k [] tiles)" by (simp add: AList.dom_update)
  from mset_map_entry [OF this] None notin show ?thesis
    by (simp add: pushTile_def tileEntries_update_new)
next
  case (Some arr)
  then have "k \<in> fst ` set tiles" by (metis map_of_eq_None_iff option.distinct(1))
  from mset_map_entry [OF this] Some show ?thesis by (simp add: pushTile_def)
qed

lemma mset_fold_organizeEntry:
  "mset (tileEntries (fold (organizeEntry s) es tiles)) =
     mset (tileEntries tiles) + mset (List.map_filter (entryFor s) es)"
proof (induction es arbitrary: tiles)
  case Nil
  then show ?case by (simp add: List.map_filter_simps)
next
  case (Cons e es)
  have "mset (tileEntries (organizeEntry s e tiles)) =
          mset (tileEntries tiles) + mset (List.map_filter (entryFor s) [e])"
    by (cases "entryFor s e") (simp_all add: organizeEntry_eq mset_pushTile List.map_filter_simps)
  moreover have "List.map_filter (entryFor s) (e # es) =
          List.map_filter (entryFor s) [e] @ List.map_filter (entryFor s) es"
    by (simp add: List.map_filter_simps split: option.splits)
  ultimately show ?case by (simp add: Cons.IH)
qed

lemma distinct_fold_organizeEntry:
  "distinct (map fst tiles) \<Longrightarrow> distinct (map fst (fold (organizeEntry s) es tiles))"
proof (induction es arbitrary: tiles)
  case Nil
  then show ?case by simp
next
  case (Cons e es)
  from Cons.prems have "distinct (map fst (organizeEntry s e tiles))"
    by (cases "entryFor s e") (simp_all add: organizeEntry_eq distinct_pushTile)
  then show ?case by (simp add: Cons.IH)
qed

lemma keyed_pushTile:
  assumes "keyed tiles"
  shows "keyed (pushTile (tileKey (tileX tf) (tileY tf)) tf tiles)"
  unfolding keyed_def
proof (intro allI impI)
  fix k arr
  assume m: "map_of (pushTile (tileKey (tileX tf) (tileY tf)) tf tiles) k = Some arr"
  show "arr \<noteq> [] \<and> (\<forall>t\<in>set arr. k = tileKey (tileX t) (tileY t))"
  proof (cases "k = tileKey (tileX tf) (tileY tf)")
    case True
    with m have arr: "arr = get_or_empty tiles k @ [tf]" by (simp add: map_of_pushTile)
    have "\<forall>t\<in>set (get_or_empty tiles k). k = tileKey (tileX t) (tileY t)"
    proof (cases "map_of tiles k")
      case None
      then show ?thesis by (simp add: get_or_empty_def)
    next
      case (Some old)
      with assms have "\<forall>t\<in>set old. k = tileKey (tileX t) (tileY t)"
        unfolding keyed_def by blast
      with Some show ?thesis by (simp add: get_or_empty_def)
    qed
    with arr True show ?thesis by auto
  next
    case False
    with m have "map_of tiles k = Some arr" by (simp add: map_of_pushTile)
    with assms show ?thesis unfolding keyed_def by blast
  qed
qed

lemma keyed_fold_organizeEntry:
  "keyed tiles \<Longrightarrow> keyed (fold (organizeEntry s) es tiles)"
proof (induction es arbitrary: tiles)
  case Nil
  then show ?case by simp
next
  case (Cons e es)
  from Cons.prems have "keyed (organizeEntry s e tiles)"
    by (cases "entryFor s e") (simp_all add: organizeEntry_eq keyed_pushTile)
  then show ?case by (simp add: Cons.IH)
qed

lemma keyed_Nil: "keyed []"
  by (simp add: keyed_def)

lemma tileEntries_member:
  "tf \<in> set (tileEntries tiles) \<longleftrightarrow> (\<exists>k arr. (k, arr) \<in> set tiles \<and> tf \<in> set arr)"
proof -
  have "tf \<in> set (tileEntries tiles) \<longleftrightarrow> (\<exists>p\<in>set tiles. tf \<in> set (snd p))"
    by (simp add: tileEntries_def)
  also have "\<dots> \<longleftrightarrow> (\<exists>k arr. (k, arr) \<in> set tiles \<and> tf \<in> set arr)"
    by (metis prod.collapse snd_conv)
  finally show ?thesis .
qed

lemma keyed_entry_place:
  assumes "keyed tiles" "distinct (map fst tiles)" "tf \<in> set (tileEntries tiles)"
  shows "tf \<in> set (get_or_empty tiles (tileKey (tileX tf) (tileY tf)))"
proof -
  from assms(3) obtain k arr where ka: "(k, arr) \<in> set tiles" "tf \<in> set arr"
    by (auto simp: tileEntries_member)
  with assms(2) have m: "map_of tiles k = Some arr" by simp
  with assms(1) ka have "k = tileKey (tileX tf) (tileY tf)" unfolding keyed_def by blast
  with m ka show ?thesis by (simp add: get_or_empty_def)
qed

lemma organizeFilesIntoTiles_fields:
  "allTileFiles (organizeFilesIntoTiles s) = fold (organizeEntry s) (fileCoordinates s) []"
  "tileSize (organizeFilesIntoTiles s) = tileSize s"
  "minX (organizeFilesIntoTiles s) = minX s" "maxX (organizeFilesIntoTiles s) = maxX s"
  "minY (organizeFilesIntoTiles s) = minY s" "maxY (organizeFilesIntoTiles s) = maxY s"
  "plyFiles (organizeFilesIntoTiles s) = plyFiles s"
  "fileCoordinates (organizeFilesIntoTiles s) = fileCoordinates s"
  "events (organizeFilesIntoTiles s) = events s"
  "initialTileFiles (organizeFilesIntoTiles s) = initialTileFiles s"
  "initialTilesLoaded (organizeFilesIntoTiles s) = initialTilesLoaded s"
  "loadedPointClouds (organizeFilesIntoTiles s) = loadedPointClouds s"
  "currentPointClouds (organizeFilesIntoTiles s) = currentPointClouds s"
  "scene (organizeFilesIntoTiles s) = scene s"
  "nextId (organizeFilesIntoTiles s) = nextId s"
  by (simp_all add: organizeFilesIntoTiles_def Let_def)

lemma organizeFilesIntoTiles_currentTile:
  "currentTile (organizeFilesIntoTiles s) =
     (Math_floor (js_div (totalTilesX s) (Fin 2)), Math_floor (js_div (totalTilesY s) (Fin 2)))"
  by (simp add: organizeFilesIntoTiles_def Let_def totalTilesX_def totalTilesY_def)

section \<open>The grid frame\<close>

lemma calculateGrid_empty: "fileCoordinates s = [] \<Longrightarrow> calculateGrid k org s = s"
  by (simp add: calculateGrid_def)

lemma calculateGrid_eq:
  "fileCoordinates s \<noteq> [] \<Longrightarrow>
   calculateGrid k org s =
     org (s\<lparr>minX := fold (\<lambda>c m. Math_min m (c_minX c)) (map snd (fileCoordinates s)) PInf,
            maxX := fold (\<lambda>c m. Math_max m (c_maxX c)) (map snd (fileCoordinates s)) NInf,
            minY := fold (\<lambda>c m. Math_min m (c_minY c)) (map snd (fileCoordinates s)) PInf,
            maxY := fold (\<lambda>c m. Math_max m (c_maxY c)) (map snd (fileCoordinates s)) NInf,
            tileSize :=
              js_mul
                (Math_max
                   (js_div (fold (\<lambda>c t. js_add t (extentX c)) (map snd (fileCoordinates s)) (Fin 0))
                           (fold (\<lambda>c n. js_add n (Fin 1)) (map snd (fileCoordinates s)) (Fin 0)))
                   (js_div (fold (\<lambda>c t. js_add t (extentY c)) (map snd (fileCoordinates s)) (Fin 0))
                           (fold (\<lambda>c n. js_add n (Fin 1)) (map snd (fileCoordinates s)) (Fin 0))))
                (Fin k)\<rparr>)"
  by (simp add: calculateGrid_def fold_bounds_step fold_extent_step Let_def)

section \<open>Finite bounding boxes and the fields an operation keeps\<close>

lemma extract_finite:
  assumes "extractCoordinatesFromFile ply f = Some c" "ply f = Some g" "finite_geometry g"
  shows "finite_coords c"
    and "extentX c = Fin (the_Fin (bbox_max_x g) - the_Fin (bbox_min_x g))"
    and "extentY c = Fin (the_Fin (bbox_max_y g) - the_Fin (bbox_min_y g))"
    and "centerX c = Fin ((the_Fin (bbox_max_x g) + the_Fin (bbox_min_x g)) / 2)"
    and "centerY c = Fin ((the_Fin (bbox_max_y g) + the_Fin (bbox_min_y g)) / 2)"
    and "c_minX c = bbox_min_x g" and "c_maxX c = bbox_max_x g"
    and "c_minY c = bbox_min_y g" and "c_maxY c = bbox_max_y g"
proof -
  from assms(3) obtain a b c' d e h where
    "bbox_min_x g = Fin a" "bbox_min_y g = Fin b" "bbox_min_z g = Fin c'"
    "bbox_max_x g = Fin d" "bbox_max_y g = Fin e" "bbox_max_z g = Fin h"
    unfolding finite_geometry_def is_Fin_conv by blast
  with assms(1,2) show "finite_coords c"
    and "extentX c = Fin (the_Fin (bbox_max_x g) - the_Fin (bbox_min_x g))"
    and "extentY c = Fin (the_Fin (bbox_max_y g) - the_Fin (bbox_min_y g))"
    and "centerX c = Fin ((the_Fin (bbox_max_x g) + the_Fin (bbox_min_x g)) / 2)"
    and "centerY c = Fin ((the_Fin (bbox_max_y g) + the_Fin (bbox_min_y g)) / 2)"
    and "c_minX c = bbox_min_x g" and "c_maxX c = bbox_max_x g"
    and "c_minY c = bbox_min_y g" and "c_maxY c = bbox_max_y g"
    by (auto simp: extractCoordinatesFromFile_def finite_coords_def)
qed

lemma analyzed_finite:
  assumes "\<forall>f\<in>set fs. \<forall>g. ply f = Some g \<longrightarrow> finite_geometry g"
    and "(n, c) \<in> set (analyzed ply fs [])"
  shows "finite_coords c"
proof -
  from analyzed_values [OF assms(2)] obtain f where
    f: "f \<in> set fs" "extractCoordinatesFromFile ply f = Some c" by auto
  then obtain g where g: "ply f = Some g" using extract_Some by fastforce
  with assms(1) f have "finite_geometry g" by blast
  with f(2) g show ?thesis by (rule extract_finite(1))
qed

lemma analyzed_nonempty:
  "\<exists>f\<in>set fs. ply f \<noteq> None \<Longrightarrow> analyzed ply fs [] \<noteq> []"
proof
  assume ex: "\<exists>f\<in>set fs. ply f \<noteq> None" and e: "analyzed ply fs [] = []"
  have "fst ` set (analyzed ply fs []) = {name f |f. f \<in> set fs \<and> ply f \<noteq> None}"
    by (simp add: analyzed_keys)
  with e ex show False by auto
qed

lemma fold_snd_preserve:
  assumes "\<And>x acc. P (snd (f x acc)) = P (snd acc)"
  shows "P (snd (fold f xs acc)) = P (snd acc)"
  by (induction xs arbitrary: acc) (simp_all add: assms)

lemma assignTile_fixed_fields:
  "tileSize (snd (assignTile_fixed fs x y acc)) = tileSize (snd acc)"
  "minX (snd (assignTile_fixed fs x y acc)) = minX (snd acc)"
  "maxX (snd (assignTile_fixed fs x y acc)) = maxX (snd acc)"
  "minY (snd (assignTile_fixed fs x y acc)) = minY (snd acc)"
  "maxY (snd (assignTile_fixed fs x y acc)) = maxY (snd acc)"
  "plyFiles (snd (assignTile_fixed fs x y acc)) = plyFiles (snd acc)"
  "fileCoordinates (snd (assignTile_fixed fs x y acc)) = fileCoordinates (snd acc)"
  "initialTileFiles (snd (assignTile_fixed fs x y acc)) = initialTileFiles (snd acc)"
  "initialTilesLoaded (snd (assignTile_fixed fs x y acc)) = initialTilesLoaded (snd acc)"
  "loadedPointClouds (snd (assignTile_fixed fs x y acc)) = loadedPointClouds (snd acc)"
  "currentPointClouds (snd (assignTile_fixed fs x y acc)) = currentPointClouds (snd acc)"
  "scene (snd (assignTile_fixed fs x y acc)) = scene (snd acc)"
  "nextId (snd (assignTile_fixed fs x y acc)) = nextId (snd acc)"
  by (simp_all add: assignTile_fixed_def Let_def split: option.splits)

lemma assignLoops_preserve:
  assumes "\<And>x y acc. P (snd (assignTile_fixed fs x y acc)) = P (snd acc)"
  shows "P (snd (fold (\<lambda>x. fold (\<lambda>y. assignTile_fixed fs x y) ys) xs acc)) = P (snd acc)"
  by (rule fold_snd_preserve, rule fold_snd_preserve, rule assms)

lemmas assignLoops_fixed_fields =
  assignLoops_preserve [of tileSize, OF assignTile_fixed_fields(1)]
  assignLoops_preserve [of minX, OF assignTile_fixed_fields(2)]
  assignLoops_preserve [of maxX, OF assignTile_fixed_fields(3)]
  assignLoops_preserve [of minY, OF assignTile_fixed_fields(4)]
  assignLoops_preserve [of maxY, OF assignTile_fixed_fields(5)]
  assignLoops_preserve [of plyFiles, OF assignTile_fixed_fields(6)]
  assignLoops_preserve [of fileCoordinates, OF assignTile_fixed_fields(7)]
  assignLoops_preserve [of initialTileFiles, OF assignTile_fixed_fields(8)]
  assignLoops_preserve [of initialTilesLoaded, OF assignTile_fixed_fields(9)]
  assignLoops_preserve [of loadedPointClouds, OF assignTile_fixed_fields(10)]
  assignLoops_preserve [of currentPointClouds, OF assignTile_fixed_fields(11)]
  assignLoops_preserve [of scene, OF assignTile_fixed_fields(12)]
  assignLoops_preserve [of nextId, OF assignTile_fixed_fields(13)]

lemma organizeFilesIntoTiles_fixed_fields:
  "tileSize (organizeFilesIntoTiles_fixed s) = tileSize s"
  "minX (organizeFilesIntoTiles_fixed s) = minX s" "maxX (organizeFilesIntoTiles_fixed s) = maxX s"
  "minY (organizeFilesIntoTiles_fixed s) = minY s" "maxY (organizeFilesIntoTiles_fixed s) = maxY s"
  "plyFiles (organizeFilesIntoTiles_fixed s) = plyFiles s"
  "fileCoordinates (organizeFilesIntoTiles_fixed s) = fileCoordinates s"
  "initialTileFiles (organizeFilesIntoTiles_fixed s) = initialTileFiles s"
  "initialTilesLoaded (organizeFilesIntoTiles_fixed s) = initialTilesLoaded s"
  "loadedPointClouds (organizeFilesIntoTiles_fixed s) = loadedPointClouds s"
  "currentPointClouds (organizeFilesIntoTiles_fixed s) = currentPointClouds s"
  "scene (organizeFilesIntoTiles_fixed s) = scene s"
  "nextId (organizeFilesIntoTiles_fixed s) = nextId s"
  "currentTile (organizeFilesIntoTiles_fixed s) = (Fin 1, Fin 1)"
  by (simp_all add: organizeFilesIntoTiles_fixed_def Let_def assignLoops_fixed_fields)

lemma sum_list_pos:
  fixes f :: "'a \<Rightarrow> rat"
  assumes "\<forall>x\<in>set xs. 0 \<le> f x" "\<exists>x\<in>set xs. 0 < f x"
  shows "0 < sum_list (map f xs)"
  using assms
proof (induction xs)
  case Nil
  then show ?case by simp
next
  case (Cons x xs)
  have nn: "0 \<le> sum_list (map f xs)" using Cons.prems(1) by (intro sum_list_nonneg) auto
  show ?case
  proof (cases "0 < f x")
    case True
    with nn show ?thesis by simp
  next
    case False
    with Cons.prems have "\<exists>x\<in>set xs. 0 < f x" "\<forall>x\<in>set xs. 0 \<le> f x" "0 \<le> f x" by auto
    with Cons.IH show ?thesis by simp
  qed
qed

lemma tileSize_calculateGrid:
  assumes ne: "fileCoordinates s \<noteq> []"
    and fin: "\<forall>c\<in>set (map snd (fileCoordinates s)). is_Fin (extentX c) \<and> is_Fin (extentY c)"
    and org: "\<And>t. tileSize (org t) = tileSize t"
  shows "tileSize (calculateGrid k org s) =
     Fin (max (sum_list (map (the_Fin \<circ> extentX) (map snd (fileCoordinates s))) /
                 of_nat (length (fileCoordinates s)))
              (sum_list (map (the_Fin \<circ> extentY) (map snd (fileCoordinates s))) /
                 of_nat (length (fileCoordinates s))) * k)"
proof -
  from fin have fx: "\<forall>c\<in>set (map snd (fileCoordinates s)). is_Fin (extentX c)"
    and fy: "\<forall>c\<in>set (map snd (fileCoordinates s)). is_Fin (extentY c)" by auto
  from ne have n0: "(of_nat (length (fileCoordinates s)) :: rat) \<noteq> 0" by simp
  show ?thesis
    using n0 by (simp add: calculateGrid_eq [OF ne] org fold_add_Fin [OF fx] fold_add_Fin [OF fy]
        fold_count_Fin)
qed

lemma js_lt_zero_Fin [simp]: "js_lt (Fin 0) (Fin q) \<longleftrightarrow> 0 < q"
  by simp

lemma analyzeAllFiles_fileCoordinates:
  "fileCoordinates (analyzeAllFiles ply s) = analyzed ply (plyFiles s) []"
  by (simp add: analyzeAllFiles_eq)


text \<open>The example inputs.\<close>

lemma cloud_names [simp]:
  "name cloudA = ''a.ply''" "name cloudB = ''b.ply''" "name cloudC = ''c.ply''"
  by (simp_all add: cloudA_def cloudB_def cloudC_def)

lemma loaderAB_simps [simp]:
  "loaderAB cloudA = Some (box2 0 10 0 10)" "loaderAB cloudB = Some (box2 12 12 0 10)"
  "loaderAB cloudC = None"
  by (simp_all add: loaderAB_def)

lemma clouds_distinct [simp]:
  "cloudA \<noteq> cloudB" "cloudB \<noteq> cloudA" "cloudA \<noteq> cloudC" "cloudC \<noteq> cloudA"
  "cloudB \<noteq> cloudC" "cloudC \<noteq> cloudB"
  by (simp_all add: cloudA_def cloudB_def cloudC_def)

lemma finite_box2 [simp]: "finite_geometry (box2 x0 x1 y0 y1)"
  by (simp add: box2_def finite_geometry_def)

section \<open>The dense pipeline: analysis, frame, tiles\<close>

lemma calculateGrid_gridFrame:
  "fileCoordinates s \<noteq> [] \<Longrightarrow> calculateGrid k org s = org (gridFrame k s)"
  by (simp add: calculateGrid_eq gridFrame_def)

lemma gridFrame_fields:
  "plyFiles (gridFrame k s) = plyFiles s"
  "fileCoordinates (gridFrame k s) = fileCoordinates s"
  "allTileFiles (gridFrame k s) = allTileFiles s"
  "initialTileFiles (gridFrame k s) = initialTileFiles s"
  "initialTilesLoaded (gridFrame k s) = initialTilesLoaded s"
  "currentTile (gridFrame k s) = currentTile s"
  "loadedPointClouds (gridFrame k s) = loadedPointClouds s"
  "currentPointClouds (gridFrame k s) = currentPointClouds s"
  "scene (gridFrame k s) = scene s"
  "nextId (gridFrame k s) = nextId s"
  "events (gridFrame k s) = events s"
  by (simp_all add: gridFrame_def)

lemma gridFrame_bounds:
  assumes "fileCoordinates s \<noteq> []"
    and "\<forall>c\<in>set (map snd (fileCoordinates s)). finite_coords c"
  shows "minX (gridFrame k s) = Fin (Min ((the_Fin \<circ> c_minX) ` set (map snd (fileCoordinates s))))"
    and "maxX (gridFrame k s) = Fin (Max ((the_Fin \<circ> c_maxX) ` set (map snd (fileCoordinates s))))"
    and "minY (gridFrame k s) = Fin (Min ((the_Fin \<circ> c_minY) ` set (map snd (fileCoordinates s))))"
    and "maxY (gridFrame k s) = Fin (Max ((the_Fin \<circ> c_maxY) ` set (map snd (fileCoordinates s))))"
proof -
  from assms(1) have ne: "map snd (fileCoordinates s) \<noteq> []" by simp
  from assms(2) have f: "\<forall>c\<in>set (map snd (fileCoordinates s)). is_Fin (c_minX c)"
    "\<forall>c\<in>set (map snd (fileCoordinates s)). is_Fin (c_maxX c)"
    "\<forall>c\<in>set (map snd (fileCoordinates s)). is_Fin (c_minY c)"
    "\<forall>c\<in>set (map snd (fileCoordinates s)). is_Fin (c_maxY c)"
    unfolding finite_coords_def by blast+
  show "minX (gridFrame k s) = Fin (Min ((the_Fin \<circ> c_minX) ` set (map snd (fileCoordinates s))))"
    using fold_min_PInf [OF f(1) ne] by (simp add: gridFrame_def)
  show "maxX (gridFrame k s) = Fin (Max ((the_Fin \<circ> c_maxX) ` set (map snd (fileCoordinates s))))"
    using fold_max_NInf [OF f(2) ne] by (simp add: gridFrame_def)
  show "minY (gridFrame k s) = Fin (Min ((the_Fin \<circ> c_minY) ` set (map snd (fileCoordinates s))))"
    using fold_min_PInf [OF f(3) ne] by (simp add: gridFrame_def)
  show "maxY (gridFrame k s) = Fin (Max ((the_Fin \<circ> c_maxY) ` set (map snd (fileCoordinates s))))"
    using fold_max_NInf [OF f(4) ne] by (simp add: gridFrame_def)
qed

lemma set_map_filter: "tf \<in> set (List.map_filter g es) \<longleftrightarrow> (\<exists>e\<in>set es. g e = Some tf)"
  by (induction es) (auto simp: List.map_filter_simps split: option.splits)

lemma entries_of_names:
  assumes "\<forall>e\<in>set es. fst e \<in> name ` set (plyFiles s)"
  shows "map (name \<circ> tf_file) (List.map_filter (entryFor s) es) = map fst es"
  using assms
proof (induction es)
  case Nil
  then show ?case by (simp add: List.map_filter_simps)
next
  case (Cons e es)
  then have "fst e \<in> name ` set (plyFiles s)" by simp
  then obtain tf where tf: "entryFor s e = Some tf" using entryFor_found by blast
  then have "name (tf_file tf) = fst e" by (rule entryFor_Some(1))
  with tf Cons show ?case by (simp add: List.map_filter_simps)
qed

text \<open>The tiles that the dense pipeline makes of a folder.\<close>

lemma dense_tiles:
  fixes files :: "jsfile list" and ply :: plyloader and s :: state
  assumes some: "\<exists>f\<in>set files. ply f \<noteq> None"
  defines "s1 \<equiv> analyzeAllFiles ply (s\<lparr>plyFiles := files\<rparr>)"
  defines "s2 \<equiv> gridFrame (6 / 5) s1"
  defines "s' \<equiv> calculateGridOrganization s1"
  shows "s' = organizeFilesIntoTiles s2"
    and "fileCoordinates s' = analyzed ply files []"
    and "plyFiles s2 = files"
    and "fileCoordinates s2 = analyzed ply files []"
    and "allTileFiles s' = fold (organizeEntry s2) (analyzed ply files []) []"
    and "distinct (map fst (allTileFiles s'))"
    and "keyed (allTileFiles s')"
    and "mset (tileEntries (allTileFiles s')) =
           mset (List.map_filter (entryFor s2) (analyzed ply files []))"
    and "map (name \<circ> tf_file) (List.map_filter (entryFor s2) (analyzed ply files [])) =
           map fst (analyzed ply files [])"
    and "minX s' = minX s2" "maxX s' = maxX s2" "minY s' = minY s2" "maxY s' = maxY s2"
    and "tileSize s' = tileSize s2"
proof -
  have fc: "fileCoordinates s1 = analyzed ply files []"
    by (simp add: s1_def analyzeAllFiles_fileCoordinates)
  from some have ne: "fileCoordinates s1 \<noteq> []" unfolding fc by (rule analyzed_nonempty)
  show eq: "s' = organizeFilesIntoTiles s2"
    unfolding s'_def s2_def calculateGridOrganization_def by (rule calculateGrid_gridFrame [OF ne])
  show "fileCoordinates s' = analyzed ply files []"
    by (simp add: eq organizeFilesIntoTiles_fields s2_def gridFrame_fields fc)
  show pf: "plyFiles s2 = files"
    by (simp add: s2_def gridFrame_fields s1_def analyzeAllFiles_eq)
  show fc2: "fileCoordinates s2 = analyzed ply files []"
    by (simp add: s2_def gridFrame_fields fc)
  show tiles: "allTileFiles s' = fold (organizeEntry s2) (analyzed ply files []) []"
    by (simp add: eq organizeFilesIntoTiles_fields fc2)
  show "distinct (map fst (allTileFiles s'))"
    unfolding tiles by (rule distinct_fold_organizeEntry) simp
  show "keyed (allTileFiles s')"
    unfolding tiles by (rule keyed_fold_organizeEntry) (rule keyed_Nil)
  show "mset (tileEntries (allTileFiles s')) =
           mset (List.map_filter (entryFor s2) (analyzed ply files []))"
    unfolding tiles by (simp add: mset_fold_organizeEntry) (simp add: tileEntries_def)
  have "\<forall>e\<in>set (analyzed ply files []). fst e \<in> name ` set (plyFiles s2)"
  proof
    fix e assume "e \<in> set (analyzed ply files [])"
    then have "fst e \<in> fst ` set (analyzed ply files [])" by simp
    then show "fst e \<in> name ` set (plyFiles s2)" unfolding analyzed_keys pf by auto
  qed
  then show "map (name \<circ> tf_file) (List.map_filter (entryFor s2) (analyzed ply files [])) =
           map fst (analyzed ply files [])"
    by (rule entries_of_names)
  show "minX s' = minX s2" "maxX s' = maxX s2" "minY s' = minY s2" "maxY s' = maxY s2"
    "tileSize s' = tileSize s2"
    by (simp_all add: eq organizeFilesIntoTiles_fields)
qed

lemma one_tile_per_name:
  assumes "distinct (map nm (tileEntries tiles))"
    and "map_of tiles k1 = Some a1" "map_of tiles k2 = Some a2"
    and "n \<in> nm ` set a1" "n \<in> nm ` set a2"
  shows "k1 = k2"
  using assms
proof (induction tiles)
  case Nil
  then show ?case by simp
next
  case (Cons p tiles)
  obtain k a where p: "p = (k, a)" by (cases p)
  from Cons.prems(1) have d: "distinct (map nm a)" "distinct (map nm (tileEntries tiles))"
    "nm ` set a \<inter> nm ` set (tileEntries tiles) = {}"
    by (auto simp: p tileEntries_def)
  have inrest: "n \<in> nm ` set (tileEntries tiles)" if "map_of tiles k' = Some a'" "n \<in> nm ` set a'" for k' a'
  proof -
    from that(1) have "(k', a') \<in> set tiles" by (rule map_of_SomeD)
    from that(2) obtain tf where tf: "tf \<in> set a'" "n = nm tf" by blast
    with \<open>(k', a') \<in> set tiles\<close> have "tf \<in> set (tileEntries tiles)"
      unfolding tileEntries_member by blast
    with tf show ?thesis by blast
  qed
  show ?case
  proof (cases "k1 = k")
    case k1: True
    show ?thesis
    proof (cases "k2 = k")
      case True
      with k1 show ?thesis by simp
    next
      case False
      with Cons.prems p have "map_of tiles k2 = Some a2" by simp
      from inrest [OF this Cons.prems(5)] k1 Cons.prems(2,4) p d(3) show ?thesis by auto
    qed
  next
    case k1: False
    with Cons.prems p have m1: "map_of tiles k1 = Some a1" by simp
    show ?thesis
    proof (cases "k2 = k")
      case True
      from inrest [OF m1 Cons.prems(4)] True Cons.prems(3,5) p d(3) show ?thesis by auto
    next
      case False
      with Cons.prems p have "map_of tiles k2 = Some a2" by simp
      from Cons.IH [OF d(2) m1 this Cons.prems(4,5)] show ?thesis .
    qed
  qed
qed

section \<open>The example states\<close>

lemma denseAB_fileCoordinates:
  "fileCoordinates denseAB =
     [(''a.ply'', the (extractCoordinatesFromFile loaderAB cloudA)),
      (''b.ply'', the (extractCoordinatesFromFile loaderAB cloudB))]"
  by code_simp

lemma denseAB_coords:
  "c_minX (the (extractCoordinatesFromFile loaderAB cloudA)) = Fin 0"
  "c_maxX (the (extractCoordinatesFromFile loaderAB cloudA)) = Fin 10"
  "c_minY (the (extractCoordinatesFromFile loaderAB cloudA)) = Fin 0"
  "c_maxY (the (extractCoordinatesFromFile loaderAB cloudA)) = Fin 10"
  "centerX (the (extractCoordinatesFromFile loaderAB cloudA)) = Fin 5"
  "centerY (the (extractCoordinatesFromFile loaderAB cloudA)) = Fin 5"
  "extentX (the (extractCoordinatesFromFile loaderAB cloudA)) = Fin 10"
  "extentY (the (extractCoordinatesFromFile loaderAB cloudA)) = Fin 10"
  "c_minX (the (extractCoordinatesFromFile loaderAB cloudB)) = Fin 12"
  "c_maxX (the (extractCoordinatesFromFile loaderAB cloudB)) = Fin 12"
  "c_minY (the (extractCoordinatesFromFile loaderAB cloudB)) = Fin 0"
  "c_maxY (the (extractCoordinatesFromFile loaderAB cloudB)) = Fin 10"
  "centerX (the (extractCoordinatesFromFile loaderAB cloudB)) = Fin 12"
  "centerY (the (extractCoordinatesFromFile loaderAB cloudB)) = Fin 5"
  "extentX (the (extractCoordinatesFromFile loaderAB cloudB)) = Fin 0"
  "extentY (the (extractCoordinatesFromFile loaderAB cloudB)) = Fin 10"
  by code_simp+

lemma denseAB_tileSize: "tileSize denseAB = Fin 12"
  by code_simp

section \<open>Loading and unloading\<close>

lemma clearCurrentPointClouds_fields:
  "currentPointClouds (clearCurrentPointClouds s) = []"
  "loadedPointClouds (clearCurrentPointClouds s) = loadedPointClouds s"
  "plyFiles (clearCurrentPointClouds s) = plyFiles s"
  "fileCoordinates (clearCurrentPointClouds s) = fileCoordinates s"
  "allTileFiles (clearCurrentPointClouds s) = allTileFiles s"
  "initialTileFiles (clearCurrentPointClouds s) = initialTileFiles s"
  "initialTilesLoaded (clearCurrentPointClouds s) = initialTilesLoaded s"
  "currentTile (clearCurrentPointClouds s) = currentTile s"
  "tileSize (clearCurrentPointClouds s) = tileSize s"
  "minX (clearCurrentPointClouds s) = minX s" "maxX (clearCurrentPointClouds s) = maxX s"
  "minY (clearCurrentPointClouds s) = minY s" "maxY (clearCurrentPointClouds s) = maxY s"
  "nextId (clearCurrentPointClouds s) = nextId s"
  "events (clearCurrentPointClouds s) = events s"
  by (simp_all add: clearCurrentPointClouds_def)

lemma fold_scene_remove:
  assumes "distinct ps" "\<forall>p\<in>set ps. PointsObj p \<notin> set pre"
  shows "fold scene_remove ps (pre @ map PointsObj ps) = pre"
  using assms
proof (induction ps)
  case Nil
  then show ?case by simp
next
  case (Cons p ps)
  then have "scene_remove p (pre @ map PointsObj (p # ps)) = pre @ map PointsObj ps"
    by (simp add: scene_remove_def remove1_append)
  with Cons show ?case by simp
qed

lemma clear_scene:
  assumes "scene_ok s"
  shows "scene (clearCurrentPointClouds s) = [AmbientLight, DirectionalLight]"
proof -
  from assms have d: "distinct (currentPointClouds s)"
    unfolding scene_ok_def by (metis distinct_map)
  have "\<forall>p\<in>set (currentPointClouds s). PointsObj p \<notin> set [AmbientLight, DirectionalLight]"
    by simp
  from fold_scene_remove [OF d this] assms show ?thesis
    by (simp add: clearCurrentPointClouds_def scene_ok_def)
qed

lemma scene_ok_clear:
  "scene_ok s \<Longrightarrow> scene_ok (clearCurrentPointClouds s)"
  by (simp add: scene_ok_def [of "clearCurrentPointClouds s"] clear_scene
      clearCurrentPointClouds_fields)

lemma loadFileForTile_Resolved:
  assumes "ply (tf_file tf) \<noteq> None"
  shows "loadFileForTile ply tf s =
     (Resolved,
      s\<lparr>loadedPointClouds :=
          AList.update (name (tf_file tf)) \<lparr>pid = nextId s, source = tf_file tf\<rparr> (loadedPointClouds s),
        currentPointClouds := currentPointClouds s @ [\<lparr>pid = nextId s, source = tf_file tf\<rparr>],
        scene := scene s @ [PointsObj \<lparr>pid = nextId s, source = tf_file tf\<rparr>],
        nextId := Suc (nextId s)\<rparr>)"
  using assms by (auto simp: loadFileForTile_def Let_def)

lemma loadFileForTile_Rejected:
  assumes "ply (tf_file tf) = None"
  shows "loadFileForTile ply tf s =
     (Rejected, s\<lparr>events := events s @ [ErrorLoading (name (tf_file tf))]\<rparr>)"
  using assms by (simp add: loadFileForTile_def)

lemma loadFileForTile_cases:
  obtains (ok) "ply (tf_file tf) \<noteq> None" "fst (loadFileForTile ply tf s) = Resolved"
  | (fail) "ply (tf_file tf) = None" "fst (loadFileForTile ply tf s) = Rejected"
  by (cases "ply (tf_file tf)") (auto simp: loadFileForTile_def Let_def)

lemma same_grid_refl [simp]: "same_grid s s"
  by (simp add: same_grid_def)

lemma same_grid_trans: "same_grid s t \<Longrightarrow> same_grid t u \<Longrightarrow> same_grid s u"
  by (simp add: same_grid_def)

lemma same_grid_clear [simp]: "same_grid s (clearCurrentPointClouds s)"
  by (simp add: same_grid_def clearCurrentPointClouds_fields)

lemma loadFileForTile_same_grid: "same_grid s (snd (loadFileForTile ply tf s))"
  by (cases "ply (tf_file tf)") (simp_all add: loadFileForTile_def Let_def same_grid_def)

lemma loadFileForTile_initial:
  "initialTileFiles (snd (loadFileForTile ply tf s)) = initialTileFiles s"
  "initialTilesLoaded (snd (loadFileForTile ply tf s)) = initialTilesLoaded s"
  by (cases "ply (tf_file tf)"; simp add: loadFileForTile_def Let_def)+

lemma scene_ok_loadFileForTile:
  "scene_ok s \<Longrightarrow> scene_ok (snd (loadFileForTile ply tf s))"
  by (cases "ply (tf_file tf)") (auto simp: loadFileForTile_def Let_def scene_ok_def)

lemma loadFileForTile_loaded_keys:
  "fst ` set (loadedPointClouds s) \<subseteq> fst ` set (loadedPointClouds (snd (loadFileForTile ply tf s)))"
  by (cases "ply (tf_file tf)") (auto simp: loadFileForTile_def Let_def AList.dom_update)

lemma loadFileForTile_nextId:
  "nextId s \<le> nextId (snd (loadFileForTile ply tf s))"
  by (cases "ply (tf_file tf)") (auto simp: loadFileForTile_def Let_def)

text \<open>The loop of loads stops at the first file that fails.\<close>

lemma loadFiles_Cons:
  "loadFiles ply (tf # tfs) s =
     (if ply (tf_file tf) \<noteq> None then loadFiles ply tfs (snd (loadFileForTile ply tf s))
      else (Rejected, snd (loadFileForTile ply tf s)))"
  by (cases "ply (tf_file tf)") (simp_all add: loadFileForTile_def Let_def)

declare loadFiles.simps(2) [simp del]

lemma loadFiles_sources:
  "map source (currentPointClouds (snd (loadFiles ply tfs s))) =
     map source (currentPointClouds s) @
     map tf_file (takeWhile (\<lambda>tf. ply (tf_file tf) \<noteq> None) tfs)"
proof (induction tfs arbitrary: s)
  case Nil
  then show ?case by simp
next
  case (Cons tf tfs)
  show ?case
  proof (cases "ply (tf_file tf)")
    case None
    then show ?thesis by (simp add: loadFiles_Cons loadFileForTile_Rejected)
  next
    case (Some g)
    then have ok: "ply (tf_file tf) \<noteq> None" by simp
    show ?thesis
      unfolding loadFiles_Cons using ok
      by (simp add: Cons.IH) (simp add: loadFileForTile_Resolved)
  qed
qed

lemma loadFiles_completion:
  "fst (loadFiles ply tfs s) = Resolved \<longleftrightarrow> (\<forall>tf\<in>set tfs. ply (tf_file tf) \<noteq> None)"
proof (induction tfs arbitrary: s)
  case Nil
  then show ?case by simp
next
  case (Cons tf tfs)
  then show ?case by (cases "ply (tf_file tf)") (simp_all add: loadFiles_Cons)
qed

lemma loadFiles_same_grid: "same_grid s (snd (loadFiles ply tfs s))"
proof (induction tfs arbitrary: s)
  case Nil
  then show ?case by simp
next
  case (Cons tf tfs)
  have 1: "same_grid s (snd (loadFileForTile ply tf s))" by (rule loadFileForTile_same_grid)
  show ?case
  proof (cases "ply (tf_file tf) \<noteq> None")
    case True
    with same_grid_trans [OF 1 Cons.IH] show ?thesis by (simp add: loadFiles_Cons)
  next
    case False
    with 1 show ?thesis by (simp add: loadFiles_Cons)
  qed
qed

lemma loadFiles_initial:
  "initialTileFiles (snd (loadFiles ply tfs s)) = initialTileFiles s \<and>
   initialTilesLoaded (snd (loadFiles ply tfs s)) = initialTilesLoaded s"
proof (induction tfs arbitrary: s)
  case Nil
  then show ?case by simp
next
  case (Cons tf tfs)
  then show ?case
    by (cases "ply (tf_file tf) \<noteq> None") (simp_all add: loadFiles_Cons loadFileForTile_initial)
qed

lemma scene_ok_loadFiles: "scene_ok s \<Longrightarrow> scene_ok (snd (loadFiles ply tfs s))"
proof (induction tfs arbitrary: s)
  case Nil
  then show ?case by simp
next
  case (Cons tf tfs)
  from Cons.prems have 1: "scene_ok (snd (loadFileForTile ply tf s))"
    by (rule scene_ok_loadFileForTile)
  show ?case
  proof (cases "ply (tf_file tf) \<noteq> None")
    case True
    with Cons.IH [OF 1] show ?thesis by (simp add: loadFiles_Cons)
  next
    case False
    with 1 show ?thesis by (simp add: loadFiles_Cons)
  qed
qed

lemma loadFiles_loaded_keys:
  "fst ` set (loadedPointClouds s) \<subseteq> fst ` set (loadedPointClouds (snd (loadFiles ply tfs s)))"
proof (induction tfs arbitrary: s)
  case Nil
  then show ?case by simp
next
  case (Cons tf tfs)
  have 1: "fst ` set (loadedPointClouds s) \<subseteq>
           fst ` set (loadedPointClouds (snd (loadFileForTile ply tf s)))"
    by (rule loadFileForTile_loaded_keys)
  show ?case
  proof (cases "ply (tf_file tf) \<noteq> None")
    case True
    with 1 Cons.IH [of "snd (loadFileForTile ply tf s)"] show ?thesis
      by (simp add: loadFiles_Cons)
  next
    case False
    with 1 show ?thesis by (simp add: loadFiles_Cons)
  qed
qed

lemma loadFiles_fresh:
  "\<forall>p\<in>set (currentPointClouds (snd (loadFiles ply tfs s))).
     p \<in> set (currentPointClouds s) \<or> nextId s \<le> pid p"
proof (induction tfs arbitrary: s)
  case Nil
  then show ?case by simp
next
  case (Cons tf tfs)
  show ?case
  proof (cases "ply (tf_file tf)")
    case None
    then show ?thesis by (simp add: loadFiles_Cons loadFileForTile_Rejected)
  next
    case (Some g)
    then have ok: "ply (tf_file tf) \<noteq> None" by simp
    show ?thesis
    proof
      fix p assume "p \<in> set (currentPointClouds (snd (loadFiles ply (tf # tfs) s)))"
      with ok have "p \<in> set (currentPointClouds (snd (loadFiles ply tfs (snd (loadFileForTile ply tf s)))))"
        by (simp add: loadFiles_Cons)
      with Cons.IH [of "snd (loadFileForTile ply tf s)"]
      have "p \<in> set (currentPointClouds (snd (loadFileForTile ply tf s))) \<or>
            nextId (snd (loadFileForTile ply tf s)) \<le> pid p" by blast
      then show "p \<in> set (currentPointClouds s) \<or> nextId s \<le> pid p"
        using ok by (auto simp: loadFileForTile_Resolved)
    qed
  qed
qed

section \<open>Activating a tile, and the initial pass\<close>

lemma tileKey_collapse [simp]: "tileKey (fst t) (snd t) = t"
  by (simp add: tileKey_def)

lemma keeps_refl [simp]: "keeps s s"
  by (simp add: keeps_def)

lemma keeps_trans: "keeps s t \<Longrightarrow> keeps t u \<Longrightarrow> keeps s u"
  unfolding keeps_def by (meson same_grid_trans subset_trans)

lemma initial_ok_cong:
  "initialTileFiles s' = initialTileFiles s \<Longrightarrow> allTileFiles s' = allTileFiles s \<Longrightarrow>
   initial_ok s \<Longrightarrow> initial_ok s'"
  by (simp add: initial_ok_def)

lemma keeps_loadFileForTile: "keeps s (snd (loadFileForTile ply tf s))"
  unfolding keeps_def
proof (intro conjI impI)
  show sg: "same_grid s (snd (loadFileForTile ply tf s))" by (rule loadFileForTile_same_grid)
  show "initialTilesLoaded (snd (loadFileForTile ply tf s)) = initialTilesLoaded s"
    by (rule loadFileForTile_initial)
  show "scene_ok (snd (loadFileForTile ply tf s))" if "scene_ok s"
    using that by (rule scene_ok_loadFileForTile)
  show "initial_ok (snd (loadFileForTile ply tf s))" if "initial_ok s"
    using _ _ that by (rule initial_ok_cong) (use sg in \<open>simp_all add: loadFileForTile_initial same_grid_def\<close>)
  show "fst ` set (loadedPointClouds s) \<subseteq> fst ` set (loadedPointClouds (snd (loadFileForTile ply tf s)))"
    by (rule loadFileForTile_loaded_keys)
qed

lemma keeps_loadFiles: "keeps s (snd (loadFiles ply tfs s))"
proof (induction tfs arbitrary: s)
  case Nil
  then show ?case by simp
next
  case (Cons tf tfs)
  have 1: "keeps s (snd (loadFileForTile ply tf s))" by (rule keeps_loadFileForTile)
  show ?case
  proof (cases "ply (tf_file tf) \<noteq> None")
    case True
    with keeps_trans [OF 1 Cons.IH] show ?thesis by (simp add: loadFiles_Cons)
  next
    case False
    with 1 show ?thesis by (simp add: loadFiles_Cons)
  qed
qed

lemma keeps_clear: "keeps s (clearCurrentPointClouds s)"
  unfolding keeps_def
  by (auto simp: clearCurrentPointClouds_fields scene_ok_clear
           intro: initial_ok_cong [of "clearCurrentPointClouds s" s])

lemma keeps_loadCurrentTile: "keeps s (snd (loadCurrentTile ply s))"
  unfolding loadCurrentTile_def Let_def
  by (rule keeps_trans [OF keeps_clear keeps_loadFiles])

lemma loadCurrentTile_sources:
  "map source (currentPointClouds (snd (loadCurrentTile ply s))) =
     map tf_file (takeWhile (\<lambda>tf. ply (tf_file tf) \<noteq> None)
       (if initialTilesLoaded s then get_or_empty (allTileFiles s) (currentTile s)
        else get_or_empty (initialTileFiles s) (currentTile s)))"
  by (simp add: loadCurrentTile_def Let_def loadFiles_sources clearCurrentPointClouds_fields)

lemma loadCurrentTile_fresh:
  "\<forall>p\<in>set (currentPointClouds (snd (loadCurrentTile ply s))). nextId s \<le> pid p"
  using loadFiles_fresh [of ply _ "clearCurrentPointClouds s"]
  by (simp add: loadCurrentTile_def Let_def clearCurrentPointClouds_fields)

lemma keeps_loadInitialTile: "keeps s (snd (loadInitialTile ply x y s))"
proof (cases "get_or_empty (allTileFiles s) (tileKey x y)")
  case Nil
  then show ?thesis by (simp add: loadInitialTile_def)
next
  case (Cons firstFile rest)
  let ?m = "s\<lparr>initialTileFiles := AList.update (tileKey x y) [firstFile] (initialTileFiles s)\<rparr>"
  from Cons have m: "map_of (allTileFiles s) (tileKey x y) = Some (firstFile # rest)"
    by (cases "map_of (allTileFiles s) (tileKey x y)") (simp_all add: get_or_empty_def)
  have "initial_ok ?m" if "initial_ok s"
    using that m unfolding initial_ok_def by (auto simp: AList.update_conv')
  then have "keeps s ?m"
    by (simp add: keeps_def same_grid_def scene_ok_def)
  from keeps_trans [OF this keeps_loadFileForTile] Cons show ?thesis
    by (simp add: loadInitialTile_def)
qed

lemma loadInitialTiles_y_keeps:
  assumes "loadInitialTiles_y ply x y cY s = Some r"
  shows "keeps s (snd r)"
proof -
  have step: "keeps s (snd r)"
    if IH: "\<And>ply x y cY s r. f ply x y cY s = Some r \<Longrightarrow> keeps s (snd r)"
      and eq: "(if js_le y (js_add cY (Fin 1))
         then case loadInitialTile ply x y s of
              (Resolved, s') \<Rightarrow> f ply x (js_add y (Fin 1)) cY s'
            | (Rejected, s') \<Rightarrow> Some (Rejected, s')
         else Some (Resolved, s)) = Some r"
    for f ply x y cY s r
  proof (cases "js_le y (js_add cY (Fin 1))")
    case False
    with eq show ?thesis by auto
  next
    case True
    obtain c s1 where l: "loadInitialTile ply x y s = (c, s1)" by (cases "loadInitialTile ply x y s")
    have k1: "keeps s s1" using keeps_loadInitialTile [of s ply x y] l by simp
    show ?thesis
    proof (cases c)
      case Resolved
      with eq True l have "f ply x (js_add y (Fin 1)) cY s1 = Some r" by simp
      from keeps_trans [OF k1 IH [OF this]] show ?thesis .
    next
      case Rejected
      with eq True l k1 show ?thesis by auto
    qed
  qed
  from loadInitialTiles_y.raw_induct [where P = "\<lambda>ply x y cY s r. keeps s (snd r)"
      and xa = "((((ply, x), y), cY), s)" and ya = r, simplified, OF step assms]
  show ?thesis .
qed

lemma loadInitialTiles_x_keeps:
  assumes "loadInitialTiles_x ply x cX cY s = Some r"
  shows "keeps s (snd r)"
proof -
  have step: "keeps s (snd r)"
    if IH: "\<And>ply x cX cY s r. f ply x cX cY s = Some r \<Longrightarrow> keeps s (snd r)"
      and eq: "(if js_le x (js_add cX (Fin 1))
         then case loadInitialTiles_y ply x (js_sub cY (Fin 1)) cY s of
              None \<Rightarrow> None
            | Some (Resolved, s') \<Rightarrow> f ply (js_add x (Fin 1)) cX cY s'
            | Some (Rejected, s') \<Rightarrow> Some (Rejected, s')
         else Some (Resolved, s)) = Some r"
    for f ply x cX cY s r
  proof (cases "js_le x (js_add cX (Fin 1))")
    case False
    with eq show ?thesis by auto
  next
    case True
    with eq obtain c s1 where l: "loadInitialTiles_y ply x (js_sub cY (Fin 1)) cY s = Some (c, s1)"
      by (cases "loadInitialTiles_y ply x (js_sub cY (Fin 1)) cY s") auto
    have k1: "keeps s s1" using loadInitialTiles_y_keeps [OF l] by simp
    show ?thesis
    proof (cases c)
      case Resolved
      with eq True l have "f ply (js_add x (Fin 1)) cX cY s1 = Some r" by simp
      from keeps_trans [OF k1 IH [OF this]] show ?thesis .
    next
      case Rejected
      with eq True l k1 show ?thesis by auto
    qed
  qed
  from loadInitialTiles_x.raw_induct [where P = "\<lambda>ply x cX cY s r. keeps s (snd r)"
      and xa = "((((ply, x), cX), cY), s)" and y = r, simplified, OF step assms]
  show ?thesis .
qed

lemma loadInitialTiles_keeps:
  assumes "loadInitialTiles ply s = Some (c, s')"
  shows "same_grid s s'" and "scene_ok s \<Longrightarrow> scene_ok s'" and "initial_ok s'"
    and "fst ` set (loadedPointClouds s) \<subseteq> fst ` set (loadedPointClouds s')"
proof -
  let ?s1 = "(clearCurrentPointClouds s)\<lparr>initialTileFiles := []\<rparr>"
  from assms obtain c1 s1 where
    l: "loadInitialTiles_x ply (js_sub (fst (currentTile ?s1)) (Fin 1)) (fst (currentTile ?s1))
          (snd (currentTile ?s1)) ?s1 = Some (c1, s1)"
    and s': "s' = s1 \<or> s' = s1\<lparr>initialTilesLoaded := True\<rparr>"
    by (auto simp: loadInitialTiles_def Let_def split: option.splits completion.splits)
  from loadInitialTiles_x_keeps [OF l] have k: "keeps ?s1 s1" by simp
  have i1: "initial_ok ?s1" by (simp add: initial_ok_def)
  have sg1: "same_grid s ?s1" by (simp add: same_grid_def clearCurrentPointClouds_fields)
  have sc1: "scene_ok ?s1" if "scene_ok s"
    using scene_ok_clear [OF that] by (simp add: scene_ok_def)
  from k have ks: "same_grid ?s1 s1" "scene_ok ?s1 \<Longrightarrow> scene_ok s1"
    "initial_ok ?s1 \<Longrightarrow> initial_ok s1"
    "fst ` set (loadedPointClouds ?s1) \<subseteq> fst ` set (loadedPointClouds s1)"
    unfolding keeps_def by blast+
  from same_grid_trans [OF sg1 ks(1)] s' show "same_grid s s'"
    by (auto simp: same_grid_def)
  from ks(2) sc1 s' show "scene_ok s'" if "scene_ok s" using that by (auto simp: scene_ok_def)
  from ks(3) i1 s' show "initial_ok s'" by (auto simp: initial_ok_def)
  have "loadedPointClouds ?s1 = loadedPointClouds s" by (simp add: clearCurrentPointClouds_fields)
  with ks(4) have "fst ` set (loadedPointClouds s) \<subseteq> fst ` set (loadedPointClouds s1)" by simp
  with s' show "fst ` set (loadedPointClouds s) \<subseteq> fst ` set (loadedPointClouds s')"
    by (elim disjE) simp_all
qed

section \<open>Navigation and folder selection, dense variant\<close>

lemma totalTiles_same_grid:
  "same_grid s s' \<Longrightarrow> totalTilesX s' = totalTilesX s \<and> totalTilesY s' = totalTilesY s"
  by (simp add: same_grid_def totalTilesX_def totalTilesY_def)

lemma isValid_same_grid:
  "same_grid s s' \<Longrightarrow> isValidTilePosition s' a b = isValidTilePosition s a b"
  by (simp add: isValidTilePosition_def totalTiles_same_grid)

lemma position_ok_same_grid: "same_grid s s' \<Longrightarrow> position_ok s \<Longrightarrow> position_ok s'"
  unfolding position_ok_def initialTile_def
  by (simp add: isValid_same_grid totalTiles_same_grid) (simp add: same_grid_def)

text \<open>The three ways \<open>navigate\<close> ends.\<close>

lemma navigate_not_loaded:
  "allTileFiles s = [] \<Longrightarrow> navigate ply direction s = s\<lparr>events := events s @ [AlertLoadFirst]\<rparr>"
  by (simp add: navigate_def)

lemma navigate_accepted:
  assumes "allTileFiles s \<noteq> []"
    and "map_of (allTileFiles s) (destination direction (currentTile s)) \<noteq> None \<or>
         isValidTilePosition s (fst (destination direction (currentTile s)))
           (snd (destination direction (currentTile s)))"
  shows "navigate ply direction s =
           snd (loadCurrentTile ply (s\<lparr>currentTile := destination direction (currentTile s)\<rparr>))"
  using assms by (auto simp: navigate_def Let_def)

lemma navigate_rejected:
  assumes "allTileFiles s \<noteq> []"
    and "map_of (allTileFiles s) (destination direction (currentTile s)) = None"
    and "\<not> isValidTilePosition s (fst (destination direction (currentTile s)))
           (snd (destination direction (currentTile s)))"
  shows "navigate ply direction s = s"
  using assms by (auto simp: navigate_def Let_def)

lemma navigate_cases:
  obtains (not_loaded) "allTileFiles s = []"
      "navigate ply direction s = s\<lparr>events := events s @ [AlertLoadFirst]\<rparr>"
  | (accepted) "allTileFiles s \<noteq> []"
      "map_of (allTileFiles s) (destination direction (currentTile s)) \<noteq> None \<or>
         isValidTilePosition s (fst (destination direction (currentTile s)))
           (snd (destination direction (currentTile s)))"
      "navigate ply direction s =
           snd (loadCurrentTile ply (s\<lparr>currentTile := destination direction (currentTile s)\<rparr>))"
  | (rejected) "allTileFiles s \<noteq> []"
      "map_of (allTileFiles s) (destination direction (currentTile s)) = None"
      "\<not> isValidTilePosition s (fst (destination direction (currentTile s)))
           (snd (destination direction (currentTile s)))"
      "navigate ply direction s = s"
  using navigate_not_loaded navigate_accepted navigate_rejected by blast

lemma moved_keeps:
  "scene_ok (s\<lparr>currentTile := t\<rparr>) = scene_ok s"
  "initial_ok (s\<lparr>currentTile := t\<rparr>) = initial_ok s"
  by (simp_all add: scene_ok_def initial_ok_def)

lemma navigate_scene_ok: "scene_ok s \<Longrightarrow> scene_ok (navigate ply direction s)"
proof (cases rule: navigate_cases [of s ply direction])
  case not_loaded
  assume "scene_ok s"
  with not_loaded show ?thesis by (simp add: scene_ok_def)
next
  case accepted
  assume "scene_ok s"
  then have "scene_ok (s\<lparr>currentTile := destination direction (currentTile s)\<rparr>)"
    by (simp add: moved_keeps)
  with keeps_loadCurrentTile [of "s\<lparr>currentTile := destination direction (currentTile s)\<rparr>" ply]
  show ?thesis unfolding accepted(3) keeps_def by blast
next
  case rejected
  assume "scene_ok s"
  with rejected show ?thesis by simp
qed

lemma navigate_initial_ok: "initial_ok s \<Longrightarrow> initial_ok (navigate ply direction s)"
proof (cases rule: navigate_cases [of s ply direction])
  case not_loaded
  assume "initial_ok s"
  with not_loaded show ?thesis by (simp add: initial_ok_def)
next
  case accepted
  assume "initial_ok s"
  then have "initial_ok (s\<lparr>currentTile := destination direction (currentTile s)\<rparr>)"
    by (simp add: moved_keeps)
  with keeps_loadCurrentTile [of "s\<lparr>currentTile := destination direction (currentTile s)\<rparr>" ply]
  show ?thesis unfolding accepted(3) keeps_def by blast
next
  case rejected
  assume "initial_ok s"
  with rejected show ?thesis by simp
qed

lemma navigate_position_ok: "position_ok s \<Longrightarrow> position_ok (navigate ply direction s)"
proof (cases rule: navigate_cases [of s ply direction])
  case not_loaded
  assume "position_ok s"
  with not_loaded show ?thesis
    by (simp add: position_ok_def initialTile_def isValidTilePosition_def totalTilesX_def
        totalTilesY_def)
next
  case accepted
  let ?m = "s\<lparr>currentTile := destination direction (currentTile s)\<rparr>"
  have "same_grid s ?m \<or> True" by simp
  from accepted(2) have "position_ok ?m"
    by (auto simp: position_ok_def isValidTilePosition_def totalTilesX_def totalTilesY_def)
  moreover from keeps_loadCurrentTile [of ?m ply] have "same_grid ?m (snd (loadCurrentTile ply ?m))"
    by (simp add: keeps_def)
  ultimately show ?thesis unfolding accepted(3) by (rule position_ok_same_grid [rotated])
next
  case rejected
  assume "position_ok s"
  with rejected show ?thesis by simp
qed

lemma navigate_loaded_keys:
  "fst ` set (loadedPointClouds s) \<subseteq> fst ` set (loadedPointClouds (navigate ply direction s))"
proof (cases rule: navigate_cases [of s ply direction])
  case not_loaded
  then show ?thesis by simp
next
  case accepted
  from keeps_loadCurrentTile [of "s\<lparr>currentTile := destination direction (currentTile s)\<rparr>" ply]
  show ?thesis unfolding accepted(3) keeps_def by simp
next
  case rejected
  then show ?thesis by simp
qed

text \<open>Analysis and organization leave the scene alone.\<close>

lemma analyze_organize_scene:
  "scene (calculateGridOrganization (analyzeAllFiles ply s)) = scene s"
  "currentPointClouds (calculateGridOrganization (analyzeAllFiles ply s)) = currentPointClouds s"
  "nextId (calculateGridOrganization (analyzeAllFiles ply s)) = nextId s"
  "loadedPointClouds (calculateGridOrganization (analyzeAllFiles ply s)) = loadedPointClouds s"
  by (cases "fileCoordinates (analyzeAllFiles ply s) = []";
      simp add: calculateGridOrganization_def calculateGrid_empty calculateGrid_gridFrame
        organizeFilesIntoTiles_fields gridFrame_fields analyzeAllFiles_eq)+

lemma analyze_organize_position:
  assumes "position_ok s"
  shows "position_ok (calculateGridOrganization
           (analyzeAllFiles ply (s\<lparr>plyFiles := files, initialTilesLoaded := False\<rparr>)))"
proof (cases "fileCoordinates (analyzeAllFiles ply (s\<lparr>plyFiles := files, initialTilesLoaded := False\<rparr>)) = []")
  case True
  then have "calculateGridOrganization
           (analyzeAllFiles ply (s\<lparr>plyFiles := files, initialTilesLoaded := False\<rparr>)) =
         analyzeAllFiles ply (s\<lparr>plyFiles := files, initialTilesLoaded := False\<rparr>)"
    by (simp add: calculateGridOrganization_def calculateGrid_empty)
  with assms show ?thesis
    by (simp add: analyzeAllFiles_eq position_ok_def initialTile_def isValidTilePosition_def
        totalTilesX_def totalTilesY_def)
next
  case False
  then show ?thesis
    by (simp add: calculateGridOrganization_def calculateGrid_gridFrame position_ok_def
        initialTile_def organizeFilesIntoTiles_currentTile totalTilesX_def totalTilesY_def
        organizeFilesIntoTiles_fields)
qed

lemma handleFolderSelection_cases [consumes 1, case_names no_files files]:
  assumes "handleFolderSelection ply ply' target_files s = Some (c, s')"
  obtains (no_files) "filter (\<lambda>f. endsWith (toLowerCase (name f)) ''.ply'') target_files = []"
      "c = Resolved" "s' = s\<lparr>events := events s @ [AlertNoPlyFiles]\<rparr>"
  | (files) "filter (\<lambda>f. endsWith (toLowerCase (name f)) ''.ply'') target_files \<noteq> []"
      "loadInitialTiles ply'
         (calculateGridOrganization
           (analyzeAllFiles ply
             (s\<lparr>plyFiles := filter (\<lambda>f. endsWith (toLowerCase (name f)) ''.ply'') target_files,
                initialTilesLoaded := False\<rparr>))) = Some (c, s')"
  using assms by (auto simp: handleFolderSelection_def Let_def split: if_splits)

lemma handleFolderSelection_invariants:
  assumes h: "handleFolderSelection ply ply' target_files s = Some (c, s')"
  shows "scene_ok s \<Longrightarrow> scene_ok s'"
    and "initial_ok s \<Longrightarrow> initial_ok s'"
    and "position_ok s \<Longrightarrow> position_ok s'"
    and "fst ` set (loadedPointClouds s) \<subseteq> fst ` set (loadedPointClouds s')"
proof -
  let ?files = "filter (\<lambda>f. endsWith (toLowerCase (name f)) ''.ply'') target_files"
  let ?o = "calculateGridOrganization
           (analyzeAllFiles ply (s\<lparr>plyFiles := ?files, initialTilesLoaded := False\<rparr>))"
  show "scene_ok s'" if "scene_ok s"
  using h proof (cases rule: handleFolderSelection_cases)
    case no_files
    with that show ?thesis by (simp add: scene_ok_def)
  next
    case files
    from that have "scene_ok ?o" by (simp add: scene_ok_def analyze_organize_scene)
    then show ?thesis by (rule loadInitialTiles_keeps(2) [OF files(2)])
  qed
  show "initial_ok s'" if "initial_ok s"
  using h proof (cases rule: handleFolderSelection_cases)
    case no_files
    with that show ?thesis by (simp add: initial_ok_def)
  next
    case files
    from files(2) show ?thesis by (rule loadInitialTiles_keeps(3))
  qed
  show "position_ok s'" if "position_ok s"
  using h proof (cases rule: handleFolderSelection_cases)
    case no_files
    with that show ?thesis
      by (simp add: position_ok_def initialTile_def isValidTilePosition_def totalTilesX_def
          totalTilesY_def)
  next
    case files
    from that have "position_ok ?o" by (rule analyze_organize_position)
    with loadInitialTiles_keeps(1) [OF files(2)] show ?thesis by (rule position_ok_same_grid)
  qed
  show "fst ` set (loadedPointClouds s) \<subseteq> fst ` set (loadedPointClouds s')"
  using h proof (cases rule: handleFolderSelection_cases)
    case no_files
    then show ?thesis by simp
  next
    case files
    from loadInitialTiles_keeps(4) [OF files(2)] show ?thesis
      by (simp add: analyze_organize_scene)
  qed
qed

lemma constructor_invariants:
  "scene_ok constructor" "initial_ok constructor" "position_ok constructor"
  by (simp_all add: scene_ok_def initial_ok_def position_ok_def initialTile_def constructor_def
      totalTilesX_def totalTilesY_def)

lemma reachable_invariants:
  "reachable s \<Longrightarrow> scene_ok s \<and> initial_ok s \<and> position_ok s"
proof (induction rule: reachable.induct)
  case reach_constructor
  then show ?case by (simp add: constructor_invariants)
next
  case (reach_folder s ply ply' target_files c s')
  with handleFolderSelection_invariants [OF reach_folder(2)] show ?case by blast
next
  case (reach_navigate s ply direction)
  then show ?case
    by (simp add: navigate_scene_ok navigate_initial_ok navigate_position_ok)
qed

section \<open>Navigation and folder selection, fixed variant\<close>

lemma loadCurrentTile_fixed_same_grid: "same_grid s (snd (loadCurrentTile_fixed ply s))"
  unfolding loadCurrentTile_fixed_def Let_def
  by (rule same_grid_trans [OF same_grid_clear loadFiles_same_grid])

lemma navigate_fixed_currentTile:
  "currentTile (navigate_fixed ply direction s) = currentTile s \<or>
   (currentTile (navigate_fixed ply direction s) = destination direction (currentTile s) \<and>
    in_3x3 (destination direction (currentTile s)))"
proof (cases "length (allTileFiles s) = 0")
  case True
  then show ?thesis by (simp add: navigate_fixed_def)
next
  case False
  let ?d = "destination direction (currentTile s)"
  show ?thesis
  proof (cases "in_3x3 ?d \<and> length (get_or_empty (allTileFiles s) ?d) > 0")
    case True
    with False have "navigate_fixed ply direction s = snd (loadCurrentTile_fixed ply (s\<lparr>currentTile := ?d\<rparr>))"
      by (simp add: navigate_fixed_def Let_def in_3x3_def)
    with loadCurrentTile_fixed_same_grid [of "s\<lparr>currentTile := ?d\<rparr>" ply] True show ?thesis
      by (simp add: same_grid_def)
  next
    case no: False
    with False have "navigate_fixed ply direction s = s"
      by (auto simp: navigate_fixed_def Let_def in_3x3_def)
    then show ?thesis by simp
  qed
qed

lemma navigate_fixed_out_of_bounds:
  assumes "\<not> in_3x3 (destination direction (currentTile s))"
  shows "currentTile (navigate_fixed ply direction s) = currentTile s"
    and "allTileFiles s \<noteq> [] \<Longrightarrow> navigate_fixed ply direction s = s"
  using assms by (auto simp: navigate_fixed_def Let_def in_3x3_def)

lemma navigate_fixed_empty_tile:
  assumes "get_or_empty (allTileFiles s) (destination direction (currentTile s)) = []"
  shows "currentTile (navigate_fixed ply direction s) = currentTile s"
    and "allTileFiles s \<noteq> [] \<Longrightarrow> navigate_fixed ply direction s = s"
  using assms by (auto simp: navigate_fixed_def Let_def)

lemma loadInitialTiles_fixed_currentTile:
  "currentTile (snd (loadInitialTiles_fixed ply s)) = currentTile s"
proof -
  let ?s1 = "(clearCurrentPointClouds s)\<lparr>initialTileFiles := []\<rparr>"
  have c: "currentTile t' = currentTile t" if "loadFileForTile ply tf t = (k, t')" for tf t k t'
    using loadFileForTile_same_grid [of t ply tf] that by (simp add: same_grid_def)
  show ?thesis
    by (auto simp: loadInitialTiles_fixed_def Let_def clearCurrentPointClouds_fields dest!: c
             split: option.splits list.splits prod.splits completion.splits)
qed

lemma calculateGridOrganization_fixed_currentTile:
  "currentTile (calculateGridOrganization_fixed s) = currentTile s \<or>
   currentTile (calculateGridOrganization_fixed s) = (Fin 1, Fin 1)"
  by (cases "fileCoordinates s = []")
     (simp_all add: calculateGridOrganization_fixed_def calculateGrid_empty calculateGrid_gridFrame
        organizeFilesIntoTiles_fixed_fields)

lemma in_3x3_centre [simp]: "in_3x3 (Fin 1, Fin 1)"
  by (simp add: in_3x3_def js_ge_def)

lemma handleFolderSelection_fixed_in_3x3:
  assumes "in_3x3 (currentTile s)"
  shows "in_3x3 (currentTile (snd (handleFolderSelection_fixed ply ply' target_files s)))"
proof -
  let ?files = "filter (\<lambda>f. endsWith (toLowerCase (name f)) ''.ply'') target_files"
  let ?a = "analyzeAllFiles ply (s\<lparr>plyFiles := ?files, initialTilesLoaded := False\<rparr>)"
  show ?thesis
  proof (cases "length ?files = 0")
    case True
    with assms show ?thesis by (simp add: handleFolderSelection_fixed_def)
  next
    case False
    have "currentTile ?a = currentTile s" by (simp add: analyzeAllFiles_eq)
    with calculateGridOrganization_fixed_currentTile [of ?a] assms
    have "in_3x3 (currentTile (calculateGridOrganization_fixed ?a))" by auto
    with False show ?thesis
      by (simp add: handleFolderSelection_fixed_def Let_def loadInitialTiles_fixed_currentTile)
  qed
qed

lemma reachable_fixed_in_3x3: "reachable_fixed s \<Longrightarrow> in_3x3 (currentTile s)"
proof (induction rule: reachable_fixed.induct)
  case reachf_constructor
  then show ?case by (simp add: constructor_def in_3x3_def js_ge_def)
next
  case (reachf_folder s ply ply' target_files c s')
  from handleFolderSelection_fixed_in_3x3 [OF reachf_folder(3), of ply ply' target_files]
    reachf_folder(2) show ?case by simp
next
  case (reachf_navigate s ply direction)
  with navigate_fixed_currentTile [of ply direction s] show ?case by auto
qed

section \<open>The example sessions\<close>

lemma folderAB_selected:
  "handleFolderSelection loaderAB loaderAB [cloudA, cloudB] constructor = Some (Resolved, folderAB)"
  by code_simp

lemma reachable_folderAB: "reachable folderAB"
  by (rule reach_folder [OF reach_constructor folderAB_selected])

lemma reachable_fixedAB: "reachable_fixed fixedAB"
  unfolding fixedAB_def
  by (rule reachf_folder [OF reachf_constructor]) (rule surjective_pairing)

lemma reachable_fixedAB_left: "reachable_fixed fixedAB_left"
  unfolding fixedAB_left_def by (rule reachf_navigate [OF reachable_fixedAB])


lemma folderAC_selected:
  "handleFolderSelection loaderAC loaderAC [cloudA, cloudC] constructor = Some (Resolved, folderAC)"
  by code_simp

lemma reachable_folderAC: "reachable folderAC"
  by (rule reach_folder [OF reach_constructor folderAC_selected])

section \<open>The fixed grid\<close>

lemma nested_fold:
  "fold (\<lambda>x. fold (\<lambda>y. f x y) ys) xs = fold (\<lambda>c. f (fst c) (snd c)) (List.product xs ys)"
  by (induction xs) (simp_all add: fold_map comp_def)

lemma cellKey_eq [simp]: "cellKey c = cellKey d \<longleftrightarrow> c = d"
  by (cases c, cases d) (simp add: cellKey_def tileKey_def)

lemma length_cells3 [simp]: "length cells3 = 9"
  by (simp add: cells3_def)

lemma distinct_cells3: "distinct cells3"
  by (simp add: cells3_def distinct_product)

lemma set_cells3: "set cells3 = {c. fst c < 3 \<and> snd c < 3}"
  by (auto simp: cells3_def)

lemma cells3_nth: "j < 9 \<Longrightarrow> cells3 ! j = (j div 3, j mod 3)"
  by (simp add: cells3_def product_nth)

lemma initTiles_fixed_cells: "initTiles_fixed = fold (\<lambda>c. AList.update (cellKey c) []) cells3 []"
  by (simp add: initTiles_fixed_def cells3_def nested_fold cellKey_def)

lemma map_of_fold_update:
  "map_of (fold (\<lambda>c. AList.update (g c) v) cs m) k =
     (if k \<in> g ` set cs then Some v else map_of m k)"
  by (induction cs arbitrary: m) (auto simp: update_conv')

lemma distinct_fold_update:
  "distinct (map fst m) \<Longrightarrow> distinct (map fst (fold (\<lambda>c. AList.update (g c) v) cs m))"
  by (induction cs arbitrary: m) (simp_all add: distinct_update)

lemma map_of_initTiles_fixed:
  "map_of initTiles_fixed k = (if k \<in> cellKey ` set cells3 then Some [] else None)"
  by (simp add: initTiles_fixed_cells map_of_fold_update)

lemma distinct_initTiles_fixed: "distinct (map fst initTiles_fixed)"
  by (simp add: initTiles_fixed_cells distinct_fold_update)

lemma assignCell_step:
  "assignCell fs c (i, st) =
     (if i < length fs
      then (Suc i,
            (case map_of (fileCoordinates st) (name (fs ! i)) of
               Some co \<Rightarrow>
                 st\<lparr>allTileFiles := AList.update (cellKey c)
                      [\<lparr>tf_file = fs ! i, originalCoords = co, tileX = Fin (of_nat (fst c)),
                        tileY = Fin (of_nat (snd c))\<rparr>] (allTileFiles st)\<rparr>
             | None \<Rightarrow> st\<lparr>events := events st @ [WarnNoCoordinates (name (fs ! i))]\<rparr>))
      else (i, st))"
  by (simp add: assignCell_def assignTile_fixed_def Let_def cellKey_def split: option.splits)

lemma assignCell_fileCoordinates:
  "fileCoordinates (snd (assignCell fs c acc)) = fileCoordinates (snd acc)"
  by (simp add: assignCell_def assignTile_fixed_fields)

lemma assignCell_other:
  "k \<noteq> cellKey c \<Longrightarrow>
   map_of (allTileFiles (snd (assignCell fs c acc))) k = map_of (allTileFiles (snd acc)) k"
  by (cases acc) (simp add: assignCell_step update_conv' split: option.splits)

lemma assignCell_distinct:
  "distinct (map fst (allTileFiles (snd acc))) \<Longrightarrow>
   distinct (map fst (allTileFiles (snd (assignCell fs c acc))))"
  by (cases acc) (simp add: assignCell_step distinct_update split: option.splits)

lemma assignCells_other:
  "k \<notin> cellKey ` set cs \<Longrightarrow>
   map_of (allTileFiles (snd (fold (assignCell fs) cs acc))) k = map_of (allTileFiles (snd acc)) k"
  by (induction cs arbitrary: acc) (simp_all add: assignCell_other)

lemma assignCells_distinct:
  "distinct (map fst (allTileFiles (snd acc))) \<Longrightarrow>
   distinct (map fst (allTileFiles (snd (fold (assignCell fs) cs acc))))"
  by (induction cs arbitrary: acc) (simp_all add: assignCell_distinct)

lemma assignCells_events:
  "events (snd (fold (assignCell fs) cs (i, st))) =
     events st @ map (\<lambda>f. WarnNoCoordinates (name f))
       (filter (\<lambda>f. map_of (fileCoordinates st) (name f) = None) (take (length cs) (drop i fs)))"
proof (induction cs arbitrary: i st)
  case Nil
  show ?case by simp
next
  case (Cons c cs)
  show ?case
  proof (cases "i < length fs")
    case True
    then have d: "drop i fs = fs ! i # drop (Suc i) fs" by (simp add: Cons_nth_drop_Suc)
    show ?thesis
      by (cases "map_of (fileCoordinates st) (name (fs ! i))")
        (simp_all add: assignCell_step True Cons.IH d)
  next
    case False
    then show ?thesis by (simp add: assignCell_step Cons.IH)
  qed
qed

lemma assignCells_tile:
  assumes "distinct cs" and "j < length cs"
  shows "map_of (allTileFiles (snd (fold (assignCell fs) cs (i, st)))) (cellKey (cs ! j)) =
     (if i + j < length fs
      then (case map_of (fileCoordinates st) (name (fs ! (i + j))) of
              Some co \<Rightarrow>
                Some [\<lparr>tf_file = fs ! (i + j), originalCoords = co,
                       tileX = Fin (of_nat (fst (cs ! j))), tileY = Fin (of_nat (snd (cs ! j)))\<rparr>]
            | None \<Rightarrow> map_of (allTileFiles st) (cellKey (cs ! j)))
      else map_of (allTileFiles st) (cellKey (cs ! j)))"
  using assms
proof (induction cs arbitrary: i st j)
  case Nil
  then show ?case by simp
next
  case (Cons c cs)
  obtain i1 st1 where step: "assignCell fs c (i, st) = (i1, st1)" by (cases "assignCell fs c (i, st)")
  have fc: "fileCoordinates st1 = fileCoordinates st"
    using assignCell_fileCoordinates [of fs c "(i, st)"] step by simp
  show ?case
  proof (cases j)
    case 0
    from Cons.prems have "cellKey c \<notin> cellKey ` set cs" by auto
    then have "map_of (allTileFiles (snd (fold (assignCell fs) cs (i1, st1)))) (cellKey c) =
        map_of (allTileFiles st1) (cellKey c)"
      using assignCells_other [of "cellKey c" cs fs "(i1, st1)"] by simp
    moreover have "map_of (allTileFiles st1) (cellKey c) =
      (if i < length fs
       then (case map_of (fileCoordinates st) (name (fs ! i)) of
              Some co \<Rightarrow>
                Some [\<lparr>tf_file = fs ! i, originalCoords = co,
                       tileX = Fin (of_nat (fst c)), tileY = Fin (of_nat (snd c))\<rparr>]
            | None \<Rightarrow> map_of (allTileFiles st) (cellKey c))
       else map_of (allTileFiles st) (cellKey c))"
      using step by (auto simp: assignCell_step update_conv' split: if_splits option.splits)
    ultimately show ?thesis using step unfolding 0 by (simp split: option.splits)
  next
    case (Suc j')
    with Cons.prems have j': "j' < length cs" and d: "distinct cs" and ne: "cellKey (cs ! j') \<noteq> cellKey c"
      by auto
    note IH = Cons.IH [OF d j', of i1 st1]
    have o: "map_of (allTileFiles st1) (cellKey (cs ! j')) = map_of (allTileFiles st) (cellKey (cs ! j'))"
      using assignCell_other [OF ne, of fs "(i, st)"] step by simp
    show ?thesis
    proof (cases "i < length fs")
      case True
      with step have "i1 = Suc i" by (simp add: assignCell_step)
      then show ?thesis using step IH o fc True unfolding Suc by (simp split: option.splits)
    next
      case False
      with step have "i1 = i" by (simp add: assignCell_step)
      then show ?thesis using step IH o fc False unfolding Suc by (simp split: option.splits)
    qed
  qed
qed

lemma assignCell_fun: "assignCell fs = (\<lambda>c. assignTile_fixed fs (fst c) (snd c))"
  by (rule ext) (simp add: assignCell_def)

lemma organizeFilesIntoTiles_fixed_cells:
  "organizeFilesIntoTiles_fixed s =
     (snd (fold (assignCell (take 9 (plyFiles s))) cells3
        (0, (if length (plyFiles s) < 9
             then s\<lparr>allTileFiles := initTiles_fixed,
                    events := events s @ [WarnOnlyFiles (length (plyFiles s))]\<rparr>
             else s\<lparr>allTileFiles := initTiles_fixed\<rparr>))))\<lparr>currentTile := (Fin 1, Fin 1)\<rparr>"
  by (simp add: organizeFilesIntoTiles_fixed_def Let_def nested_fold cells3_def assignCell_fun
      min_def)

lemma organized_fixed_tile:
  assumes j: "j < 9"
  shows "map_of (allTileFiles (organizeFilesIntoTiles_fixed s))
           (tileKey (Fin (of_nat (j div 3))) (Fin (of_nat (j mod 3)))) =
         Some (if j < length (plyFiles s)
               then (case map_of (fileCoordinates s) (name (plyFiles s ! j)) of
                       Some co \<Rightarrow>
                         [\<lparr>tf_file = plyFiles s ! j, originalCoords = co,
                           tileX = Fin (of_nat (j div 3)), tileY = Fin (of_nat (j mod 3))\<rparr>]
                     | None \<Rightarrow> [])
               else [])"
proof -
  define fs where "fs = take 9 (plyFiles s)"
  define s2 where "s2 = (if length (plyFiles s) < 9
             then s\<lparr>allTileFiles := initTiles_fixed,
                    events := events s @ [WarnOnlyFiles (length (plyFiles s))]\<rparr>
             else s\<lparr>allTileFiles := initTiles_fixed\<rparr>)"
  have k: "tileKey (Fin (of_nat (j div 3))) (Fin (of_nat (j mod 3))) = cellKey (cells3 ! j)"
    by (simp add: cells3_nth j cellKey_def)
  have c: "cells3 ! j = (j div 3, j mod 3)" by (simp add: cells3_nth j)
  have m: "cells3 ! j \<in> set cells3" by (rule nth_mem) (simp add: j)
  have init: "map_of (allTileFiles s2) (cellKey (cells3 ! j)) = Some []"
    using m by (simp add: s2_def map_of_initTiles_fixed)
  have fc: "fileCoordinates s2 = fileCoordinates s" by (simp add: s2_def)
  have l: "j < length fs \<longleftrightarrow> j < length (plyFiles s)" using j by (simp add: fs_def)
  have f: "fs ! j = plyFiles s ! j" using j by (simp add: fs_def)
  have "map_of (allTileFiles (snd (fold (assignCell fs) cells3 (0, s2)))) (cellKey (cells3 ! j)) =
     (if 0 + j < length fs
      then (case map_of (fileCoordinates s2) (name (fs ! (0 + j))) of
              Some co \<Rightarrow>
                Some [\<lparr>tf_file = fs ! (0 + j), originalCoords = co,
                       tileX = Fin (of_nat (fst (cells3 ! j))),
                       tileY = Fin (of_nat (snd (cells3 ! j)))\<rparr>]
            | None \<Rightarrow> map_of (allTileFiles s2) (cellKey (cells3 ! j)))
      else map_of (allTileFiles s2) (cellKey (cells3 ! j)))"
    by (rule assignCells_tile [OF distinct_cells3]) (simp add: j)
  then show ?thesis
    unfolding k organizeFilesIntoTiles_fixed_cells fs_def [symmetric] s2_def [symmetric]
    by (simp add: init init [unfolded c] fc l f c split: option.splits)
qed

lemma organized_fixed_other:
  assumes "k \<notin> cellKey ` set cells3"
  shows "map_of (allTileFiles (organizeFilesIntoTiles_fixed s)) k = None"
  using assms assignCells_other [OF assms]
  by (simp add: organizeFilesIntoTiles_fixed_cells map_of_initTiles_fixed)

lemma cellKeys_cells3:
  "cellKey ` set cells3 = {tileKey (Fin (of_nat x)) (Fin (of_nat y)) |x y. x < (3::nat) \<and> y < (3::nat)}"
proof (intro equalityI subsetI)
  fix k assume "k \<in> cellKey ` set cells3"
  then obtain c where "fst c < 3" "snd c < 3" "k = cellKey c" by (auto simp: set_cells3)
  then show "k \<in> {tileKey (Fin (of_nat x)) (Fin (of_nat y)) |x y. x < (3::nat) \<and> y < (3::nat)}"
    unfolding cellKey_def by blast
next
  fix k assume "k \<in> {tileKey (Fin (of_nat x)) (Fin (of_nat y)) |x y. x < (3::nat) \<and> y < (3::nat)}"
  then obtain x y :: nat where xy: "x < 3" "y < 3" and k: "k = tileKey (Fin (of_nat x)) (Fin (of_nat y))"
    by blast
  from xy have "(x, y) \<in> set cells3" by (simp add: set_cells3)
  moreover have "k = cellKey (x, y)" by (simp add: k cellKey_def)
  ultimately show "k \<in> cellKey ` set cells3" by (rule rev_image_eqI)
qed

lemma organized_fixed_keys:
  "fst ` set (allTileFiles (organizeFilesIntoTiles_fixed s)) = cellKey ` set cells3"
proof -
  have "dom (map_of (allTileFiles (organizeFilesIntoTiles_fixed s))) = cellKey ` set cells3"
  proof (intro equalityI subsetI)
    fix k assume "k \<in> dom (map_of (allTileFiles (organizeFilesIntoTiles_fixed s)))"
    then obtain arr where s: "map_of (allTileFiles (organizeFilesIntoTiles_fixed s)) k = Some arr"
      by (auto simp: domIff)
    show "k \<in> cellKey ` set cells3"
    proof (rule ccontr)
      assume "k \<notin> cellKey ` set cells3"
      from organized_fixed_other [OF this, of s] s show False by simp
    qed
  next
    fix k assume "k \<in> cellKey ` set cells3"
    then obtain c where c: "c \<in> set cells3" and k: "k = cellKey c" by auto
    from c obtain j where j: "j < 9" and cj: "c = cells3 ! j" by (auto simp: in_set_conv_nth)
    have "k = tileKey (Fin (of_nat (j div 3))) (Fin (of_nat (j mod 3)))"
      by (simp add: k cj cells3_nth j cellKey_def)
    with organized_fixed_tile [OF j, of s] show "k \<in> dom (map_of (allTileFiles (organizeFilesIntoTiles_fixed s)))"
      by (simp add: domIff)
  qed
  then show ?thesis by (simp add: dom_map_of_conv_image_fst)
qed

lemma organized_fixed_distinct:
  "distinct (map fst (allTileFiles (organizeFilesIntoTiles_fixed s)))"
proof -
  have "distinct (map fst (allTileFiles (snd (fold (assignCell fs) cells3 (0, s2)))))"
    if "allTileFiles s2 = initTiles_fixed" for fs s2
    by (rule assignCells_distinct) (simp add: that distinct_initTiles_fixed)
  then show ?thesis by (simp add: organizeFilesIntoTiles_fixed_cells)
qed

lemma organized_fixed_events:
  "events (organizeFilesIntoTiles_fixed s) =
     events s @ (if length (plyFiles s) < 9 then [WarnOnlyFiles (length (plyFiles s))] else []) @
     map (\<lambda>f. WarnNoCoordinates (name f))
       (filter (\<lambda>f. map_of (fileCoordinates s) (name f) = None) (take 9 (plyFiles s)))"
  by (simp add: organizeFilesIntoTiles_fixed_cells assignCells_events)

lemma organized_fixed_entries:
  assumes tf: "tf \<in> set (tileEntries (allTileFiles (organizeFilesIntoTiles_fixed s)))"
  shows "\<exists>j<min 9 (length (plyFiles s)). tf_file tf = plyFiles s ! j"
proof -
  let ?tiles = "allTileFiles (organizeFilesIntoTiles_fixed s)"
  from tf obtain k arr where ka: "(k, arr) \<in> set ?tiles" and a: "tf \<in> set arr"
    by (auto simp: tileEntries_def)
  from ka have "k \<in> fst ` set ?tiles" by force
  then have "k \<in> cellKey ` set cells3" by (simp add: organized_fixed_keys)
  then obtain c where c: "c \<in> set cells3" and k: "k = cellKey c" by auto
  from c obtain j where j: "j < 9" and cj: "c = cells3 ! j" by (auto simp: in_set_conv_nth)
  have k': "k = tileKey (Fin (of_nat (j div 3))) (Fin (of_nat (j mod 3)))"
    by (simp add: k cj cells3_nth j cellKey_def)
  from ka have "map_of ?tiles k = Some arr" by (simp add: organized_fixed_distinct)
  with organized_fixed_tile [OF j, of s] have arr: "arr =
       (if j < length (plyFiles s)
               then (case map_of (fileCoordinates s) (name (plyFiles s ! j)) of
                       Some co \<Rightarrow>
                         [\<lparr>tf_file = plyFiles s ! j, originalCoords = co,
                           tileX = Fin (of_nat (j div 3)), tileY = Fin (of_nat (j mod 3))\<rparr>]
                     | None \<Rightarrow> [])
               else [])"
    by (simp add: k')
  show ?thesis
  proof (cases "j < length (plyFiles s)")
    case False
    with a arr show ?thesis by simp
  next
    case True
    show ?thesis
    proof (cases "map_of (fileCoordinates s) (name (plyFiles s ! j))")
      case None
      with a arr True show ?thesis by simp
    next
      case (Some co)
      with a arr True have "tf_file tf = plyFiles s ! j" by simp
      with j True show ?thesis by (intro exI [of _ j]) simp
    qed
  qed
qed

section \<open>The tile size\<close>



section \<open>The partition of the datasets into tiles\<close>

lemma dense_entries_files:
  fixes files :: "jsfile list" and ply :: plyloader and s :: state
  assumes some: "\<exists>f\<in>set files. ply f \<noteq> None"
    and dist: "distinct (map name files)"
  shows "tf_file ` set (tileEntries (allTileFiles
            (calculateGridOrganization (analyzeAllFiles ply (s\<lparr>plyFiles := files\<rparr>))))) =
         {f \<in> set files. ply f \<noteq> None}"
    (is "?L = ?R")
proof -
  let ?s2 = "gridFrame (6 / 5) (analyzeAllFiles ply (s\<lparr>plyFiles := files\<rparr>))"
  let ?es = "analyzed ply files []"
  note T = dense_tiles [OF some, of s]
  have mem: "tf \<in> set (tileEntries (allTileFiles
            (calculateGridOrganization (analyzeAllFiles ply (s\<lparr>plyFiles := files\<rparr>))))) \<longleftrightarrow>
        (\<exists>e\<in>set ?es. entryFor ?s2 e = Some tf)" for tf
  proof -
    from T(8) have "set (tileEntries (allTileFiles
            (calculateGridOrganization (analyzeAllFiles ply (s\<lparr>plyFiles := files\<rparr>))))) =
        set (List.map_filter (entryFor ?s2) ?es)"
      by (rule mset_eq_setD)
    then show ?thesis by (simp add: set_map_filter)
  qed
  have keys: "fst ` set ?es = {name f |f. f \<in> set files \<and> ply f \<noteq> None}"
    by (simp add: analyzed_keys)
  have uniq: "g = h" if "g \<in> set files" "h \<in> set files" "name g = name h" for g h
    using dist that by (auto simp: distinct_map dest: inj_onD)
  show ?thesis
  proof (intro equalityI subsetI)
    fix f assume "f \<in> ?L"
    then obtain tf where "f = tf_file tf" "tf \<in> set (tileEntries (allTileFiles
            (calculateGridOrganization (analyzeAllFiles ply (s\<lparr>plyFiles := files\<rparr>)))))"
      by blast
    then obtain e where tf: "e \<in> set ?es" "entryFor ?s2 e = Some tf" "f = tf_file tf"
      unfolding mem by blast
    from entryFor_Some(1,2) [OF tf(2)] T(3) have f: "name f = fst e" "f \<in> set files"
      by (simp_all add: tf(3))
    from tf(1) have "fst e \<in> fst ` set ?es" by simp
    with keys obtain g where g: "g \<in> set files" "ply g \<noteq> None" "name g = fst e" by auto
    with f uniq have "g = f" by simp
    with g f show "f \<in> ?R" by simp
  next
    fix f assume "f \<in> ?R"
    then have f: "f \<in> set files" "ply f \<noteq> None" by auto
    with keys have "name f \<in> fst ` set ?es" by auto
    then obtain e where e: "e \<in> set ?es" "fst e = name f" by auto
    with f(1) T(3) have "fst e \<in> name ` set (plyFiles ?s2)" by simp
    then obtain tf where tf: "entryFor ?s2 e = Some tf" using entryFor_found by blast
    from entryFor_Some(1,2) [OF tf] T(3) e have "name (tf_file tf) = name f" "tf_file tf \<in> set files"
      by simp_all
    with uniq f(1) have eq: "tf_file tf = f" by simp
    from e(1) tf have "tf \<in> set (tileEntries (allTileFiles
            (calculateGridOrganization (analyzeAllFiles ply (s\<lparr>plyFiles := files\<rparr>)))))"
      unfolding mem by blast
    then show "f \<in> ?L" unfolding eq [symmetric] by (rule imageI)
  qed
qed

text \<open>
  C3. When at least one file of the folder is analyzed successfully, the dense
  \<open>calculateGridOrganization\<close> makes a partition: the tile map has distinct keys; no
  dataset name occurs twice in all the arrays of all the tiles; the names that occur are
  exactly the names of the files whose extraction succeeded; each such name is in the
  array of exactly one tile key; and when the names of the files are pairwise distinct,
  the files of the tiles are exactly the files whose extraction succeeded.
\<close>

theorem C3_partition:
  fixes files :: "jsfile list" and ply :: plyloader and s :: state
  defines "s' \<equiv> calculateGridOrganization (analyzeAllFiles ply (s\<lparr>plyFiles := files\<rparr>))"
  assumes some: "\<exists>f\<in>set files. ply f \<noteq> None"
  shows "distinct (map fst (allTileFiles s')) \<and>
    distinct (map (name \<circ> tf_file) (tileEntries (allTileFiles s'))) \<and>
    set (map (name \<circ> tf_file) (tileEntries (allTileFiles s'))) =
      {name f |f. f \<in> set files \<and> ply f \<noteq> None} \<and>
    (\<forall>f\<in>set files. ply f \<noteq> None \<longrightarrow>
       (\<exists>!k. name f \<in> (name \<circ> tf_file) ` set (get_or_empty (allTileFiles s') k))) \<and>
    (distinct (map name files) \<longrightarrow>
       tf_file ` set (tileEntries (allTileFiles s')) = {f \<in> set files. ply f \<noteq> None})"
proof -
  let ?es = "analyzed ply files []"
  note T = dense_tiles [OF some, of s, folded s'_def]
  have names: "mset (map (name \<circ> tf_file) (tileEntries (allTileFiles s'))) = mset (map fst ?es)"
  proof -
    have "mset (map (name \<circ> tf_file) (tileEntries (allTileFiles s'))) =
          mset (map (name \<circ> tf_file) (List.map_filter
                  (entryFor (gridFrame (6 / 5) (analyzeAllFiles ply (s\<lparr>plyFiles := files\<rparr>)))) ?es))"
      unfolding mset_map T(8) ..
    with T(9) show ?thesis by simp
  qed
  have dk: "distinct (map fst (allTileFiles s'))" by (rule T(6))
  have "distinct (map fst ?es)" by (rule analyzed_distinct) simp
  with names have dn: "distinct (map (name \<circ> tf_file) (tileEntries (allTileFiles s')))"
    using mset_eq_imp_distinct_iff by blast
  from names have "set (map (name \<circ> tf_file) (tileEntries (allTileFiles s'))) = set (map fst ?es)"
    by (rule mset_eq_setD)
  then have sn: "set (map (name \<circ> tf_file) (tileEntries (allTileFiles s'))) =
      {name f |f. f \<in> set files \<and> ply f \<noteq> None}"
    by (simp add: analyzed_keys)
  have one: "\<exists>!k. name f \<in> (name \<circ> tf_file) ` set (get_or_empty (allTileFiles s') k)"
    if f: "f \<in> set files" "ply f \<noteq> None" for f
  proof (rule ex_ex1I)
    from f sn have "name f \<in> set (map (name \<circ> tf_file) (tileEntries (allTileFiles s')))" by auto
    then obtain tf where tf: "tf \<in> set (tileEntries (allTileFiles s'))" "name (tf_file tf) = name f"
      by auto
    from keyed_entry_place [OF T(7) dk tf(1)] tf(2)
    have "name f \<in> (name \<circ> tf_file) `
            set (get_or_empty (allTileFiles s') (tileKey (tileX tf) (tileY tf)))"
      by (simp add: image_iff) (rule bexI [of _ tf], simp_all)
    then show "\<exists>k. name f \<in> (name \<circ> tf_file) ` set (get_or_empty (allTileFiles s') k)" ..
  next
    fix k1 k2
    assume 1: "name f \<in> (name \<circ> tf_file) ` set (get_or_empty (allTileFiles s') k1)"
      and 2: "name f \<in> (name \<circ> tf_file) ` set (get_or_empty (allTileFiles s') k2)"
    from 1 obtain a1 where a1: "map_of (allTileFiles s') k1 = Some a1"
      "name f \<in> (name \<circ> tf_file) ` set a1"
      by (cases "map_of (allTileFiles s') k1") (auto simp: get_or_empty_def)
    from 2 obtain a2 where a2: "map_of (allTileFiles s') k2 = Some a2"
      "name f \<in> (name \<circ> tf_file) ` set a2"
      by (cases "map_of (allTileFiles s') k2") (auto simp: get_or_empty_def)
    from dn a1(1) a2(1) a1(2) a2(2) show "k1 = k2" by (rule one_tile_per_name)
  qed
  have files_eq: "tf_file ` set (tileEntries (allTileFiles s')) = {f \<in> set files. ply f \<noteq> None}"
    if "distinct (map name files)"
    unfolding s'_def using some that by (rule dense_entries_files)
  show ?thesis
  proof (intro conjI ballI impI)
    show "distinct (map fst (allTileFiles s'))" by (rule dk)
    show "distinct (map (name \<circ> tf_file) (tileEntries (allTileFiles s')))" by (rule dn)
    show "set (map (name \<circ> tf_file) (tileEntries (allTileFiles s'))) =
      {name f |f. f \<in> set files \<and> ply f \<noteq> None}" by (rule sn)
    show "\<exists>!k. name f \<in> (name \<circ> tf_file) ` set (get_or_empty (allTileFiles s') k)"
      if "f \<in> set files" "ply f \<noteq> None" for f using that by (rule one)
    show "tf_file ` set (tileEntries (allTileFiles s')) = {f \<in> set files. ply f \<noteq> None}"
      if "distinct (map name files)" using that by (rule files_eq)
  qed
qed

theorem C3_partition_witness:
  "distinct (map fst (allTileFiles (calculateGridOrganization
      (analyzeAllFiles loaderAB (constructor\<lparr>plyFiles := [cloudA, cloudB, cloudC]\<rparr>))))) \<and>
   distinct (map (name \<circ> tf_file) (tileEntries (allTileFiles (calculateGridOrganization
      (analyzeAllFiles loaderAB (constructor\<lparr>plyFiles := [cloudA, cloudB, cloudC]\<rparr>)))))) \<and>
   set (map (name \<circ> tf_file) (tileEntries (allTileFiles (calculateGridOrganization
      (analyzeAllFiles loaderAB (constructor\<lparr>plyFiles := [cloudA, cloudB, cloudC]\<rparr>)))))) =
     {''a.ply'', ''b.ply''} \<and>
   tf_file ` set (tileEntries (allTileFiles (calculateGridOrganization
      (analyzeAllFiles loaderAB (constructor\<lparr>plyFiles := [cloudA, cloudB, cloudC]\<rparr>))))) =
     {cloudA, cloudB}"
proof -
  have h: "\<exists>f\<in>set [cloudA, cloudB, cloudC]. loaderAB f \<noteq> None"
    by simp
  have d: "distinct (map name [cloudA, cloudB, cloudC])"
    by simp
  have n: "{name f |f. f \<in> set [cloudA, cloudB, cloudC] \<and> loaderAB f \<noteq> None} = {''a.ply'', ''b.ply''}"
  proof (intro equalityI subsetI)
    fix n assume "n \<in> {name f |f. f \<in> set [cloudA, cloudB, cloudC] \<and> loaderAB f \<noteq> None}"
    then show "n \<in> {''a.ply'', ''b.ply''}" by auto
  next
    fix n assume "n \<in> {''a.ply'', ''b.ply''}"
    then consider "n = name cloudA" | "n = name cloudB" by auto
    then show "n \<in> {name f |f. f \<in> set [cloudA, cloudB, cloudC] \<and> loaderAB f \<noteq> None}"
    proof cases
      case 1
      show ?thesis unfolding 1 by (rule CollectI, rule exI [of _ cloudA]) simp
    next
      case 2
      show ?thesis unfolding 2 by (rule CollectI, rule exI [of _ cloudB]) simp
    qed
  qed
  have f: "{f \<in> set [cloudA, cloudB, cloudC]. loaderAB f \<noteq> None} = {cloudA, cloudB}"
    by auto
  note T = C3_partition [OF h, of constructor, unfolded n f]
  from T have 1: "distinct (map fst (allTileFiles (calculateGridOrganization
      (analyzeAllFiles loaderAB (constructor\<lparr>plyFiles := [cloudA, cloudB, cloudC]\<rparr>)))))"
    by (rule conjunct1)
  from T have 2: "distinct (map (name \<circ> tf_file) (tileEntries (allTileFiles (calculateGridOrganization
      (analyzeAllFiles loaderAB (constructor\<lparr>plyFiles := [cloudA, cloudB, cloudC]\<rparr>))))))"
    by (rule conjunct2 [THEN conjunct1])
  from T have 3: "set (map (name \<circ> tf_file) (tileEntries (allTileFiles (calculateGridOrganization
      (analyzeAllFiles loaderAB (constructor\<lparr>plyFiles := [cloudA, cloudB, cloudC]\<rparr>)))))) =
     {''a.ply'', ''b.ply''}"
    by (rule conjunct2 [THEN conjunct2, THEN conjunct1])
  from T have "distinct (map name [cloudA, cloudB, cloudC]) \<longrightarrow>
    tf_file ` set (tileEntries (allTileFiles (calculateGridOrganization
      (analyzeAllFiles loaderAB (constructor\<lparr>plyFiles := [cloudA, cloudB, cloudC]\<rparr>))))) =
     {cloudA, cloudB}"
    by (rule conjunct2 [THEN conjunct2, THEN conjunct2, THEN conjunct2])
  with d have 4: "tf_file ` set (tileEntries (allTileFiles (calculateGridOrganization
      (analyzeAllFiles loaderAB (constructor\<lparr>plyFiles := [cloudA, cloudB, cloudC]\<rparr>))))) =
     {cloudA, cloudB}" by (rule rev_mp)
  from 1 2 3 4 show ?thesis by (intro conjI)
qed

section \<open>Extraction failures\<close>

lemma count_failure_reports:
  assumes "distinct (map name files)" "f \<in> set files" "ply f = None"
  shows "length (filter (\<lambda>e. e = ErrorAnalyzing (name f))
            (map (\<lambda>g. ErrorAnalyzing (name g)) (filter (\<lambda>g. ply g = None) files))) = 1"
  using assms
proof (induction files)
  case Nil
  then show ?case by simp
next
  case (Cons g files)
  have none: "filter (\<lambda>e. e = ErrorAnalyzing (name f))
            (map (\<lambda>g. ErrorAnalyzing (name g)) (filter (\<lambda>g. ply g = None) files)) = []"
    if "name f \<notin> name ` set files"
    using that by (auto simp: filter_empty_conv image_iff)
  show ?case
  proof (cases "g = f")
    case True
    with Cons.prems have "name f \<notin> name ` set files" by auto
    from none [OF this] True Cons.prems(3) show ?thesis by simp
  next
    case False
    with Cons.prems have in_rest: "f \<in> set files" and d: "distinct (map name files)" by auto
    with Cons.prems(1) have "name g \<noteq> name f" by auto
    with Cons.IH [OF d in_rest Cons.prems(3)] show ?thesis by simp
  qed
qed

lemma dense_events:
  fixes files :: "jsfile list" and ply :: plyloader and s :: state
  shows "events (calculateGridOrganization (analyzeAllFiles ply (s\<lparr>plyFiles := files\<rparr>))) =
     events s @ map (\<lambda>g. ErrorAnalyzing (name g)) (filter (\<lambda>g. ply g = None) files)"
proof (cases "fileCoordinates (analyzeAllFiles ply (s\<lparr>plyFiles := files\<rparr>)) = []")
  case True
  then show ?thesis
    by (simp add: calculateGridOrganization_def calculateGrid_empty) (simp add: analyzeAllFiles_eq)
next
  case False
  then show ?thesis
    by (simp add: calculateGridOrganization_def calculateGrid_gridFrame organizeFilesIntoTiles_fields
        gridFrame_fields) (simp add: analyzeAllFiles_eq)
qed

text \<open>
  C9. In a folder of files with pairwise distinct names of which at least one is analyzed
  successfully, a file \<open>f\<close> whose extraction fails gets no entry in \<open>fileCoordinates\<close>
  and is in no tile; the tiles hold exactly the files whose extraction succeeded, so the
  failure does not abort the batch; the pass reports one \<open>Error analyzing file\<close> for each
  failing file, in input order, and nothing else, so exactly one more such report names
  \<open>f\<close> after the pass than before.
\<close>

theorem C9_extraction_failure:
  fixes files :: "jsfile list" and ply :: plyloader and s :: state and f :: jsfile
  defines "s' \<equiv> calculateGridOrganization (analyzeAllFiles ply (s\<lparr>plyFiles := files\<rparr>))"
  assumes dist: "distinct (map name files)"
    and f: "f \<in> set files" "ply f = None"
    and some: "\<exists>g\<in>set files. ply g \<noteq> None"
  shows "name f \<notin> fst ` set (fileCoordinates s') \<and>
    f \<notin> tf_file ` set (tileEntries (allTileFiles s')) \<and>
    tf_file ` set (tileEntries (allTileFiles s')) = {g \<in> set files. ply g \<noteq> None} \<and>
    events s' = events s @ map (\<lambda>g. ErrorAnalyzing (name g)) (filter (\<lambda>g. ply g = None) files) \<and>
    length (filter (\<lambda>e. e = ErrorAnalyzing (name f)) (events s')) =
      length (filter (\<lambda>e. e = ErrorAnalyzing (name f)) (events s)) + 1"
proof -
  note T = dense_tiles [OF some, of s, folded s'_def]
  have uniq: "g = h" if "g \<in> set files" "h \<in> set files" "name g = name h" for g h
    using dist that by (auto simp: distinct_map dest: inj_onD)
  have 1: "name f \<notin> fst ` set (fileCoordinates s')"
  proof
    assume "name f \<in> fst ` set (fileCoordinates s')"
    then obtain g where g: "g \<in> set files" "ply g \<noteq> None" "name g = name f"
      unfolding T(2) analyzed_keys by auto
    from uniq [OF g(1) f(1) g(3)] g(2) f(2) show False by simp
  qed
  have 3: "tf_file ` set (tileEntries (allTileFiles s')) = {g \<in> set files. ply g \<noteq> None}"
    unfolding s'_def using some dist by (rule dense_entries_files)
  with f have 2: "f \<notin> tf_file ` set (tileEntries (allTileFiles s'))" by simp
  have 4: "events s' =
      events s @ map (\<lambda>g. ErrorAnalyzing (name g)) (filter (\<lambda>g. ply g = None) files)"
    unfolding s'_def by (rule dense_events)
  have 5: "length (filter (\<lambda>e. e = ErrorAnalyzing (name f)) (events s')) =
      length (filter (\<lambda>e. e = ErrorAnalyzing (name f)) (events s)) + 1"
    unfolding 4 using count_failure_reports [of files f ply, OF dist f] by simp
  from 1 2 3 4 5 show ?thesis by (intro conjI)
qed

theorem C9_extraction_failure_witness:
  "name cloudC \<notin> fst ` set (fileCoordinates (calculateGridOrganization
      (analyzeAllFiles loaderAB (constructor\<lparr>plyFiles := [cloudA, cloudC, cloudB]\<rparr>)))) \<and>
   cloudC \<notin> tf_file ` set (tileEntries (allTileFiles (calculateGridOrganization
      (analyzeAllFiles loaderAB (constructor\<lparr>plyFiles := [cloudA, cloudC, cloudB]\<rparr>))))) \<and>
   tf_file ` set (tileEntries (allTileFiles (calculateGridOrganization
      (analyzeAllFiles loaderAB (constructor\<lparr>plyFiles := [cloudA, cloudC, cloudB]\<rparr>))))) =
     {cloudA, cloudB} \<and>
   events (calculateGridOrganization
      (analyzeAllFiles loaderAB (constructor\<lparr>plyFiles := [cloudA, cloudC, cloudB]\<rparr>))) =
     [ErrorAnalyzing ''c.ply'']"
proof -
  have d: "distinct (map name [cloudA, cloudC, cloudB])" by simp
  have m: "cloudC \<in> set [cloudA, cloudC, cloudB]" by simp
  have n: "loaderAB cloudC = None" by simp
  have h: "\<exists>g\<in>set [cloudA, cloudC, cloudB]. loaderAB g \<noteq> None" by simp
  have f: "{g \<in> set [cloudA, cloudC, cloudB]. loaderAB g \<noteq> None} = {cloudA, cloudB}" by auto
  have e: "events constructor @ map (\<lambda>g. ErrorAnalyzing (name g))
             (filter (\<lambda>g. loaderAB g = None) [cloudA, cloudC, cloudB]) = [ErrorAnalyzing ''c.ply'']"
    by (simp add: constructor_def)
  note T = C9_extraction_failure [OF d m n h, of constructor, unfolded f e]
  from T show ?thesis by blast
qed

section \<open>Tile coordinates and grid extent\<close>

lemma floor_div_Fin:
  "0 < t \<Longrightarrow> Math_floor (js_div (js_sub (Fin a) (Fin b)) (Fin t)) = Fin (of_int \<lfloor>(a - b) / t\<rfloor>)"
  by simp

lemma ceil_div_Fin:
  "0 < t \<Longrightarrow> Math_ceil (js_div (js_sub (Fin a) (Fin b)) (Fin t)) = Fin (of_int \<lceil>(a - b) / t\<rceil>)"
  by simp



section \<open>Boundaries of the navigation\<close>




section \<open>Moving to an empty tile\<close>

lemma loadCurrentTile_nothing:
  assumes "scene_ok s"
    and "(if initialTilesLoaded s then get_or_empty (allTileFiles s) (currentTile s)
          else get_or_empty (initialTileFiles s) (currentTile s)) = []"
  shows "currentPointClouds (snd (loadCurrentTile ply s)) = []"
    and "scene (snd (loadCurrentTile ply s)) = [AmbientLight, DirectionalLight]"
    and "currentTile (snd (loadCurrentTile ply s)) = currentTile s"
proof -
  from assms(2) have "loadCurrentTile ply s = (Resolved, clearCurrentPointClouds s)"
    by (cases "initialTilesLoaded s")
       (simp_all add: loadCurrentTile_def Let_def clearCurrentPointClouds_fields)
  with assms(1) show "currentPointClouds (snd (loadCurrentTile ply s)) = []"
    and "scene (snd (loadCurrentTile ply s)) = [AmbientLight, DirectionalLight]"
    and "currentTile (snd (loadCurrentTile ply s)) = currentTile s"
    by (simp_all add: clearCurrentPointClouds_fields clear_scene)
qed

lemma initial_ok_empty:
  assumes "initial_ok s" "get_or_empty (allTileFiles s) k = []"
  shows "get_or_empty (initialTileFiles s) k = []"
proof (cases "map_of (initialTileFiles s) k")
  case None
  then show ?thesis by (simp add: get_or_empty_def)
next
  case (Some fs)
  with assms(1) obtain tf rest where "map_of (allTileFiles s) k = Some (tf # rest)"
    unfolding initial_ok_def by blast
  with assms(2) show ?thesis by (simp add: get_or_empty_def)
qed

text \<open>
  C7. In a reachable state of the dense variant with files loaded, a move whose
  destination is inside the grid and has no datasets assigned is accepted: the current
  tile becomes the destination, and no point cloud is current or in the scene. In the
  fixed variant a move whose destination is inside the 3x3 grid and has no datasets
  assigned is rejected: the current tile stays, and the whole state when files are
  loaded.
\<close>

theorem C7_empty_tile:
  "(reachable s \<and> allTileFiles s \<noteq> [] \<and>
    isValidTilePosition s (fst (destination direction (currentTile s)))
      (snd (destination direction (currentTile s))) \<and>
    get_or_empty (allTileFiles s) (destination direction (currentTile s)) = [] \<longrightarrow>
      currentTile (navigate ply direction s) = destination direction (currentTile s) \<and>
      currentPointClouds (navigate ply direction s) = [] \<and>
      scene (navigate ply direction s) = [AmbientLight, DirectionalLight]) \<and>
   (in_3x3 (destination direction (currentTile t)) \<and>
    get_or_empty (allTileFiles t) (destination direction (currentTile t)) = [] \<longrightarrow>
      currentTile (navigate_fixed ply direction t) = currentTile t \<and>
      (allTileFiles t \<noteq> [] \<longrightarrow> navigate_fixed ply direction t = t))"
proof (intro conjI impI)
  let ?d = "destination direction (currentTile s)"
  let ?m = "s\<lparr>currentTile := ?d\<rparr>"
  assume a: "reachable s \<and> allTileFiles s \<noteq> [] \<and>
    isValidTilePosition s (fst ?d) (snd ?d) \<and> get_or_empty (allTileFiles s) ?d = []"
  then have inv: "scene_ok s" "initial_ok s" by (simp_all add: reachable_invariants)
  from a have n: "navigate ply direction s = snd (loadCurrentTile ply ?m)"
    by (simp add: navigate_accepted)
  from inv have m: "scene_ok ?m" "initial_ok ?m" by (simp_all add: moved_keeps)
  from a have e: "get_or_empty (allTileFiles ?m) (currentTile ?m) = []" by simp
  from initial_ok_empty [OF m(2) e] e
  have none: "(if initialTilesLoaded ?m then get_or_empty (allTileFiles ?m) (currentTile ?m)
          else get_or_empty (initialTileFiles ?m) (currentTile ?m)) = []" by simp
  from loadCurrentTile_nothing [OF m(1) none, of ply]
  show "currentTile (navigate ply direction s) = ?d"
    and "currentPointClouds (navigate ply direction s) = []"
    and "scene (navigate ply direction s) = [AmbientLight, DirectionalLight]"
    unfolding n by simp_all
next
  assume "in_3x3 (destination direction (currentTile t)) \<and>
    get_or_empty (allTileFiles t) (destination direction (currentTile t)) = []"
  then show "currentTile (navigate_fixed ply direction t) = currentTile t"
    by (simp add: navigate_fixed_empty_tile)
next
  assume "in_3x3 (destination direction (currentTile t)) \<and>
    get_or_empty (allTileFiles t) (destination direction (currentTile t)) = []"
    and "allTileFiles t \<noteq> []"
  then show "navigate_fixed ply direction t = t"
    by (simp add: navigate_fixed_empty_tile)
qed

theorem C7_empty_tile_witness:
  "currentTile folderAC = (Fin 1, Fin 1) \<and>
   currentTile (navigate loaderAC ''left'' folderAC) = (Fin 0, Fin 1) \<and>
   currentPointClouds (navigate loaderAC ''left'' folderAC) = [] \<and>
   scene (navigate loaderAC ''left'' folderAC) = [AmbientLight, DirectionalLight] \<and>
   currentTile fixedAB = (Fin 1, Fin 1) \<and>
   navigate_fixed loaderAB ''right'' fixedAB = fixedAB"
proof -
  note T = C7_empty_tile [where s = folderAC and direction = "''left''" and ply = loaderAC]
  have p: "allTileFiles folderAC \<noteq> []"
    "isValidTilePosition folderAC (fst (destination ''left'' (currentTile folderAC)))
      (snd (destination ''left'' (currentTile folderAC)))"
    "get_or_empty (allTileFiles folderAC) (destination ''left'' (currentTile folderAC)) = []"
    "destination ''left'' (currentTile folderAC) = (Fin 0, Fin 1)"
    "currentTile folderAC = (Fin 1, Fin 1)"
    by code_simp+
  from T [THEN conjunct1] reachable_folderAC p
  have 1: "currentTile (navigate loaderAC ''left'' folderAC) = (Fin 0, Fin 1) \<and>
      currentPointClouds (navigate loaderAC ''left'' folderAC) = [] \<and>
      scene (navigate loaderAC ''left'' folderAC) = [AmbientLight, DirectionalLight]"
    by simp
  note U = C7_empty_tile [where t = fixedAB and direction = "''right''" and ply = loaderAB]
  have q: "in_3x3 (destination ''right'' (currentTile fixedAB))"
    "get_or_empty (allTileFiles fixedAB) (destination ''right'' (currentTile fixedAB)) = []"
    "allTileFiles fixedAB \<noteq> []" "currentTile fixedAB = (Fin 1, Fin 1)"
    by code_simp+
  from U [THEN conjunct2] q have 2: "navigate_fixed loaderAB ''right'' fixedAB = fixedAB"
    by simp
  from 1 2 p(5) q(4) show ?thesis by simp
qed

section \<open>The resident set after an activation\<close>

lemma initial_ok_first:
  assumes "initial_ok s"
  shows "get_or_empty (initialTileFiles s) k = [] \<or>
         get_or_empty (initialTileFiles s) k = take 1 (get_or_empty (allTileFiles s) k)"
proof (cases "map_of (initialTileFiles s) k")
  case None
  then show ?thesis by (simp add: get_or_empty_def)
next
  case (Some fs)
  with assms obtain tf rest where "map_of (allTileFiles s) k = Some (tf # rest)" "fs = [tf]"
    unfolding initial_ok_def by blast
  with Some show ?thesis by (simp add: get_or_empty_def)
qed

text \<open>
  A load that fails aborts the activation: \<open>c.ply\<close>, the second dataset of tile
  \<open>(0, 0)\<close>, decodes, but is not loaded when \<open>a.ply\<close>, the first, fails.
\<close>

theorem C2_resident_set_counterexample:
  "reachable (navigate loaderC ''down'' (navigate loaderC ''left'' folderAC)) \<and>
   currentTile (navigate loaderC ''down'' (navigate loaderC ''left'' folderAC)) = (Fin 0, Fin 0) \<and>
   initialTilesLoaded (navigate loaderC ''left'' folderAC) \<and>
   map tf_file (get_or_empty (allTileFiles (navigate loaderC ''left'' folderAC)) (Fin 0, Fin 0)) =
     [cloudA, cloudC] \<and>
   loaderC cloudA = None \<and> loaderC cloudC \<noteq> None \<and>
   currentPointClouds (navigate loaderC ''down'' (navigate loaderC ''left'' folderAC)) = []"
proof (intro conjI)
  show "reachable (navigate loaderC ''down'' (navigate loaderC ''left'' folderAC))"
    by (intro reach_navigate reachable_folderAC)
  show "currentTile (navigate loaderC ''down'' (navigate loaderC ''left'' folderAC)) = (Fin 0, Fin 0)"
    by code_simp
  show "initialTilesLoaded (navigate loaderC ''left'' folderAC)" by code_simp
  show "map tf_file (get_or_empty (allTileFiles (navigate loaderC ''left'' folderAC)) (Fin 0, Fin 0)) =
     [cloudA, cloudC]" by code_simp
  show "loaderC cloudA = None" by code_simp
  show "loaderC cloudC \<noteq> None" by code_simp
  show "currentPointClouds (navigate loaderC ''down'' (navigate loaderC ''left'' folderAC)) = []"
    by code_simp
qed

text \<open>
  C2, as amended. Let \<open>loadCurrentTile\<close> run on a tile \<open>t\<close> from a reachable state, and
  let \<open>required\<close> be the list the mode selects: the array of \<open>t\<close> in \<open>allTileFiles\<close> once
  the initial pass has completed, and the array of \<open>t\<close> in \<open>initialTileFiles\<close> before
  (which is empty, or the first element of the array of \<open>t\<close> in \<open>allTileFiles\<close>).
  Afterwards the current point clouds are those of the datasets of \<open>required\<close> that come
  before the first one whose load fails, one each and in order: all of \<open>required\<close> when
  no load fails. The point clouds of the scene are the current ones. They are new
  objects: none of the point clouds current before is current or in the scene.
\<close>

theorem C2_resident_set:
  fixes s :: state and t :: tilekey and ply :: plyloader
  defines "s' \<equiv> snd (loadCurrentTile ply (s\<lparr>currentTile := t\<rparr>))"
  defines "required \<equiv>
    (if initialTilesLoaded s then get_or_empty (allTileFiles s) t
     else get_or_empty (initialTileFiles s) t)"
  assumes r: "reachable s"
  shows "map source (currentPointClouds s') =
      map tf_file (takeWhile (\<lambda>tf. ply (tf_file tf) \<noteq> None) required) \<and>
    ((\<forall>tf\<in>set required. ply (tf_file tf) \<noteq> None) \<longrightarrow>
       map source (currentPointClouds s') = map tf_file required) \<and>
    scene s' = [AmbientLight, DirectionalLight] @ map PointsObj (currentPointClouds s') \<and>
    distinct (currentPointClouds s') \<and>
    (\<forall>p\<in>set (currentPointClouds s).
       p \<notin> set (currentPointClouds s') \<and> PointsObj p \<notin> set (scene s')) \<and>
    (\<not> initialTilesLoaded s \<longrightarrow>
       required = [] \<or> required = take 1 (get_or_empty (allTileFiles s) t))"
proof -
  let ?m = "s\<lparr>currentTile := t\<rparr>"
  from r have inv: "scene_ok s" "initial_ok s" by (simp_all add: reachable_invariants)
  then have m: "scene_ok ?m" by (simp add: moved_keeps)
  have 1: "map source (currentPointClouds s') =
      map tf_file (takeWhile (\<lambda>tf. ply (tf_file tf) \<noteq> None) required)"
    unfolding s'_def required_def by (simp add: loadCurrentTile_sources)
  have 2: "map source (currentPointClouds s') = map tf_file required"
    if "\<forall>tf\<in>set required. ply (tf_file tf) \<noteq> None"
  proof -
    from that have "takeWhile (\<lambda>tf. ply (tf_file tf) \<noteq> None) required = required"
      by (simp only: takeWhile_eq_all_conv)
    then show ?thesis unfolding 1 by (rule arg_cong)
  qed
  from keeps_loadCurrentTile [of ?m ply] m have ok: "scene_ok s'"
    unfolding s'_def keeps_def by blast
  then have 3: "scene s' = [AmbientLight, DirectionalLight] @ map PointsObj (currentPointClouds s')"
    and 4: "distinct (currentPointClouds s')"
    unfolding scene_ok_def by (auto simp: distinct_map)
  have fresh: "\<forall>p\<in>set (currentPointClouds s'). nextId s \<le> pid p"
    unfolding s'_def using loadCurrentTile_fresh [of ply ?m] by simp
  have 5: "p \<notin> set (currentPointClouds s') \<and> PointsObj p \<notin> set (scene s')"
    if "p \<in> set (currentPointClouds s)" for p
  proof -
    from inv(1) that have "pid p < nextId s" unfolding scene_ok_def by blast
    with fresh have "p \<notin> set (currentPointClouds s')" by auto
    then show ?thesis unfolding 3 by auto
  qed
  have 6: "required = [] \<or> required = take 1 (get_or_empty (allTileFiles s) t)"
    if "\<not> initialTilesLoaded s"
    using that initial_ok_first [OF inv(2), of t] by (simp add: required_def)
  from 1 2 3 4 5 6 show ?thesis by blast
qed

theorem C2_resident_set_witness:
  "map source (currentPointClouds (snd (loadCurrentTile loaderAC
      ((navigate loaderC ''left'' folderAC)\<lparr>currentTile := (Fin 0, Fin 0)\<rparr>)))) = [cloudA, cloudC] \<and>
   map source (currentPointClouds (snd (loadCurrentTile loaderC
      ((navigate loaderC ''left'' folderAC)\<lparr>currentTile := (Fin 0, Fin 0)\<rparr>)))) = []"
proof -
  have r: "reachable (navigate loaderC ''left'' folderAC)"
    by (intro reach_navigate reachable_folderAC)
  have l: "initialTilesLoaded (navigate loaderC ''left'' folderAC)" by code_simp
  have a: "map tf_file (get_or_empty (allTileFiles (navigate loaderC ''left'' folderAC)) (Fin 0, Fin 0)) =
     [cloudA, cloudC]" by code_simp
  have ok: "\<forall>tf\<in>set (get_or_empty (allTileFiles (navigate loaderC ''left'' folderAC)) (Fin 0, Fin 0)).
      loaderAC (tf_file tf) \<noteq> None" by code_simp
  have no: "takeWhile (\<lambda>tf. loaderC (tf_file tf) \<noteq> None)
      (get_or_empty (allTileFiles (navigate loaderC ''left'' folderAC)) (Fin 0, Fin 0)) = []"
    by code_simp
  note T = C2_resident_set [OF r, of loaderAC "(Fin 0, Fin 0)", unfolded if_P [OF l]]
  from T [THEN conjunct2, THEN conjunct1] ok
  have "map source (currentPointClouds (snd (loadCurrentTile loaderAC
      ((navigate loaderC ''left'' folderAC)\<lparr>currentTile := (Fin 0, Fin 0)\<rparr>)))) =
     map tf_file (get_or_empty (allTileFiles (navigate loaderC ''left'' folderAC)) (Fin 0, Fin 0))"
    by (rule mp)
  then have 1: "map source (currentPointClouds (snd (loadCurrentTile loaderAC
      ((navigate loaderC ''left'' folderAC)\<lparr>currentTile := (Fin 0, Fin 0)\<rparr>)))) = [cloudA, cloudC]"
    unfolding a .
  note U = C2_resident_set [OF r, of loaderC "(Fin 0, Fin 0)", unfolded if_P [OF l] no]
  from U [THEN conjunct1]
  have 2: "map source (currentPointClouds (snd (loadCurrentTile loaderC
      ((navigate loaderC ''left'' folderAC)\<lparr>currentTile := (Fin 0, Fin 0)\<rparr>)))) = []"
    by simp
  from 1 2 show ?thesis ..
qed

section \<open>The map of loaded point clouds\<close>

lemma clear_removes:
  assumes "scene_ok s" "p \<in> set (currentPointClouds s)"
  shows "PointsObj p \<notin> set (scene (clearCurrentPointClouds s))"
  using clear_scene [OF assms(1)] by simp

text \<open>
  A new folder selection does not empty \<open>loadedPointClouds\<close>: after the folder of
  \<open>a.ply\<close> and \<open>b.ply\<close>, the selection of a folder that holds \<open>c.ply\<close> alone leaves
  the entries of \<open>a.ply\<close> and \<open>b.ply\<close> in the map.
\<close>

theorem C10_loaded_map_counterexample:
  "handleFolderSelection loaderAC loaderAC [cloudC] folderAB = Some (Resolved, folderAB_then_C) \<and>
   plyFiles folderAB_then_C = [cloudC] \<and>
   map fst (loadedPointClouds folderAB) = [''a.ply'', ''b.ply''] \<and>
   map fst (loadedPointClouds folderAB_then_C) = [''a.ply'', ''b.ply'', ''c.ply'']"
  by (intro conjI; code_simp)

text \<open>
  C10, as amended. \<open>clearCurrentPointClouds\<close> empties \<open>currentPointClouds\<close>, removes
  the objects that were current from the scene (in a reachable state) and leaves
  \<open>loadedPointClouds\<close> as it is. A successful \<open>loadFileForTile\<close> sets the entry of the
  name of its file. Neither \<open>navigate\<close> nor a folder selection removes a key of
  \<open>loadedPointClouds\<close>: the map accumulates an entry for every dataset name ever loaded,
  over all the folders of the session. Only \<open>clearAllPointClouds\<close> empties it.
\<close>

theorem C10_loaded_map:
  "(reachable s \<longrightarrow>
      currentPointClouds (clearCurrentPointClouds s) = [] \<and>
      (\<forall>p\<in>set (currentPointClouds s). PointsObj p \<notin> set (scene (clearCurrentPointClouds s))) \<and>
      loadedPointClouds (clearCurrentPointClouds s) = loadedPointClouds s) \<and>
   (ply (tf_file tf) \<noteq> None \<longrightarrow>
      map_of (loadedPointClouds (snd (loadFileForTile ply tf s))) (name (tf_file tf)) =
        Some \<lparr>pid = nextId s, source = tf_file tf\<rparr>) \<and>
   fst ` set (loadedPointClouds s) \<subseteq> fst ` set (loadedPointClouds (snd (loadFileForTile ply tf s))) \<and>
   fst ` set (loadedPointClouds s) \<subseteq> fst ` set (loadedPointClouds (navigate ply direction s)) \<and>
   (handleFolderSelection ply ply' target_files s = Some (c, s') \<longrightarrow>
      fst ` set (loadedPointClouds s) \<subseteq> fst ` set (loadedPointClouds s')) \<and>
   loadedPointClouds (clearAllPointClouds s) = []"
proof (intro conjI impI ballI)
  show "currentPointClouds (clearCurrentPointClouds s) = []"
    by (rule clearCurrentPointClouds_fields)
  show "loadedPointClouds (clearCurrentPointClouds s) = loadedPointClouds s"
    by (rule clearCurrentPointClouds_fields)
  show "PointsObj p \<notin> set (scene (clearCurrentPointClouds s))"
    if "reachable s" "p \<in> set (currentPointClouds s)" for p
    using that by (intro clear_removes) (simp_all add: reachable_invariants)
  show "map_of (loadedPointClouds (snd (loadFileForTile ply tf s))) (name (tf_file tf)) =
        Some \<lparr>pid = nextId s, source = tf_file tf\<rparr>"
    if "ply (tf_file tf) \<noteq> None"
    using that by (simp add: loadFileForTile_Resolved AList.update_conv')
  show "fst ` set (loadedPointClouds s) \<subseteq> fst ` set (loadedPointClouds (snd (loadFileForTile ply tf s)))"
    by (rule loadFileForTile_loaded_keys)
  show "fst ` set (loadedPointClouds s) \<subseteq> fst ` set (loadedPointClouds (navigate ply direction s))"
    by (rule navigate_loaded_keys)
  show "fst ` set (loadedPointClouds s) \<subseteq> fst ` set (loadedPointClouds s')"
    if "handleFolderSelection ply ply' target_files s = Some (c, s')"
    using that by (rule handleFolderSelection_invariants(4))
  show "loadedPointClouds (clearAllPointClouds s) = []"
    by (simp add: clearAllPointClouds_def)
qed

theorem C10_loaded_map_witness:
  "currentPointClouds folderAC = [\<lparr>pid = 0, source = cloudA\<rparr>] \<and>
   currentPointClouds (clearCurrentPointClouds folderAC) = [] \<and>
   PointsObj \<lparr>pid = 0, source = cloudA\<rparr> \<notin> set (scene (clearCurrentPointClouds folderAC)) \<and>
   loadedPointClouds (clearCurrentPointClouds folderAC) = loadedPointClouds folderAC \<and>
   fst ` set (loadedPointClouds folderAB) \<subseteq> fst ` set (loadedPointClouds folderAB_then_C)"
proof -
  have cur: "currentPointClouds folderAC = [\<lparr>pid = 0, source = cloudA\<rparr>]" by code_simp
  have sel: "handleFolderSelection loaderAC loaderAC [cloudC] folderAB = Some (Resolved, folderAB_then_C)"
    by code_simp
  note T = C10_loaded_map [where s = folderAC]
  from T reachable_folderAC have "currentPointClouds (clearCurrentPointClouds folderAC) = [] \<and>
      (\<forall>p\<in>set (currentPointClouds folderAC). PointsObj p \<notin> set (scene (clearCurrentPointClouds folderAC))) \<and>
      loadedPointClouds (clearCurrentPointClouds folderAC) = loadedPointClouds folderAC"
    by blast
  then have 1: "currentPointClouds (clearCurrentPointClouds folderAC) = [] \<and>
      PointsObj \<lparr>pid = 0, source = cloudA\<rparr> \<notin> set (scene (clearCurrentPointClouds folderAC)) \<and>
      loadedPointClouds (clearCurrentPointClouds folderAC) = loadedPointClouds folderAC"
    unfolding cur by simp
  note U = C10_loaded_map [where s = folderAB and ply = loaderAC and ply' = loaderAC
      and target_files = "[cloudC]" and c = Resolved and s' = folderAB_then_C]
  from U sel have 2: "fst ` set (loadedPointClouds folderAB) \<subseteq> fst ` set (loadedPointClouds folderAB_then_C)"
    by blast
  from cur 1 2 show ?thesis by blast
qed

section \<open>Empty input\<close>

lemma analyzed_all_fail: "\<forall>f\<in>set files. ply f = None \<Longrightarrow> analyzed ply files m = m"
proof (induction files arbitrary: m)
  case Nil
  then show ?case by (simp add: analyzed_def)
next
  case (Cons f files)
  then have "extractCoordinatesFromFile ply f = None" by (simp add: extract_None)
  with Cons show ?case by (simp add: analyzed_def)
qed

text \<open>
  When every extraction fails, \<open>calculateGridOrganization\<close> is given no dataset and returns
  without a report: the folder selection resolves, and the only report of the pass is
  the extraction error of \<open>c.ply\<close>.
\<close>

theorem C8_empty_input_counterexample:
  "handleFolderSelection loaderAB loaderAB [cloudC] constructor = Some (Resolved, folderC_failed) \<and>
   fileCoordinates folderC_failed = [] \<and>
   events folderC_failed = [ErrorAnalyzing ''c.ply''] \<and>
   initialTilesLoaded folderC_failed \<and>
   events (calculateGridOrganization (analyzeAllFiles loaderAB (constructor\<lparr>plyFiles := [cloudC]\<rparr>))) =
     events (analyzeAllFiles loaderAB (constructor\<lparr>plyFiles := [cloudC]\<rparr>))"
  by (intro conjI; code_simp)

text \<open>
  C8, as amended. When the selected folder holds no \<open>.ply\<close> file, \<open>handleFolderSelection\<close>
  alerts the user and changes nothing else. When \<open>fileCoordinates\<close> is empty,
  \<open>calculateGridOrganization\<close> returns the state as it is: no bounds, tile size, tiles or
  current tile are produced, and nothing is reported. So when every extraction of a
  folder fails, the analysis and organization change \<open>plyFiles\<close>, empty \<open>fileCoordinates\<close>
  and report one extraction error for each file; the grid frame, the tiles and the
  current tile keep the values they had.
\<close>

theorem C8_empty_input:
  "(filter (\<lambda>f. endsWith (toLowerCase (name f)) ''.ply'') target_files = [] \<longrightarrow>
      handleFolderSelection ply ply' target_files s =
        Some (Resolved, s\<lparr>events := events s @ [AlertNoPlyFiles]\<rparr>)) \<and>
   (fileCoordinates s = [] \<longrightarrow> calculateGridOrganization s = s) \<and>
   ((\<forall>f\<in>set files. ply f = None) \<longrightarrow>
      calculateGridOrganization (analyzeAllFiles ply (s\<lparr>plyFiles := files\<rparr>)) =
        s\<lparr>plyFiles := files, fileCoordinates := [],
          events := events s @ map (\<lambda>f. ErrorAnalyzing (name f)) files\<rparr>)"
proof (intro conjI impI)
  assume "filter (\<lambda>f. endsWith (toLowerCase (name f)) ''.ply'') target_files = []"
  then show "handleFolderSelection ply ply' target_files s =
        Some (Resolved, s\<lparr>events := events s @ [AlertNoPlyFiles]\<rparr>)"
    by (simp add: handleFolderSelection_def)
next
  assume "fileCoordinates s = []"
  then show "calculateGridOrganization s = s"
    by (simp add: calculateGridOrganization_def calculateGrid_empty)
next
  assume fail: "\<forall>f\<in>set files. ply f = None"
  then have f: "filter (\<lambda>f. ply f = None) files = files" by simp
  from fail have a: "analyzeAllFiles ply (s\<lparr>plyFiles := files\<rparr>) =
      s\<lparr>plyFiles := files, fileCoordinates := [],
        events := events s @ map (\<lambda>f. ErrorAnalyzing (name f)) files\<rparr>"
    by (simp add: analyzeAllFiles_eq analyzed_all_fail f)
  show "calculateGridOrganization (analyzeAllFiles ply (s\<lparr>plyFiles := files\<rparr>)) =
        s\<lparr>plyFiles := files, fileCoordinates := [],
          events := events s @ map (\<lambda>f. ErrorAnalyzing (name f)) files\<rparr>"
    unfolding a by (simp add: calculateGridOrganization_def calculateGrid_empty)
qed

theorem C8_empty_input_witness:
  "handleFolderSelection loaderAB loaderAB [readme] folderAB =
     Some (Resolved, folderAB\<lparr>events := events folderAB @ [AlertNoPlyFiles]\<rparr>) \<and>
   calculateGridOrganization constructor = constructor \<and>
   calculateGridOrganization (analyzeAllFiles loaderAB (folderAB\<lparr>plyFiles := [cloudC]\<rparr>)) =
     folderAB\<lparr>plyFiles := [cloudC], fileCoordinates := [],
       events := events folderAB @ [ErrorAnalyzing ''c.ply'']\<rparr>"
proof -
  have n: "filter (\<lambda>f. endsWith (toLowerCase (name f)) ''.ply'') [readme] = []" by code_simp
  have e: "fileCoordinates constructor = []" by (simp add: constructor_def)
  have a: "\<forall>f\<in>set [cloudC]. loaderAB f = None" by simp
  note T = C8_empty_input [where target_files = "[readme]" and s = folderAB and ply = loaderAB
      and ply' = loaderAB and files = "[cloudC]"]
  note U = C8_empty_input [where s = constructor]
  from T n have 1: "handleFolderSelection loaderAB loaderAB [readme] folderAB =
     Some (Resolved, folderAB\<lparr>events := events folderAB @ [AlertNoPlyFiles]\<rparr>)" by blast
  from U e have 2: "calculateGridOrganization constructor = constructor" by blast
  from T a have "calculateGridOrganization (analyzeAllFiles loaderAB (folderAB\<lparr>plyFiles := [cloudC]\<rparr>)) =
     folderAB\<lparr>plyFiles := [cloudC], fileCoordinates := [],
       events := events folderAB @ map (\<lambda>f. ErrorAnalyzing (name f)) [cloudC]\<rparr>" by blast
  then have 3: "calculateGridOrganization (analyzeAllFiles loaderAB (folderAB\<lparr>plyFiles := [cloudC]\<rparr>)) =
     folderAB\<lparr>plyFiles := [cloudC], fileCoordinates := [],
       events := events folderAB @ [ErrorAnalyzing ''c.ply'']\<rparr>" by simp
  from 1 2 3 show ?thesis by (intro conjI)
qed

section \<open>Assignment in the fixed grid\<close>

lemma analyzedCA_files: "plyFiles analyzedCA = [cloudC, cloudA]"
  by code_simp

lemma analyzedCA_events: "events analyzedCA = [ErrorAnalyzing ''c.ply'']"
  by code_simp

lemma analyzedCA_c: "map_of (fileCoordinates analyzedCA) ''c.ply'' = None"
  by code_simp

lemma analyzedCA_a: "map_option centerX (map_of (fileCoordinates analyzedCA) ''a.ply'') = Some (Fin 5)"
  by code_simp

text \<open>
  A folder of two files of which the first has no bounding box: \<open>c.ply\<close> takes the cell
  \<open>(0, 0)\<close> and is assigned nowhere, \<open>a.ply\<close> is assigned to the cell \<open>(0, 1)\<close>. One dataset
  is assigned, not two, and the dataset that is assigned is not in the first cell.
\<close>

theorem C6_fixed_assignment_counterexample:
  "reachable_fixed fixedCA \<and>
   plyFiles fixedCA = [cloudC, cloudA] \<and>
   map_of (allTileFiles fixedCA) (tileKey (Fin 0) (Fin 0)) = Some [] \<and>
   map tf_file (tileEntries (allTileFiles fixedCA)) = [cloudA] \<and>
   map_option (map tf_file) (map_of (allTileFiles fixedCA) (tileKey (Fin 0) (Fin 1))) = Some [cloudA] \<and>
   length (tileEntries (allTileFiles fixedCA)) < min 9 (length (plyFiles fixedCA))"
proof (intro conjI)
  show "reachable_fixed fixedCA"
    unfolding fixedCA_def
    by (rule reachf_folder [OF reachf_constructor, of loaderAB loaderAB "[cloudC, cloudA]"
          "fst (handleFolderSelection_fixed loaderAB loaderAB [cloudC, cloudA] constructor)"]) simp
qed code_simp+

text \<open>
  C6, as amended. The fixed variant of \<open>organizeFilesIntoTiles\<close> gives the \<open>j\<close>-th of the first
  nine files the cell \<open>(j div 3, j mod 3)\<close>. The tile of that cell holds exactly that
  file when coordinates were extracted for it, and is empty when none were (a warning is
  logged) or when there is no \<open>j\<close>-th file. The tile store has exactly the nine cells as
  keys, every entry of it is one of the first \<open>min 9 n\<close> files, so that files beyond the
  ninth are never assigned; fewer than nine files add one warning; nothing but warnings
  is reported, and the current tile is \<open>(1, 1)\<close>.
\<close>

theorem C6_fixed_assignment:
  fixes s :: state
  defines "s' \<equiv> organizeFilesIntoTiles_fixed s"
  defines "n \<equiv> length (plyFiles s)"
  shows "(\<forall>j<9. map_of (allTileFiles s')
                  (tileKey (Fin (of_nat (j div 3))) (Fin (of_nat (j mod 3)))) =
                Some (if j < n
                      then (case map_of (fileCoordinates s) (name (plyFiles s ! j)) of
                              Some co \<Rightarrow>
                                [\<lparr>tf_file = plyFiles s ! j, originalCoords = co,
                                  tileX = Fin (of_nat (j div 3)),
                                  tileY = Fin (of_nat (j mod 3))\<rparr>]
                            | None \<Rightarrow> [])
                      else [])) \<and>
         distinct (map fst (allTileFiles s')) \<and>
         fst ` set (allTileFiles s') =
           {tileKey (Fin (of_nat x)) (Fin (of_nat y)) |x y. x < (3::nat) \<and> y < (3::nat)} \<and>
         (\<forall>tf\<in>set (tileEntries (allTileFiles s')). \<exists>j<min 9 n. tf_file tf = plyFiles s ! j) \<and>
         events s' =
           events s @ (if n < 9 then [WarnOnlyFiles n] else []) @
           map (\<lambda>f. WarnNoCoordinates (name f))
             (filter (\<lambda>f. map_of (fileCoordinates s) (name f) = None) (take 9 (plyFiles s))) \<and>
         (\<forall>e\<in>set (drop (length (events s)) (events s')). is_console_warn e) \<and>
         currentTile s' = (Fin 1, Fin 1)"
proof (intro conjI)
  show "\<forall>j<9. map_of (allTileFiles s')
                  (tileKey (Fin (of_nat (j div 3))) (Fin (of_nat (j mod 3)))) =
                Some (if j < n
                      then (case map_of (fileCoordinates s) (name (plyFiles s ! j)) of
                              Some co \<Rightarrow>
                                [\<lparr>tf_file = plyFiles s ! j, originalCoords = co,
                                  tileX = Fin (of_nat (j div 3)),
                                  tileY = Fin (of_nat (j mod 3))\<rparr>]
                            | None \<Rightarrow> [])
                      else [])"
    unfolding s'_def n_def by (intro allI impI) (rule organized_fixed_tile)
  show "distinct (map fst (allTileFiles s'))"
    unfolding s'_def by (rule organized_fixed_distinct)
  show "fst ` set (allTileFiles s') =
           {tileKey (Fin (of_nat x)) (Fin (of_nat y)) |x y. x < (3::nat) \<and> y < (3::nat)}"
    unfolding s'_def by (simp only: organized_fixed_keys cellKeys_cells3)
  show "\<forall>tf\<in>set (tileEntries (allTileFiles s')). \<exists>j<min 9 n. tf_file tf = plyFiles s ! j"
    unfolding s'_def n_def by (intro ballI) (rule organized_fixed_entries)
  show ev: "events s' =
           events s @ (if n < 9 then [WarnOnlyFiles n] else []) @
           map (\<lambda>f. WarnNoCoordinates (name f))
             (filter (\<lambda>f. map_of (fileCoordinates s) (name f) = None) (take 9 (plyFiles s)))"
    unfolding s'_def n_def by (rule organized_fixed_events)
  show "\<forall>e\<in>set (drop (length (events s)) (events s')). is_console_warn e"
    unfolding ev by auto
  show "currentTile s' = (Fin 1, Fin 1)"
    unfolding s'_def by (rule organizeFilesIntoTiles_fixed_fields)
qed

theorem C6_fixed_assignment_witness:
  "map_of (allTileFiles (organizeFilesIntoTiles_fixed analyzedCA)) (tileKey (Fin 0) (Fin 0)) =
     Some [] \<and>
   map_option (map tf_file)
     (map_of (allTileFiles (organizeFilesIntoTiles_fixed analyzedCA)) (tileKey (Fin 0) (Fin 1))) =
     Some [cloudA] \<and>
   map_of (allTileFiles (organizeFilesIntoTiles_fixed analyzedCA)) (tileKey (Fin 0) (Fin 2)) =
     Some [] \<and>
   events (organizeFilesIntoTiles_fixed analyzedCA) =
     [ErrorAnalyzing ''c.ply'', WarnOnlyFiles 2, WarnNoCoordinates ''c.ply''] \<and>
   currentTile (organizeFilesIntoTiles_fixed analyzedCA) = (Fin 1, Fin 1)"
proof -
  note T = C6_fixed_assignment [of analyzedCA]
  note tiles = T [THEN conjunct1]
  obtain co where a: "map_of (fileCoordinates analyzedCA) ''a.ply'' = Some co"
    using analyzedCA_a by (cases "map_of (fileCoordinates analyzedCA) ''a.ply''") simp_all
  from tiles [THEN spec, of 0]
  have 0: "map_of (allTileFiles (organizeFilesIntoTiles_fixed analyzedCA)) (tileKey (Fin 0) (Fin 0)) =
     Some []"
    by (simp add: analyzedCA_files analyzedCA_c)
  from tiles [THEN spec, of 1]
  have 1: "map_option (map tf_file)
     (map_of (allTileFiles (organizeFilesIntoTiles_fixed analyzedCA)) (tileKey (Fin 0) (Fin 1))) =
     Some [cloudA]"
    by (simp add: analyzedCA_files a)
  from tiles [THEN spec, of 2]
  have 2: "map_of (allTileFiles (organizeFilesIntoTiles_fixed analyzedCA)) (tileKey (Fin 0) (Fin 2)) =
     Some []"
    by (simp add: analyzedCA_files)
  from T have 3: "events (organizeFilesIntoTiles_fixed analyzedCA) =
     [ErrorAnalyzing ''c.ply'', WarnOnlyFiles 2, WarnNoCoordinates ''c.ply'']"
    by (simp add: analyzedCA_files analyzedCA_events analyzedCA_c a)
  from T have 4: "currentTile (organizeFilesIntoTiles_fixed analyzedCA) = (Fin 1, Fin 1)" by blast
  from 0 1 2 3 4 show ?thesis by (intro conjI)
qed

end
